(* ===== verification/Prelude.thy ===== *)
theory Prelude
  imports Main "HOL-Library.Word" "HOL-Library.Multiset"
begin

text \<open>
  What every component of the development shares: Go errors, times and integer
  conversions, the shape of a fallible effectful call, decimal printing and parsing
  (\<^verbatim>\<open>fmt.Sprintf("%d")\<close>, \<^verbatim>\<open>strconv.ParseInt\<close>), and generic lemmas on lists.
  A call that may fail and that reads or changes the outside world is a function
  \<open>'w \<Rightarrow> (error + 'a) \<times> 'w\<close>: the world is passed explicitly, an error is \<open>Inl\<close>.
\<close>

named_theorems go_simps \<open>unfolding rules for the Go primitives of the model\<close>

section \<open>Errors, effects\<close>

text \<open>
  A Go \<^verbatim>\<open>error\<close>: one made by \<^verbatim>\<open>errors.New\<close>/\<^verbatim>\<open>fmt.Errorf\<close> with its text, the two context
  errors, the "no row" and "no key" errors of the drivers, and any other error of
  a driver or of the network.
\<close>

datatype error =
    ErrorNew string
  | ContextCanceled
  | ContextDeadlineExceeded
  | ErrRecordNotFound
  | RedisNil
  | ExternalError string

fun error_text :: "error \<Rightarrow> string" where
  "error_text (ErrorNew s) = s"
| "error_text ContextCanceled = ''context canceled''"
| "error_text ContextDeadlineExceeded = ''context deadline exceeded''"
| "error_text ErrRecordNotFound = ''record not found''"
| "error_text RedisNil = ''redis: nil''"
| "error_text (ExternalError s) = s"

type_synonym ('w, 'a) io = "'w \<Rightarrow> (error + 'a) \<times> 'w"

definition io_return :: "'a \<Rightarrow> ('w, 'a) io" where
  "io_return x = (\<lambda>w. (Inr x, w))"

definition io_fail :: "error \<Rightarrow> ('w, 'a) io" where
  "io_fail e = (\<lambda>w. (Inl e, w))"

text \<open>\<^verbatim>\<open>x, err := m(); if err != nil { return err }; f(x)\<close>\<close>

definition io_bind :: "('w, 'a) io \<Rightarrow> ('a \<Rightarrow> ('w, 'b) io) \<Rightarrow> ('w, 'b) io" where
  "io_bind m f = (\<lambda>w. case m w of (Inl e, w') \<Rightarrow> (Inl e, w') | (Inr x, w') \<Rightarrow> f x w')"

text \<open>\<^verbatim>\<open>for _, x := range xs { if err := f(x); err != nil { return err } }\<close>\<close>

fun io_each :: "('a \<Rightarrow> ('w, unit) io) \<Rightarrow> 'a list \<Rightarrow> ('w, unit) io" where
  "io_each f [] = io_return ()"
| "io_each f (x # xs) = io_bind (f x) (\<lambda>_. io_each f xs)"

lemma io_return_apply [simp, go_simps]: "io_return x w = (Inr x, w)"
  by (simp add: io_return_def)

lemma io_fail_apply [simp, go_simps]: "io_fail e w = (Inl e, w)"
  by (simp add: io_fail_def)

lemma io_bind_InrE:
  assumes "io_bind m f w = (Inr y, w')"
  obtains x w1 where "m w = (Inr x, w1)" "f x w1 = (Inr y, w')"
  using assms by (auto simp: io_bind_def split: prod.splits sum.splits)

lemma io_bind_InlE:
  assumes "io_bind m f w = (Inl e, w')"
  obtains "m w = (Inl e, w')" | x w1 where "m w = (Inr x, w1)" "f x w1 = (Inl e, w')"
  using assms by (auto simp: io_bind_def split: prod.splits sum.splits)

lemma io_bind_Inr [simp]: "m w = (Inr x, w1) \<Longrightarrow> io_bind m f w = f x w1"
  by (simp add: io_bind_def)

lemma io_bind_Inl [simp]: "m w = (Inl e, w1) \<Longrightarrow> io_bind m f w = (Inl e, w1)"
  by (simp add: io_bind_def)

text \<open>A call that leaves a view of the world as it is.\<close>

definition keeps :: "('w \<Rightarrow> 'v) \<Rightarrow> ('w \<Rightarrow> 'a \<times> 'w) \<Rightarrow> bool" where
  "keeps v m \<longleftrightarrow> (\<forall>w r w'. m w = (r, w') \<longrightarrow> v w' = v w)"

named_theorems keeps_intros \<open>calls that keep a view\<close>

lemma keepsD: "keeps v m \<Longrightarrow> m w = (r, w') \<Longrightarrow> v w' = v w"
  by (simp add: keeps_def)

lemma keepsI: "(\<And>w r w'. m w = (r, w') \<Longrightarrow> v w' = v w) \<Longrightarrow> keeps v m"
  by (simp add: keeps_def)

lemma keeps_return [keeps_intros, intro]: "keeps v (io_return x)"
  by (simp add: keeps_def)

lemma keeps_fail [keeps_intros, intro]: "keeps v (io_fail e)"
  by (simp add: keeps_def)

lemma keeps_bind [keeps_intros, intro]:
  "keeps v m \<Longrightarrow> (\<And>x. keeps v (f x)) \<Longrightarrow> keeps v (io_bind m f)"
  by (fastforce simp: keeps_def io_bind_def split: prod.splits sum.splits)

lemma keeps_each [keeps_intros, intro]: "(\<And>x. keeps v (f x)) \<Longrightarrow> keeps v (io_each f xs)"
  by (induction xs) auto

section \<open>Time\<close>

text \<open>
  A \<^verbatim>\<open>time.Time\<close> is the number of nanoseconds since Go's zero time (1 January of year 1,
  UTC), so the zero value is 0; a \<^verbatim>\<open>time.Duration\<close> is a number of nanoseconds. A clock
  reading may change the world: two readings may differ.
\<close>

type_synonym go_time = int
type_synonym duration = int
type_synonym 'w clock = "'w \<Rightarrow> go_time \<times> 'w"

definition time_second :: duration where "time_second = 1000000000"
definition time_minute :: duration where "time_minute = 60 * time_second"
definition time_hour :: duration where "time_hour = 60 * time_minute"
definition time_millisecond :: duration where "time_millisecond = 1000000"

definition IsZero :: "go_time \<Rightarrow> bool" where "IsZero t \<longleftrightarrow> t = 0"

text \<open>Seconds since 1970; \<^verbatim>\<open>t.Unix()\<close> rounds down.\<close>

definition Unix :: "go_time \<Rightarrow> int" where
  "Unix t = t div time_second - 62135596800"

text \<open>\<^verbatim>\<open>t.Sub(u)\<close> saturates at the bounds of \<^verbatim>\<open>int64\<close>.\<close>

definition time_sub :: "go_time \<Rightarrow> go_time \<Rightarrow> duration" where
  "time_sub t u = max (- (2 ^ 63)) (min (2 ^ 63 - 1) (t - u))"

lemmas time_units = time_hour_def time_minute_def time_second_def time_millisecond_def

lemma Unix_mono: "t \<le> u \<Longrightarrow> Unix t \<le> Unix u"
  by (simp add: Unix_def time_second_def zdiv_mono1)

section \<open>Integer widths\<close>

text \<open>
  \<^verbatim>\<open>int\<close> and \<^verbatim>\<open>int64\<close> are 64 bits wide, \<^verbatim>\<open>int32\<close> is 32; values are kept as \<open>int\<close> and the
  wrap-around of an operation is written with \<open>wrap64\<close> and \<open>wrap32\<close>.
\<close>

definition wrap64 :: "int \<Rightarrow> int" where "wrap64 n = signed_take_bit 63 n"
definition wrap32 :: "int \<Rightarrow> int" where "wrap32 n = signed_take_bit 31 n"

definition in_int64 :: "int \<Rightarrow> bool" where "in_int64 n \<longleftrightarrow> - (2 ^ 63) \<le> n \<and> n < 2 ^ 63"
definition in_int32 :: "int \<Rightarrow> bool" where "in_int32 n \<longleftrightarrow> - (2 ^ 31) \<le> n \<and> n < 2 ^ 31"

lemma wrap64_id [simp]: "in_int64 n \<Longrightarrow> wrap64 n = n"
  by (simp add: wrap64_def in_int64_def signed_take_bit_int_eq_self)

lemma wrap32_id [simp]: "in_int32 n \<Longrightarrow> wrap32 n = n"
  by (simp add: wrap32_def in_int32_def signed_take_bit_int_eq_self)

lemma wrap64_range: "in_int64 (wrap64 n)"
  unfolding in_int64_def wrap64_def
  using signed_take_bit_int_greater_eq_minus_exp [of 63 n] signed_take_bit_int_less_exp [of 63 n]
  by simp

lemma wrap32_range: "in_int32 (wrap32 n)"
  unfolding in_int32_def wrap32_def
  using signed_take_bit_int_greater_eq_minus_exp [of 31 n] signed_take_bit_int_less_exp [of 31 n]
  by simp

section \<open>Decimal printing and parsing\<close>

definition digit_char :: "nat \<Rightarrow> char" where
  "digit_char d = char_of (48 + d)"

fun show_nat :: "nat \<Rightarrow> string" where
  "show_nat n = (if n < 10 then [digit_char n] else show_nat (n div 10) @ [digit_char (n mod 10)])"

declare show_nat.simps [simp del]

text \<open>\<^verbatim>\<open>fmt.Sprintf("%d", i)\<close> and \<^verbatim>\<open>strconv.FormatInt(i, 10)\<close>.\<close>

definition show_int :: "int \<Rightarrow> string" where
  "show_int i = (if i < 0 then CHR ''-'' # show_nat (nat (- i)) else show_nat (nat i))"

definition is_digit :: "char \<Rightarrow> bool" where
  "is_digit c \<longleftrightarrow> 48 \<le> (of_char c :: nat) \<and> (of_char c :: nat) \<le> 57"

definition digits_value :: "string \<Rightarrow> nat" where
  "digits_value s = foldl (\<lambda>n c. 10 * n + (of_char c - 48)) 0 s"

text \<open>
  \<^verbatim>\<open>strconv.ParseInt(s, 10, 64)\<close>: an optional sign, at least one digit, nothing else, and the
  value in the range of \<^verbatim>\<open>int64\<close>.
\<close>

definition parse_int :: "string \<Rightarrow> int option" where
  "parse_int s =
     (let (neg, ds) = (case s of c # cs \<Rightarrow> if c = CHR ''-'' then (True, cs)
                                         else if c = CHR ''+'' then (False, cs) else (False, s)
                        | [] \<Rightarrow> (False, []));
          v = (if neg then - int (digits_value ds) else int (digits_value ds))
      in if ds \<noteq> [] \<and> list_all is_digit ds \<and> in_int64 v then Some v else None)"

lemma of_digit_char [simp]: "d < 10 \<Longrightarrow> (of_char (digit_char d) :: nat) = 48 + d"
  by (simp add: digit_char_def)

lemma is_digit_digit_char [simp]: "d < 10 \<Longrightarrow> is_digit (digit_char d)"
  by (simp add: is_digit_def)

lemma show_nat_digits: "list_all is_digit (show_nat n)"
proof (induction n rule: show_nat.induct)
  case (1 n)
  then show ?case by (cases "n < 10") (simp_all add: show_nat.simps [of n])
qed

lemma show_nat_nonempty [simp]: "show_nat n \<noteq> []"
  by (subst show_nat.simps) simp

lemma digits_value_snoc: "digits_value (s @ [c]) = 10 * digits_value s + (of_char c - 48)"
  by (simp add: digits_value_def)

lemma digits_value_show_nat [simp]: "digits_value (show_nat n) = n"
proof (induction n rule: show_nat.induct)
  case (1 n)
  show ?case
  proof (cases "n < 10")
    case True
    then show ?thesis by (simp add: show_nat.simps [of n] digits_value_def)
  next
    case False
    with 1 have "digits_value (show_nat (n div 10)) = n div 10" by simp
    with False show ?thesis
      by (simp add: show_nat.simps [of n] digits_value_snoc)
  qed
qed

lemma show_nat_inject [simp]: "show_nat m = show_nat n \<longleftrightarrow> m = n"
  by (metis digits_value_show_nat)

lemma show_nat_no_sep:
  assumes "\<not> is_digit c"
  shows "c \<notin> set (show_nat n)"
  using show_nat_digits [of n] assms by (auto simp: list_all_iff)

lemma show_int_no_colon [simp]: "CHR '':'' \<notin> set (show_int i)"
proof -
  have "\<not> is_digit CHR '':''" by (simp add: is_digit_def)
  then show ?thesis by (simp add: show_int_def show_nat_no_sep)
qed

lemma show_int_inject [simp]: "show_int i = show_int j \<longleftrightarrow> i = j"
proof
  have minus: "show_nat n \<noteq> CHR ''-'' # s" for n s
  proof
    assume "show_nat n = CHR ''-'' # s"
    then have "is_digit CHR ''-''" using show_nat_digits [of n] by simp
    then show False by (simp add: is_digit_def)
  qed
  assume "show_int i = show_int j"
  then show "i = j"
    using minus [of "nat i" "show_nat (nat (- j))"]
      minus [of "nat j" "show_nat (nat (- i))"]
    by (auto simp: show_int_def split: if_splits)
qed simp

lemma parse_int_show_int [simp]:
  assumes "in_int64 i"
  shows "parse_int (show_int i) = Some i"
proof (cases "i < 0")
  case True
  then show ?thesis
    using assms by (simp add: parse_int_def show_int_def show_nat_digits)
next
  case False
  obtain c cs where cs: "show_nat (nat i) = c # cs"
    by (metis show_nat_nonempty neq_Nil_conv)
  then have "is_digit c" using show_nat_digits [of "nat i"] by simp
  then have "c \<noteq> CHR ''-''" "c \<noteq> CHR ''+''" by (auto simp: is_digit_def)
  then show ?thesis
    using False assms show_nat_digits [of "nat i"] digits_value_show_nat [of "nat i"]
    by (simp add: parse_int_def show_int_def cs)
qed

text \<open>Two strings joined by a separator that the first does not contain.\<close>

lemma append_sep_inject:
  assumes "c \<notin> set xs" "c \<notin> set xs'"
  shows "xs @ c # ys = xs' @ c # ys' \<longleftrightarrow> xs = xs' \<and> ys = ys'"
  using assms
proof (induction xs arbitrary: xs')
  case Nil
  then show ?case by (cases xs') auto
next
  case (Cons x xs)
  then show ?case by (cases xs') auto
qed

lemma key3_inject:
  "show_int a @ CHR '':'' # show_int b @ CHR '':'' # show_int c =
   show_int a' @ CHR '':'' # show_int b' @ CHR '':'' # show_int c' \<longleftrightarrow>
   a = a' \<and> b = b' \<and> c = c'"
  by (simp add: append_sep_inject)

section \<open>Lists\<close>

lemma distinct_map_mset_eq:
  assumes "mset xs = mset ys"
  shows "distinct (map f xs) \<longleftrightarrow> distinct (map f ys)"
  by (rule mset_eq_imp_distinct_iff) (simp add: assms)

end
