(* ===== verification/Json.thy ===== *)
theory Json
  imports Prelude
begin

text \<open>
  What the program uses of Go's \<^verbatim>\<open>encoding/json\<close>. JSON text is represented by its syntax
  tree. A string that holds an instant written by \<^verbatim>\<open>time.Time.MarshalJSON\<close> is the leaf
  \<open>JTime\<close>. A \<^verbatim>\<open>json.RawMessage\<close> is a byte slice: empty, valid JSON, or bytes that are not
  JSON. Object fields are matched by their exact name.
\<close>

datatype json =
    JNull
  | JBool bool
  | JInt int                        \<comment> \<open>a number literal without fraction and exponent\<close>
  | JFloat string                   \<comment> \<open>any other number literal\<close>
  | JStr string
  | JTime go_time
  | JArr "json list"
  | JObj "(string \<times> json) list"

datatype raw_message = RawEmpty | RawValid json | RawInvalid string

definition json_type_error :: error where
  "json_type_error = ErrorNew ''json: cannot unmarshal value into Go value''"

definition json_syntax_error :: error where
  "json_syntax_error = ErrorNew ''unexpected end of JSON input''"

section \<open>Decoding\<close>

text \<open>
  \<^verbatim>\<open>json.Unmarshal\<close> of one value into a Go value of a basic type. \<^verbatim>\<open>null\<close> leaves the
  destination as it is, here its zero value, and is no error.
\<close>

fun decode_int :: "json \<Rightarrow> error + int" where
  "decode_int JNull = Inr 0"
| "decode_int (JInt n) = (if in_int64 n then Inr n else Inl json_type_error)"
| "decode_int _ = Inl json_type_error"

fun decode_string :: "json \<Rightarrow> error + string" where
  "decode_string JNull = Inr []"
| "decode_string (JStr s) = Inr s"
| "decode_string _ = Inl json_type_error"

fun decode_time :: "json \<Rightarrow> error + go_time" where
  "decode_time JNull = Inr 0"
| "decode_time (JTime t) = Inr t"
| "decode_time _ = Inl json_type_error"

text \<open>A slice: every element is decoded; one element of a wrong type makes the whole call an error.\<close>

fun decode_elems :: "(json \<Rightarrow> error + 'a) \<Rightarrow> json list \<Rightarrow> error + 'a list" where
  "decode_elems d [] = Inr []"
| "decode_elems d (j # js) =
     (case d j of Inl e \<Rightarrow> Inl e
      | Inr x \<Rightarrow> (case decode_elems d js of Inl e \<Rightarrow> Inl e | Inr xs \<Rightarrow> Inr (x # xs)))"

fun decode_list :: "(json \<Rightarrow> error + 'a) \<Rightarrow> json \<Rightarrow> error + 'a list" where
  "decode_list d JNull = Inr []"
| "decode_list d (JArr js) = decode_elems d js"
| "decode_list d _ = Inl json_type_error"

text \<open>\<^verbatim>\<open>json.Unmarshal(raw, &v)\<close>, with the decoder of the type of \<^verbatim>\<open>v\<close>.\<close>

fun Unmarshal :: "(json \<Rightarrow> error + 'a) \<Rightarrow> raw_message \<Rightarrow> error + 'a" where
  "Unmarshal d RawEmpty = Inl json_syntax_error"
| "Unmarshal d (RawInvalid s) = Inl json_syntax_error"
| "Unmarshal d (RawValid j) = d j"

text \<open>A field of a struct: a missing field keeps the zero value, as \<^verbatim>\<open>null\<close> does.\<close>

definition json_field :: "string \<Rightarrow> (string \<times> json) list \<Rightarrow> json" where
  "json_field k kvs = (case map_of (rev kvs) k of None \<Rightarrow> JNull | Some j \<Rightarrow> j)"

text \<open>A field of type \<^verbatim>\<open>json.RawMessage\<close> takes the text of the value, \<^verbatim>\<open>null\<close> included.\<close>

definition raw_field :: "string \<Rightarrow> (string \<times> json) list \<Rightarrow> raw_message" where
  "raw_field k kvs = (case map_of (rev kvs) k of None \<Rightarrow> RawEmpty | Some j \<Rightarrow> RawValid j)"

definition res_bind :: "error + 'a \<Rightarrow> ('a \<Rightarrow> error + 'b) \<Rightarrow> error + 'b" where
  "res_bind r f = (case r of Inl e \<Rightarrow> Inl e | Inr x \<Rightarrow> f x)"

lemma res_bind_simps [simp]:
  "res_bind (Inr x) f = f x"
  "res_bind (Inl e) f = Inl e"
  by (simp_all add: res_bind_def)

lemma res_bind_eq_Inr: "res_bind r f = Inr y \<longleftrightarrow> (\<exists>x. r = Inr x \<and> f x = Inr y)"
  by (cases r) auto

section \<open>Encoding\<close>

text \<open>\<^verbatim>\<open>time.Time.MarshalJSON\<close> refuses years outside 0 to 9999.\<close>

definition time_marshalable :: "go_time \<Rightarrow> bool" where
  "time_marshalable t \<longleftrightarrow> - (31622400 * time_second) \<le> t \<and> t < 315537897600 * time_second"

definition json_time_error :: error where
  "json_time_error = ErrorNew ''Time.MarshalJSON: year outside of range [0,9999]''"

definition enc_time :: "go_time \<Rightarrow> error + json" where
  "enc_time t = (if time_marshalable t then Inr (JTime t) else Inl json_time_error)"

fun enc_raw :: "raw_message \<Rightarrow> error + json" where
  "enc_raw RawEmpty = Inr JNull"
| "enc_raw (RawValid j) = Inr j"
| "enc_raw (RawInvalid s) = Inl json_syntax_error"

text \<open>One field of a struct, plain and with the tag option \<^verbatim>\<open>omitempty\<close>.\<close>

definition fld :: "string \<Rightarrow> error + json \<Rightarrow> error + (string \<times> json) list" where
  "fld k r = res_bind r (\<lambda>j. Inr [(k, j)])"

definition fld_omit_raw :: "string \<Rightarrow> raw_message \<Rightarrow> error + (string \<times> json) list" where
  "fld_omit_raw k r = (if r = RawEmpty then Inr [] else fld k (enc_raw r))"

definition fld_omit_str :: "string \<Rightarrow> string \<Rightarrow> error + (string \<times> json) list" where
  "fld_omit_str k s = (if s = [] then Inr [] else Inr [(k, JStr s)])"

fun enc_elems :: "('a \<Rightarrow> error + json) \<Rightarrow> 'a list \<Rightarrow> error + json list" where
  "enc_elems f [] = Inr []"
| "enc_elems f (x # xs) = res_bind (f x) (\<lambda>j. res_bind (enc_elems f xs) (\<lambda>js. Inr (j # js)))"

definition fld_omit_list ::
  "string \<Rightarrow> ('a \<Rightarrow> error + json) \<Rightarrow> 'a list \<Rightarrow> error + (string \<times> json) list" where
  "fld_omit_list k f xs =
     (if xs = [] then Inr [] else res_bind (enc_elems f xs) (\<lambda>js. Inr [(k, JArr js)]))"

fun enc_fields :: "(error + (string \<times> json) list) list \<Rightarrow> error + (string \<times> json) list" where
  "enc_fields [] = Inr []"
| "enc_fields (f # fs) = res_bind f (\<lambda>a. res_bind (enc_fields fs) (\<lambda>b. Inr (a @ b)))"

definition enc_struct :: "(error + (string \<times> json) list) list \<Rightarrow> error + json" where
  "enc_struct fs = res_bind (enc_fields fs) (\<lambda>kvs. Inr (JObj kvs))"

section \<open>Round trips of lists and fields\<close>

lemma decode_elems_enc_elems:
  assumes "enc_elems f xs = Inr js"
    and "\<And>x j. x \<in> set xs \<Longrightarrow> f x = Inr j \<Longrightarrow> d j = Inr (g x)"
  shows "decode_elems d js = Inr (map g xs)"
  using assms
proof (induction xs arbitrary: js)
  case Nil
  then show ?case by simp
next
  case (Cons x xs)
  then obtain j js' where "f x = Inr j" "enc_elems f xs = Inr js'" "js = j # js'"
    by (auto simp: res_bind_eq_Inr)
  moreover from this have "d j = Inr (g x)" using Cons.prems(2) by simp
  moreover have "decode_elems d js' = Inr (map g xs)"
    using Cons.IH [OF \<open>enc_elems f xs = Inr js'\<close>] Cons.prems(2) by simp
  ultimately show ?case by simp
qed

lemma decode_int_list:
  "list_all in_int64 xs \<Longrightarrow> decode_elems decode_int (map JInt xs) = Inr xs"
  by (induction xs) auto

text \<open>
  The fields that the two \<^verbatim>\<open>omitempty\<close> encoders write, as plain lists, and looking a key up
  past them.
\<close>

fun raw_kvs :: "string \<Rightarrow> raw_message \<Rightarrow> (string \<times> json) list" where
  "raw_kvs k (RawValid j) = [(k, j)]"
| "raw_kvs k _ = []"

fun raw_valid :: "raw_message \<Rightarrow> bool" where
  "raw_valid (RawInvalid s) = False"
| "raw_valid _ = True"

lemma fld_omit_raw_eq: "fld_omit_raw k r = (if raw_valid r then Inr (raw_kvs k r) else Inl json_syntax_error)"
  by (cases r) (auto simp: fld_omit_raw_def fld_def)

lemma enc_raw_eq_Inr: "enc_raw r = Inr j \<longleftrightarrow> (r = RawEmpty \<and> j = JNull) \<or> r = RawValid j"
  by (cases r) auto

definition str_kvs :: "string \<Rightarrow> string \<Rightarrow> (string \<times> json) list" where
  "str_kvs k s = (if s = [] then [] else [(k, JStr s)])"

definition list_kvs :: "string \<Rightarrow> json list \<Rightarrow> (string \<times> json) list" where
  "list_kvs k js = (if js = [] then [] else [(k, JArr js)])"

lemma map_of_raw_kvs:
  "map_of (rev (raw_kvs k r)) k' = (if k' = k then (case r of RawValid j \<Rightarrow> Some j | _ \<Rightarrow> None) else None)"
  by (cases r) auto

lemma map_of_str_kvs:
  "map_of (rev (str_kvs k s)) k' = (if k' = k \<and> s \<noteq> [] then Some (JStr s) else None)"
  by (simp add: str_kvs_def)

lemma map_of_list_kvs:
  "map_of (rev (list_kvs k js)) k' = (if k' = k \<and> js \<noteq> [] then Some (JArr js) else None)"
  by (simp add: list_kvs_def)

lemma enc_elems_Nil [simp]: "enc_elems f xs = Inr [] \<longleftrightarrow> xs = []"
  by (cases xs) (auto simp: res_bind_eq_Inr)

lemma fld_omit_str_eq: "fld_omit_str k s = Inr (str_kvs k s)"
  by (simp add: fld_omit_str_def str_kvs_def)

declare enc_elems.simps(2) [simp del]

lemma fld_omit_list_eq_Inr:
  "fld_omit_list k f xs = Inr kvs \<longleftrightarrow> (\<exists>js. enc_elems f xs = Inr js \<and> kvs = list_kvs k js)"
proof (cases xs)
  case (Cons x xs')
  then show ?thesis
    using enc_elems_Nil [of f xs] by (cases "enc_elems f xs") (auto simp: fld_omit_list_def list_kvs_def)
qed (auto simp: fld_omit_list_def list_kvs_def)

lemmas json_lookup = json_field_def raw_field_def map_of_raw_kvs map_of_str_kvs map_of_list_kvs
  map_add_def

end
