(* ===== verification/Mail_Types.thy ===== *)
theory Mail_Types
  imports Json
begin

text \<open>
  The data of the global-mail domain (\<^verbatim>\<open>domain/globalmail/types.go\<close>) and its JSON form.
  A Go struct is a record whose fields carry a prefix; a string enumeration is a string
  with the constants of the source, since a database row or a request may hold any text.
  A pointer to a time is an option.
\<close>

type_synonym MailStatus = string
type_synonym UserMailStatus = string
type_synonym OutboxStatus = string
type_synonym IdempotencyStatus = string

definition MailStatusDraft :: MailStatus where "MailStatusDraft = ''draft''"
definition MailStatusAuditing :: MailStatus where "MailStatusAuditing = ''auditing''"
definition MailStatusPublished :: MailStatus where "MailStatusPublished = ''published''"
definition MailStatusOffline :: MailStatus where "MailStatusOffline = ''offline''"
definition MailStatusDeleted :: MailStatus where "MailStatusDeleted = ''deleted''"

definition UserMailStatusUnread :: UserMailStatus where "UserMailStatusUnread = ''unread''"
definition UserMailStatusRead :: UserMailStatus where "UserMailStatusRead = ''read''"
definition UserMailStatusClaimed :: UserMailStatus where "UserMailStatusClaimed = ''claimed''"
definition UserMailStatusDeleted :: UserMailStatus where "UserMailStatusDeleted = ''deleted''"

definition OutboxStatusPending :: OutboxStatus where "OutboxStatusPending = ''pending''"
definition OutboxStatusProcessing :: OutboxStatus where "OutboxStatusProcessing = ''processing''"
definition OutboxStatusPublished :: OutboxStatus where "OutboxStatusPublished = ''published''"
definition OutboxStatusFailed :: OutboxStatus where "OutboxStatusFailed = ''failed''"

definition IdempotencyStatusSucceeded :: IdempotencyStatus where
  "IdempotencyStatusSucceeded = ''succeeded''"

lemmas status_defs =
  MailStatusDraft_def MailStatusAuditing_def MailStatusPublished_def MailStatusOffline_def
  MailStatusDeleted_def UserMailStatusUnread_def UserMailStatusRead_def
  UserMailStatusClaimed_def UserMailStatusDeleted_def OutboxStatusPending_def
  OutboxStatusProcessing_def OutboxStatusPublished_def OutboxStatusFailed_def
  IdempotencyStatusSucceeded_def

record Condition =
  cond_ID :: int
  cond_MailID :: int
  cond_Type :: string
  cond_Operator :: string
  cond_Value :: raw_message

record GlobalMail =
  mail_ID :: int
  mail_OperatorID :: int
  mail_Title :: string
  mail_Content :: string
  mail_MessageMap :: raw_message
  mail_Loots :: raw_message
  mail_Sender :: string
  mail_Category :: string
  mail_TemplateID :: int
  mail_Params :: raw_message
  mail_ExternalURL :: string
  mail_StartTime :: go_time
  mail_ExpireTime :: go_time
  mail_Status :: MailStatus
  mail_Version :: int
  mail_Conditions :: "Condition list"
  mail_CreateTime :: go_time
  mail_UpdateTime :: go_time

record UserProfile =
  prof_RoleID :: int
  prof_UID :: int
  prof_ServerID :: int
  prof_RegisterTime :: go_time
  prof_VIPLevel :: int
  prof_TotalRecharge :: int
  prof_CorpsLevel :: int
  prof_OpenDays :: int
  prof_PackageType :: string
  prof_Country :: string

record UserGlobalMailState =
  ums_RoleID :: int
  ums_ServerID :: int
  ums_GlobalMailID :: int
  ums_Status :: UserMailStatus
  ums_ClaimedLootIndexes :: "int list"
  ums_ClaimTime :: "go_time option"
  ums_DeleteTime :: "go_time option"
  ums_Version :: int
  ums_CreateTime :: go_time
  ums_UpdateTime :: go_time

record RewardGrant =
  rg_RoleID :: int
  rg_ServerID :: int
  rg_GlobalMailID :: int
  rg_LootIndex :: int
  rg_Loot :: raw_message
  rg_GrantKey :: string
  rg_Status :: string
  rg_ExternalRewardID :: string
  rg_FailureReason :: string
  rg_CreateTime :: go_time
  rg_UpdateTime :: go_time

record BackpackGrant =
  bg_RoleID :: int
  bg_ServerID :: int
  bg_GrantKey :: string
  bg_LootIndex :: int
  bg_Loot :: raw_message
  bg_CreateTime :: go_time

text \<open>A mail to one player; the program has no operation on it yet.\<close>

record PersonalMail =
  pm_ID :: int
  pm_RoleID :: int
  pm_ServerID :: int
  pm_Title :: string
  pm_Content :: string
  pm_TemplateID :: int
  pm_Params :: raw_message
  pm_Loots :: raw_message
  pm_Status :: UserMailStatus
  pm_CreateTime :: go_time
  pm_ExpireTime :: go_time
  pm_UpdateTime :: go_time

record OutboxEvent =
  ev_ID :: int
  ev_Type :: string
  ev_AggregateID :: int
  ev_Version :: int
  ev_Payload :: raw_message
  ev_Status :: OutboxStatus
  ev_RetryCount :: int
  ev_NextRetryTime :: "go_time option"
  ev_LockedBy :: string
  ev_LockedUntil :: "go_time option"
  ev_FailureReason :: string
  ev_PublishedTime :: "go_time option"
  ev_CreateTime :: go_time
  ev_UpdateTime :: go_time

record GlobalMailChangedEvent =
  ch_EventID :: int
  ch_GlobalMailID :: int
  ch_Version :: int
  ch_Action :: string
  ch_Timestamp :: go_time

record PublishIdempotencyRecord =
  idem_Key :: string
  idem_Action :: string
  idem_RequestHash :: string
  idem_GlobalMailID :: int
  idem_TargetVersion :: int
  idem_Status :: IdempotencyStatus
  idem_ResponseSnapshot :: raw_message
  idem_CreateTime :: go_time
  idem_UpdateTime :: go_time

text \<open>The zero value of \<^verbatim>\<open>GlobalMail{}\<close>.\<close>

definition zero_mail :: GlobalMail where
  "zero_mail = \<lparr>mail_ID = 0, mail_OperatorID = 0, mail_Title = [], mail_Content = [],
     mail_MessageMap = RawEmpty, mail_Loots = RawEmpty, mail_Sender = [], mail_Category = [],
     mail_TemplateID = 0, mail_Params = RawEmpty, mail_ExternalURL = [], mail_StartTime = 0,
     mail_ExpireTime = 0, mail_Status = [], mail_Version = 0, mail_Conditions = [],
     mail_CreateTime = 0, mail_UpdateTime = 0\<rparr>"

section \<open>JSON form\<close>

definition marshal_condition :: "Condition \<Rightarrow> error + json" where
  "marshal_condition c = enc_struct
    [fld ''condition_id'' (Inr (JInt (cond_ID c))),
     fld ''global_mail_id'' (Inr (JInt (cond_MailID c))),
     fld ''condition_type'' (Inr (JStr (cond_Type c))),
     fld ''operator'' (Inr (JStr (cond_Operator c))),
     fld ''condition_value'' (enc_raw (cond_Value c))]"

definition marshal_mail :: "GlobalMail \<Rightarrow> error + json" where
  "marshal_mail m = enc_struct
    [fld ''global_mail_id'' (Inr (JInt (mail_ID m))),
     fld ''opr_id'' (Inr (JInt (mail_OperatorID m))),
     fld ''title'' (Inr (JStr (mail_Title m))),
     fld ''content'' (Inr (JStr (mail_Content m))),
     fld_omit_raw ''msg_map'' (mail_MessageMap m),
     fld_omit_raw ''loots'' (mail_Loots m),
     fld ''sender'' (Inr (JStr (mail_Sender m))),
     fld ''mail_category'' (Inr (JStr (mail_Category m))),
     fld ''mail_template_id'' (Inr (JInt (mail_TemplateID m))),
     fld_omit_raw ''param_list'' (mail_Params m),
     fld_omit_str ''external_url'' (mail_ExternalURL m),
     fld ''start_time'' (enc_time (mail_StartTime m)),
     fld ''expire_time'' (enc_time (mail_ExpireTime m)),
     fld ''status'' (Inr (JStr (mail_Status m))),
     fld ''version'' (Inr (JInt (mail_Version m))),
     fld_omit_list ''conditions'' marshal_condition (mail_Conditions m),
     fld ''create_time'' (enc_time (mail_CreateTime m)),
     fld ''update_time'' (enc_time (mail_UpdateTime m))]"

definition marshal_changed :: "GlobalMailChangedEvent \<Rightarrow> error + json" where
  "marshal_changed c = enc_struct
    [fld ''event_id'' (Inr (JInt (ch_EventID c))),
     fld ''global_mail_id'' (Inr (JInt (ch_GlobalMailID c))),
     fld ''version'' (Inr (JInt (ch_Version c))),
     fld ''action'' (Inr (JStr (ch_Action c))),
     fld ''timestamp'' (enc_time (ch_Timestamp c))]"

fun unmarshal_condition :: "json \<Rightarrow> error + Condition" where
  "unmarshal_condition JNull = Inr \<lparr>cond_ID = 0, cond_MailID = 0, cond_Type = [],
     cond_Operator = [], cond_Value = RawEmpty\<rparr>"
| "unmarshal_condition (JObj kvs) =
    res_bind (decode_int (json_field ''condition_id'' kvs)) (\<lambda>i.
    res_bind (decode_int (json_field ''global_mail_id'' kvs)) (\<lambda>mid.
    res_bind (decode_string (json_field ''condition_type'' kvs)) (\<lambda>ty.
    res_bind (decode_string (json_field ''operator'' kvs)) (\<lambda>op.
      Inr \<lparr>cond_ID = i, cond_MailID = mid, cond_Type = ty, cond_Operator = op,
           cond_Value = raw_field ''condition_value'' kvs\<rparr>))))"
| "unmarshal_condition _ = Inl json_type_error"

fun unmarshal_mail :: "json \<Rightarrow> error + GlobalMail" where
  "unmarshal_mail JNull = Inr zero_mail"
| "unmarshal_mail (JObj kvs) =
    res_bind (decode_int (json_field ''global_mail_id'' kvs)) (\<lambda>i.
    res_bind (decode_int (json_field ''opr_id'' kvs)) (\<lambda>opr.
    res_bind (decode_string (json_field ''title'' kvs)) (\<lambda>title.
    res_bind (decode_string (json_field ''content'' kvs)) (\<lambda>content.
    res_bind (decode_string (json_field ''sender'' kvs)) (\<lambda>sender.
    res_bind (decode_string (json_field ''mail_category'' kvs)) (\<lambda>cat.
    res_bind (decode_int (json_field ''mail_template_id'' kvs)) (\<lambda>tid.
    res_bind (decode_string (json_field ''external_url'' kvs)) (\<lambda>url.
    res_bind (decode_time (json_field ''start_time'' kvs)) (\<lambda>st.
    res_bind (decode_time (json_field ''expire_time'' kvs)) (\<lambda>et.
    res_bind (decode_string (json_field ''status'' kvs)) (\<lambda>status.
    res_bind (decode_int (json_field ''version'' kvs)) (\<lambda>ver.
    res_bind (decode_list unmarshal_condition (json_field ''conditions'' kvs)) (\<lambda>conds.
    res_bind (decode_time (json_field ''create_time'' kvs)) (\<lambda>ct.
    res_bind (decode_time (json_field ''update_time'' kvs)) (\<lambda>ut.
      Inr \<lparr>mail_ID = i, mail_OperatorID = opr, mail_Title = title, mail_Content = content,
           mail_MessageMap = raw_field ''msg_map'' kvs, mail_Loots = raw_field ''loots'' kvs,
           mail_Sender = sender, mail_Category = cat, mail_TemplateID = tid,
           mail_Params = raw_field ''param_list'' kvs, mail_ExternalURL = url,
           mail_StartTime = st, mail_ExpireTime = et, mail_Status = status,
           mail_Version = ver, mail_Conditions = conds,
           mail_CreateTime = ct, mail_UpdateTime = ut\<rparr>)))))))))))))))"
| "unmarshal_mail _ = Inl json_type_error"

fun unmarshal_changed :: "json \<Rightarrow> error + GlobalMailChangedEvent" where
  "unmarshal_changed JNull = Inr \<lparr>ch_EventID = 0, ch_GlobalMailID = 0, ch_Version = 0,
     ch_Action = [], ch_Timestamp = 0\<rparr>"
| "unmarshal_changed (JObj kvs) =
    res_bind (decode_int (json_field ''event_id'' kvs)) (\<lambda>i.
    res_bind (decode_int (json_field ''global_mail_id'' kvs)) (\<lambda>mid.
    res_bind (decode_int (json_field ''version'' kvs)) (\<lambda>ver.
    res_bind (decode_string (json_field ''action'' kvs)) (\<lambda>act.
    res_bind (decode_time (json_field ''timestamp'' kvs)) (\<lambda>ts.
      Inr \<lparr>ch_EventID = i, ch_GlobalMailID = mid, ch_Version = ver, ch_Action = act,
           ch_Timestamp = ts\<rparr>)))))"
| "unmarshal_changed _ = Inl json_type_error"

text \<open>The range invariant of the integer fields, which their Go types give.\<close>

definition wf_condition :: "Condition \<Rightarrow> bool" where
  "wf_condition c \<longleftrightarrow> in_int64 (cond_ID c) \<and> in_int64 (cond_MailID c)"

definition wf_mail :: "GlobalMail \<Rightarrow> bool" where
  "wf_mail m \<longleftrightarrow> in_int64 (mail_ID m) \<and> in_int64 (mail_OperatorID m) \<and>
     in_int64 (mail_TemplateID m) \<and> in_int64 (mail_Version m) \<and>
     list_all wf_condition (mail_Conditions m)"

definition wf_changed :: "GlobalMailChangedEvent \<Rightarrow> bool" where
  "wf_changed c \<longleftrightarrow> in_int64 (ch_EventID c) \<and> in_int64 (ch_GlobalMailID c) \<and>
     in_int64 (ch_Version c)"

text \<open>
  What a decoder of an encoded value gives back: a nil condition value is written as
  \<^verbatim>\<open>null\<close> and read as the four bytes \<^verbatim>\<open>null\<close>.
\<close>

definition reread_condition :: "Condition \<Rightarrow> Condition" where
  "reread_condition c =
     c\<lparr>cond_Value := (if cond_Value c = RawEmpty then RawValid JNull else cond_Value c)\<rparr>"

definition reread_mail :: "GlobalMail \<Rightarrow> GlobalMail" where
  "reread_mail m = m\<lparr>mail_Conditions := map reread_condition (mail_Conditions m)\<rparr>"

lemma condition_roundtrip:
  assumes "marshal_condition c = Inr j" "wf_condition c"
  shows "unmarshal_condition j = Inr (reread_condition c)"
  using assms
  by (auto simp: marshal_condition_def enc_struct_def fld_def res_bind_eq_Inr enc_raw_eq_Inr
      json_lookup wf_condition_def reread_condition_def)

lemma changed_roundtrip:
  assumes "marshal_changed c = Inr j" "wf_changed c"
  shows "unmarshal_changed j = Inr c"
  using assms
  by (auto simp: marshal_changed_def enc_struct_def fld_def res_bind_eq_Inr enc_time_def
      json_lookup wf_changed_def split: if_splits)

text \<open>The object that \<^const>\<open>marshal_mail\<close> writes, when it writes one.\<close>

definition mail_kvs :: "GlobalMail \<Rightarrow> json list \<Rightarrow> (string \<times> json) list" where
  "mail_kvs m js =
     [(''global_mail_id'', JInt (mail_ID m)), (''opr_id'', JInt (mail_OperatorID m)),
      (''title'', JStr (mail_Title m)), (''content'', JStr (mail_Content m))] @
     raw_kvs ''msg_map'' (mail_MessageMap m) @ raw_kvs ''loots'' (mail_Loots m) @
     [(''sender'', JStr (mail_Sender m)), (''mail_category'', JStr (mail_Category m)),
      (''mail_template_id'', JInt (mail_TemplateID m))] @
     raw_kvs ''param_list'' (mail_Params m) @ str_kvs ''external_url'' (mail_ExternalURL m) @
     [(''start_time'', JTime (mail_StartTime m)), (''expire_time'', JTime (mail_ExpireTime m)),
      (''status'', JStr (mail_Status m)), (''version'', JInt (mail_Version m))] @
     list_kvs ''conditions'' js @
     [(''create_time'', JTime (mail_CreateTime m)), (''update_time'', JTime (mail_UpdateTime m))]"

lemma marshal_mail_object:
  assumes "marshal_mail m = Inr j"
  obtains js where "j = JObj (mail_kvs m js)"
    and "enc_elems marshal_condition (mail_Conditions m) = Inr js"
    and "raw_valid (mail_MessageMap m)" "raw_valid (mail_Loots m)" "raw_valid (mail_Params m)"
  using assms
  by (auto simp: marshal_mail_def enc_struct_def fld_def res_bind_eq_Inr enc_time_def
      fld_omit_raw_eq fld_omit_str_eq fld_omit_list_eq_Inr mail_kvs_def split: if_splits)

lemma mail_kvs_lookup:
  "json_field ''global_mail_id'' (mail_kvs m js) = JInt (mail_ID m)"
  "json_field ''opr_id'' (mail_kvs m js) = JInt (mail_OperatorID m)"
  "json_field ''title'' (mail_kvs m js) = JStr (mail_Title m)"
  "json_field ''content'' (mail_kvs m js) = JStr (mail_Content m)"
  "json_field ''sender'' (mail_kvs m js) = JStr (mail_Sender m)"
  "json_field ''mail_category'' (mail_kvs m js) = JStr (mail_Category m)"
  "json_field ''mail_template_id'' (mail_kvs m js) = JInt (mail_TemplateID m)"
  "decode_string (json_field ''external_url'' (mail_kvs m js)) = Inr (mail_ExternalURL m)"
  "json_field ''start_time'' (mail_kvs m js) = JTime (mail_StartTime m)"
  "json_field ''expire_time'' (mail_kvs m js) = JTime (mail_ExpireTime m)"
  "json_field ''status'' (mail_kvs m js) = JStr (mail_Status m)"
  "json_field ''version'' (mail_kvs m js) = JInt (mail_Version m)"
  "decode_list d (json_field ''conditions'' (mail_kvs m js)) = decode_elems d js"
  "json_field ''create_time'' (mail_kvs m js) = JTime (mail_CreateTime m)"
  "json_field ''update_time'' (mail_kvs m js) = JTime (mail_UpdateTime m)"
  by (simp_all add: mail_kvs_def json_lookup)

lemma mail_kvs_raw:
  "raw_valid (mail_MessageMap m) \<Longrightarrow> raw_field ''msg_map'' (mail_kvs m js) = mail_MessageMap m"
  "raw_valid (mail_Loots m) \<Longrightarrow> raw_field ''loots'' (mail_kvs m js) = mail_Loots m"
  "raw_valid (mail_Params m) \<Longrightarrow> raw_field ''param_list'' (mail_kvs m js) = mail_Params m"
  subgoal by (cases "mail_MessageMap m") (simp_all add: mail_kvs_def json_lookup)
  subgoal by (cases "mail_Loots m") (simp_all add: mail_kvs_def json_lookup)
  subgoal by (cases "mail_Params m") (simp_all add: mail_kvs_def json_lookup)
  done

lemma decode_marshalled_conditions:
  assumes "enc_elems marshal_condition cs = Inr js" "list_all wf_condition cs"
  shows "decode_elems unmarshal_condition js = Inr (map reread_condition cs)"
  using assms(1)
proof (rule decode_elems_enc_elems)
  fix x j
  assume "x \<in> set cs" "marshal_condition x = Inr j"
  then show "unmarshal_condition j = Inr (reread_condition x)"
    using assms(2) by (intro condition_roundtrip) (auto simp: list_all_iff)
qed

text \<open>
  The projection that the relay writes to Redis and the publisher keeps in the idempotency
  record decodes to the mail that was encoded.
\<close>

lemma mail_roundtrip:
  assumes "marshal_mail m = Inr j" "wf_mail m"
  shows "unmarshal_mail j = Inr (reread_mail m)"
proof -
  obtain js where j: "j = JObj (mail_kvs m js)"
    and js: "enc_elems marshal_condition (mail_Conditions m) = Inr js"
    and raws: "raw_valid (mail_MessageMap m)" "raw_valid (mail_Loots m)" "raw_valid (mail_Params m)"
    using assms(1) by (rule marshal_mail_object)
  have conds: "decode_elems unmarshal_condition js = Inr (map reread_condition (mail_Conditions m))"
    using js assms(2) by (intro decode_marshalled_conditions) (auto simp: wf_mail_def)
  have nil: "js = [] \<Longrightarrow> mail_Conditions m = []" using js by auto
  show ?thesis
    using assms(2) conds nil unfolding j
    by (cases "js = []") (simp_all add: mail_kvs_lookup mail_kvs_raw raws wf_mail_def reread_mail_def)
qed

end
