(* ===== verification/Mysql_Models.thy ===== *)
theory Mysql_Models
  imports Mail_Types
begin

text \<open>
  The rows of the MySQL tables (\<^verbatim>\<open>data/mysql/models.go\<close>, \<^verbatim>\<open>data/sqlschema/globalmail.go\<close>) and
  the mapping between rows and domain values (\<^verbatim>\<open>data/mysql/mapper.go\<close>).
\<close>

record GlobalMailModel =
  gmm_GlobalMailID :: int
  gmm_OperatorID :: int
  gmm_Title :: string
  gmm_Content :: string
  gmm_MessageMap :: raw_message
  gmm_Loots :: raw_message
  gmm_Sender :: string
  gmm_Category :: string
  gmm_TemplateID :: int
  gmm_Params :: raw_message
  gmm_ExternalURL :: string
  gmm_StartTime :: go_time
  gmm_ExpireTime :: go_time
  gmm_Status :: string
  gmm_Version :: int
  gmm_CreateTime :: go_time
  gmm_UpdateTime :: go_time

record GlobalMailConditionModel =
  gcm_ConditionID :: int
  gcm_GlobalMailID :: int
  gcm_ConditionType :: string
  gcm_Operator :: string
  gcm_ConditionValue :: raw_message
  gcm_CreateTime :: go_time
  gcm_UpdateTime :: go_time

record UserGlobalMailStateModel =
  usm_RoleID :: int
  usm_ServerID :: int
  usm_GlobalMailID :: int
  usm_Status :: string
  usm_ClaimedLootIndexes :: raw_message
  usm_ClaimTime :: "go_time option"
  usm_DeleteTime :: "go_time option"
  usm_Version :: int
  usm_CreateTime :: go_time
  usm_UpdateTime :: go_time

record UserGlobalMailRewardLedgerModel =
  rlm_GrantKey :: string
  rlm_RoleID :: int
  rlm_ServerID :: int
  rlm_GlobalMailID :: int
  rlm_LootIndex :: int
  rlm_Status :: string
  rlm_ExternalRewardID :: string
  rlm_FailureReason :: string
  rlm_CreateTime :: go_time
  rlm_UpdateTime :: go_time

record UserBackpackRewardModel =
  bpm_GrantKey :: string
  bpm_RoleID :: int
  bpm_ServerID :: int
  bpm_LootIndex :: int
  bpm_Loot :: raw_message
  bpm_CreateTime :: go_time

record GlobalMailOutboxEventModel =
  obm_EventID :: int
  obm_EventType :: string
  obm_AggregateID :: int
  obm_Version :: int
  obm_Payload :: raw_message
  obm_Status :: string
  obm_RetryCount :: int
  obm_NextRetryTime :: "go_time option"
  obm_LockedBy :: string
  obm_LockedUntil :: "go_time option"
  obm_FailureReason :: string
  obm_PublishedTime :: "go_time option"
  obm_CreateTime :: go_time
  obm_UpdateTime :: go_time

record GlobalMailIdempotencyModel =
  idm_IdempotencyKey :: string
  idm_Action :: string
  idm_RequestHash :: string
  idm_GlobalMailID :: int
  idm_TargetVersion :: int
  idm_Status :: string
  idm_ResponseSnapshot :: raw_message
  idm_CreateTime :: go_time
  idm_UpdateTime :: go_time

section \<open>Mapping\<close>

definition toGlobalMailModel :: "GlobalMail \<Rightarrow> GlobalMailModel" where
  "toGlobalMailModel mail = \<lparr>
     gmm_GlobalMailID = mail_ID mail, gmm_OperatorID = mail_OperatorID mail,
     gmm_Title = mail_Title mail, gmm_Content = mail_Content mail,
     gmm_MessageMap = mail_MessageMap mail, gmm_Loots = mail_Loots mail,
     gmm_Sender = mail_Sender mail, gmm_Category = mail_Category mail,
     gmm_TemplateID = mail_TemplateID mail, gmm_Params = mail_Params mail,
     gmm_ExternalURL = mail_ExternalURL mail, gmm_StartTime = mail_StartTime mail,
     gmm_ExpireTime = mail_ExpireTime mail, gmm_Status = mail_Status mail,
     gmm_Version = mail_Version mail, gmm_CreateTime = mail_CreateTime mail,
     gmm_UpdateTime = mail_UpdateTime mail\<rparr>"

definition toCondition :: "GlobalMailConditionModel \<Rightarrow> Condition" where
  "toCondition c = \<lparr>cond_ID = gcm_ConditionID c, cond_MailID = gcm_GlobalMailID c,
     cond_Type = gcm_ConditionType c, cond_Operator = gcm_Operator c,
     cond_Value = gcm_ConditionValue c\<rparr>"

definition toGlobalMail :: "GlobalMailModel \<Rightarrow> GlobalMailConditionModel list \<Rightarrow> GlobalMail" where
  "toGlobalMail model conditions = \<lparr>
     mail_ID = gmm_GlobalMailID model, mail_OperatorID = gmm_OperatorID model,
     mail_Title = gmm_Title model, mail_Content = gmm_Content model,
     mail_MessageMap = gmm_MessageMap model, mail_Loots = gmm_Loots model,
     mail_Sender = gmm_Sender model, mail_Category = gmm_Category model,
     mail_TemplateID = gmm_TemplateID model, mail_Params = gmm_Params model,
     mail_ExternalURL = gmm_ExternalURL model, mail_StartTime = gmm_StartTime model,
     mail_ExpireTime = gmm_ExpireTime model, mail_Status = gmm_Status model,
     mail_Version = gmm_Version model, mail_Conditions = map toCondition conditions,
     mail_CreateTime = gmm_CreateTime model, mail_UpdateTime = gmm_UpdateTime model\<rparr>"

definition toConditionModel :: "Condition \<Rightarrow> GlobalMailConditionModel" where
  "toConditionModel c = \<lparr>gcm_ConditionID = cond_ID c, gcm_GlobalMailID = cond_MailID c,
     gcm_ConditionType = cond_Type c, gcm_Operator = cond_Operator c,
     gcm_ConditionValue = cond_Value c, gcm_CreateTime = 0, gcm_UpdateTime = 0\<rparr>"

definition toOutboxModel :: "OutboxEvent \<Rightarrow> GlobalMailOutboxEventModel" where
  "toOutboxModel e = \<lparr>obm_EventID = ev_ID e, obm_EventType = ev_Type e,
     obm_AggregateID = ev_AggregateID e, obm_Version = ev_Version e, obm_Payload = ev_Payload e,
     obm_Status = ev_Status e, obm_RetryCount = ev_RetryCount e,
     obm_NextRetryTime = ev_NextRetryTime e, obm_LockedBy = ev_LockedBy e,
     obm_LockedUntil = ev_LockedUntil e, obm_FailureReason = ev_FailureReason e,
     obm_PublishedTime = ev_PublishedTime e, obm_CreateTime = ev_CreateTime e,
     obm_UpdateTime = ev_UpdateTime e\<rparr>"

definition toOutboxEvent :: "GlobalMailOutboxEventModel \<Rightarrow> OutboxEvent" where
  "toOutboxEvent m = \<lparr>ev_ID = obm_EventID m, ev_Type = obm_EventType m,
     ev_AggregateID = obm_AggregateID m, ev_Version = obm_Version m, ev_Payload = obm_Payload m,
     ev_Status = obm_Status m, ev_RetryCount = obm_RetryCount m,
     ev_NextRetryTime = obm_NextRetryTime m, ev_LockedBy = obm_LockedBy m,
     ev_LockedUntil = obm_LockedUntil m, ev_FailureReason = obm_FailureReason m,
     ev_PublishedTime = obm_PublishedTime m, ev_CreateTime = obm_CreateTime m,
     ev_UpdateTime = obm_UpdateTime m\<rparr>"

definition toIdempotencyModel :: "PublishIdempotencyRecord \<Rightarrow> GlobalMailIdempotencyModel" where
  "toIdempotencyModel r = \<lparr>idm_IdempotencyKey = idem_Key r, idm_Action = idem_Action r,
     idm_RequestHash = idem_RequestHash r, idm_GlobalMailID = idem_GlobalMailID r,
     idm_TargetVersion = idem_TargetVersion r, idm_Status = idem_Status r,
     idm_ResponseSnapshot = idem_ResponseSnapshot r, idm_CreateTime = idem_CreateTime r,
     idm_UpdateTime = idem_UpdateTime r\<rparr>"

definition toIdempotencyRecord :: "GlobalMailIdempotencyModel \<Rightarrow> PublishIdempotencyRecord" where
  "toIdempotencyRecord m = \<lparr>idem_Key = idm_IdempotencyKey m, idem_Action = idm_Action m,
     idem_RequestHash = idm_RequestHash m, idem_GlobalMailID = idm_GlobalMailID m,
     idem_TargetVersion = idm_TargetVersion m, idem_Status = idm_Status m,
     idem_ResponseSnapshot = idm_ResponseSnapshot m, idem_CreateTime = idm_CreateTime m,
     idem_UpdateTime = idm_UpdateTime m\<rparr>"

text \<open>
  \<^verbatim>\<open>json.Marshal\<close> of the claimed indexes; a nil and an empty slice are the same list here, and
  their encodings \<^verbatim>\<open>null\<close> and \<^verbatim>\<open>[]\<close> decode alike.
\<close>

definition marshal_indexes :: "int list \<Rightarrow> raw_message" where
  "marshal_indexes xs = RawValid (if xs = [] then JNull else JArr (map JInt xs))"

text \<open>
  \<^verbatim>\<open>_ = json.Unmarshal(model.ClaimedLootIndexes, &claimed)\<close> with the error dropped: an element
  of a wrong type leaves a zero in its place, any other error leaves the slice nil.
\<close>

fun unmarshal_indexes_ignoring_error :: "raw_message \<Rightarrow> int list" where
  "unmarshal_indexes_ignoring_error (RawValid (JArr js)) =
     map (\<lambda>j. case decode_int j of Inr n \<Rightarrow> n | Inl _ \<Rightarrow> 0) js"
| "unmarshal_indexes_ignoring_error _ = []"

definition toStateModel :: "UserGlobalMailState \<Rightarrow> UserGlobalMailStateModel" where
  "toStateModel s = \<lparr>usm_RoleID = ums_RoleID s, usm_ServerID = ums_ServerID s,
     usm_GlobalMailID = ums_GlobalMailID s, usm_Status = ums_Status s,
     usm_ClaimedLootIndexes = marshal_indexes (ums_ClaimedLootIndexes s),
     usm_ClaimTime = ums_ClaimTime s, usm_DeleteTime = ums_DeleteTime s,
     usm_Version = ums_Version s, usm_CreateTime = ums_CreateTime s,
     usm_UpdateTime = ums_UpdateTime s\<rparr>"

definition toState :: "UserGlobalMailStateModel \<Rightarrow> UserGlobalMailState" where
  "toState m = \<lparr>ums_RoleID = usm_RoleID m, ums_ServerID = usm_ServerID m,
     ums_GlobalMailID = usm_GlobalMailID m, ums_Status = usm_Status m,
     ums_ClaimedLootIndexes = unmarshal_indexes_ignoring_error (usm_ClaimedLootIndexes m),
     ums_ClaimTime = usm_ClaimTime m, ums_DeleteTime = usm_DeleteTime m,
     ums_Version = usm_Version m, ums_CreateTime = usm_CreateTime m,
     ums_UpdateTime = usm_UpdateTime m\<rparr>"

section \<open>Round trips\<close>

lemma toOutboxEvent_toOutboxModel [simp]: "toOutboxEvent (toOutboxModel e) = e"
  by (simp add: toOutboxEvent_def toOutboxModel_def)

lemma toOutboxModel_toOutboxEvent [simp]: "toOutboxModel (toOutboxEvent m) = m"
  by (simp add: toOutboxEvent_def toOutboxModel_def)

lemma toIdempotencyRecord_roundtrip [simp]: "toIdempotencyRecord (toIdempotencyModel r) = r"
  by (simp add: toIdempotencyRecord_def toIdempotencyModel_def)

lemma toCondition_toConditionModel [simp]: "toCondition (toConditionModel c) = c"
  by (simp add: toCondition_def toConditionModel_def)

lemma unmarshal_marshal_indexes:
  "list_all in_int64 xs \<Longrightarrow> unmarshal_indexes_ignoring_error (marshal_indexes xs) = xs"
proof (cases "xs = []")
  case False
  assume "list_all in_int64 xs"
  then have "map (\<lambda>n. case decode_int (JInt n) of Inr n \<Rightarrow> n | Inl _ \<Rightarrow> 0) xs = xs"
    by (induction xs) auto
  with False show ?thesis by (simp add: marshal_indexes_def comp_def)
qed (simp add: marshal_indexes_def)

lemma toState_toStateModel:
  "list_all in_int64 (ums_ClaimedLootIndexes s) \<Longrightarrow> toState (toStateModel s) = s"
  by (simp add: toState_def toStateModel_def unmarshal_marshal_indexes)

lemma toGlobalMail_toGlobalMailModel:
  "toGlobalMail (toGlobalMailModel m) (map toConditionModel (mail_Conditions m)) = m"
  by (simp add: toGlobalMail_def toGlobalMailModel_def comp_def)

lemma model_keys [simp]:
  "gmm_GlobalMailID (toGlobalMailModel m) = mail_ID m"
  "gcm_ConditionID (toConditionModel c) = cond_ID c"
  "gcm_GlobalMailID (toConditionModel c) = cond_MailID c"
  "obm_EventID (toOutboxModel e) = ev_ID e"
  "idm_IdempotencyKey (toIdempotencyModel r) = idem_Key r"
  "usm_RoleID (toStateModel s) = ums_RoleID s"
  "usm_GlobalMailID (toStateModel s) = ums_GlobalMailID s"
  "usm_Status (toStateModel s) = ums_Status s"
  "ums_Status (toState u) = usm_Status u"
  "ums_GlobalMailID (toState u) = usm_GlobalMailID u"
  "mail_ID (toGlobalMail g cs) = gmm_GlobalMailID g"
  by (simp_all add: toGlobalMailModel_def toConditionModel_def toOutboxModel_def
      toIdempotencyModel_def toStateModel_def toState_def toGlobalMail_def)

end
