(* ===== verification/Ports.thy ===== *)
theory Ports
  imports Mysql_Models
begin

text \<open>
  The interfaces of the domain (\<^verbatim>\<open>domain/globalmail/ports.go\<close>): a Go interface is a record of
  functions over the world. A Go result \<^verbatim>\<open>(value, bool, error)\<close> is an optional value of a
  fallible call. Also the abstract content of the database, on which the contracts of the
  interfaces are stated, and what a call promises about it.
\<close>

section \<open>Interfaces\<close>

record 'w MailRepository =
  CreateGlobalMailWithOutbox :: "GlobalMail \<Rightarrow> OutboxEvent \<Rightarrow> ('w, unit) io"
  CreateGlobalMailWithOutboxAndIdempotency ::
    "GlobalMail \<Rightarrow> OutboxEvent \<Rightarrow> PublishIdempotencyRecord \<Rightarrow> ('w, unit) io"
  GetPublishIdempotency :: "string \<Rightarrow> ('w, PublishIdempotencyRecord option) io"
  GetGlobalMailByID :: "int \<Rightarrow> ('w, GlobalMail option) io"
  GetPublishedGlobalMails :: "go_time \<Rightarrow> ('w, GlobalMail list) io"
  GetUserStates :: "int \<Rightarrow> int list \<Rightarrow> ('w, int \<rightharpoonup> UserGlobalMailState) io"
  SaveUserState :: "UserGlobalMailState \<Rightarrow> ('w, unit) io"

record 'w RewardRepository =
  GrantGlobalMailReward :: "RewardGrant \<Rightarrow> ('w, bool) io"

record 'w RewardLedgerRepository =
  ReserveGlobalMailReward :: "RewardGrant \<Rightarrow> ('w, bool) io"
  MarkGlobalMailRewardSucceeded :: "string \<Rightarrow> string \<Rightarrow> go_time \<Rightarrow> ('w, unit) io"
  MarkGlobalMailRewardFailed :: "string \<Rightarrow> error option \<Rightarrow> go_time \<Rightarrow> ('w, unit) io"

record 'w BackpackRepository =
  GrantBackpackReward :: "BackpackGrant \<Rightarrow> ('w, string \<times> bool) io"

record 'w CacheRepository =
  GetGlobalMailVersion :: "('w, int) io"
  IncrementGlobalMailVersion :: "('w, int) io"
  AdvanceGlobalMailVersion :: "int \<Rightarrow> ('w, int) io"
  GetGlobalMail :: "int \<Rightarrow> ('w, GlobalMail option) io"
  SetGlobalMail :: "GlobalMail \<Rightarrow> ('w, unit) io"
  GetActiveGlobalMailIDs :: "go_time \<Rightarrow> ('w, int list) io"
  AddGlobalMailToIndexes :: "GlobalMail \<Rightarrow> ('w, unit) io"
  GetGlobalMailsByServer :: "int \<Rightarrow> ('w, int list) io"
  SetGlobalMailsByServer :: "int \<Rightarrow> int list \<Rightarrow> ('w, unit) io"
  GetUserProfile :: "int \<Rightarrow> ('w, UserProfile option) io"

text \<open>The release function that the lock hands out is the first component, when it is acquired.\<close>

record 'w CacheRebuildLocker =
  TryAcquireGlobalMailRebuildLock :: "int \<Rightarrow> duration \<Rightarrow> ('w, ('w, unit) io \<times> bool) io"

record 'w EventPublisher =
  PublishGlobalMailChanged :: "GlobalMailChangedEvent \<Rightarrow> ('w, unit) io"

record 'w OutboxRepository =
  FetchPending :: "int \<Rightarrow> string \<Rightarrow> go_time \<Rightarrow> ('w, OutboxEvent list) io"
  MarkPublished :: "int \<Rightarrow> go_time \<Rightarrow> ('w, unit) io"
  MarkFailed :: "int \<Rightarrow> go_time \<Rightarrow> error option \<Rightarrow> int \<Rightarrow> ('w, unit) io"

record 'w IDGenerator =
  NextID :: "'w \<Rightarrow> int \<times> 'w"

text \<open>A message of Kafka, as the producer builds it and the consumer reads it.\<close>

record kafka_message =
  km_Key :: string
  km_Value :: raw_message
  km_Time :: go_time
  km_Headers :: "(string \<times> string) list"

section \<open>The content of the database\<close>

record tables =
  tb_global_mail :: "GlobalMailModel list"
  tb_condition :: "GlobalMailConditionModel list"
  tb_state :: "UserGlobalMailStateModel list"
  tb_ledger :: "UserGlobalMailRewardLedgerModel list"
  tb_backpack :: "UserBackpackRewardModel list"
  tb_outbox :: "GlobalMailOutboxEventModel list"
  tb_idempotency :: "GlobalMailIdempotencyModel list"

text \<open>
  What a statement does to the rows of a table whose primary key is \<open>key\<close>: an insert is
  refused when the key exists, \<^verbatim>\<open>ON CONFLICT DO NOTHING\<close> ignores it, an upsert applies its
  assignments from left to right to the row that is there, an update rewrites the rows that
  match.
\<close>

definition rows_insert :: "('r \<Rightarrow> 'k) \<Rightarrow> 'r \<Rightarrow> 'r list \<Rightarrow> 'r list option" where
  "rows_insert key r rs = (if key r \<in> key ` set rs then None else Some (rs @ [r]))"

definition rows_insert_ignore :: "('r \<Rightarrow> 'k) \<Rightarrow> 'r \<Rightarrow> 'r list \<Rightarrow> 'r list" where
  "rows_insert_ignore key r rs = (if key r \<in> key ` set rs then rs else rs @ [r])"

definition rows_update :: "('r \<Rightarrow> bool) \<Rightarrow> ('r \<Rightarrow> 'r) \<Rightarrow> 'r list \<Rightarrow> 'r list" where
  "rows_update P f rs = map (\<lambda>r. if P r then f r else r) rs"

definition rows_upsert :: "('r \<Rightarrow> 'k) \<Rightarrow> 'r \<Rightarrow> ('r \<Rightarrow> 'r) list \<Rightarrow> 'r list \<Rightarrow> 'r list" where
  "rows_upsert key r assigns rs =
     (if key r \<in> key ` set rs
      then rows_update (\<lambda>x. key x = key r) (fold (\<lambda>f. f) assigns) rs
      else rs @ [r])"

text \<open>
  What a call that runs the change \<open>f\<close> promises: success means that the change was
  applied; a reported failure means that it was applied as a whole or not at all, since the
  connection may break after the server has committed.
\<close>

definition commits :: "('d \<Rightarrow> 'd option) \<Rightarrow> 'd \<Rightarrow> error + 'a \<Rightarrow> 'd \<Rightarrow> bool" where
  "commits f d r d' \<longleftrightarrow>
     (case r of Inr _ \<Rightarrow> f d = Some d' | Inl _ \<Rightarrow> d' = d \<or> f d = Some d')"

lemma commits_Inr [simp]: "commits f d (Inr x) d' \<longleftrightarrow> f d = Some d'"
  by (simp add: commits_def)

lemma commits_Inl [simp]: "commits f d (Inl e) d' \<longleftrightarrow> d' = d \<or> f d = Some d'"
  by (simp add: commits_def)

lemma commits_total:
  "commits (\<lambda>d. Some (g d)) d r d' \<longleftrightarrow> (case r of Inr _ \<Rightarrow> d' = g d | Inl _ \<Rightarrow> d' = d \<or> d' = g d)"
  by (auto simp: commits_def split: sum.splits)

lemma commits_Some: "commits (\<lambda>d. Some (g d)) d r d' \<Longrightarrow> d' = d \<or> d' = g d"
  by (auto simp: commits_def split: sum.splits)

text \<open>Primary keys stay unique.\<close>

definition keys_unique :: "('r \<Rightarrow> 'k) \<Rightarrow> 'r list \<Rightarrow> bool" where
  "keys_unique key rs \<longleftrightarrow> distinct (map key rs)"

lemma keys_unique_insert:
  "rows_insert key r rs = Some rs' \<Longrightarrow> keys_unique key rs \<Longrightarrow> keys_unique key rs'"
  by (auto simp: rows_insert_def keys_unique_def split: if_splits)

lemma keys_unique_insert_ignore:
  "keys_unique key rs \<Longrightarrow> keys_unique key (rows_insert_ignore key r rs)"
  by (auto simp: rows_insert_ignore_def keys_unique_def)

lemma map_rows_update:
  "(\<And>r. P r \<Longrightarrow> key (f r) = key r) \<Longrightarrow> map key (rows_update P f rs) = map key rs"
  by (simp add: rows_update_def)

lemma keys_unique_update:
  "(\<And>r. P r \<Longrightarrow> key (f r) = key r) \<Longrightarrow> keys_unique key rs \<Longrightarrow> keys_unique key (rows_update P f rs)"
  by (simp add: keys_unique_def map_rows_update)

lemma keys_uniqueD:
  "keys_unique key rs \<Longrightarrow> r \<in> set rs \<Longrightarrow> r' \<in> set rs \<Longrightarrow> key r = key r' \<Longrightarrow> r = r'"
  unfolding keys_unique_def by (metis distinct_map inj_onD)

lemma in_rows_update:
  "r \<in> set (rows_update P f rs) \<longleftrightarrow> (\<exists>x\<in>set rs. r = (if P x then f x else x))"
  by (auto simp: rows_update_def)

lemma rows_insert_Some:
  "rows_insert key r rs = Some rs' \<longleftrightarrow> key r \<notin> key ` set rs \<and> rs' = rs @ [r]"
  by (auto simp: rows_insert_def)

end
