(* ===== verification/Mysql_Repository.thy ===== *)
theory Mysql_Repository
  imports Ports
begin

text \<open>
  The MySQL repository (\<^verbatim>\<open>data/mysql/repository.go\<close>). The object-relational mapper gorm and
  the MySQL server are not part of the repository: they are the parameter \<open>D\<close> of every
  operation, a record with one group of statements per table. The locale \<open>gorm\<close> names what
  the code relies on: primary keys, the effect of each statement, all-or-nothing
  transactions. The operations below issue the statements of the source, in its order; a
  \<^verbatim>\<open>WHERE\<close> clause is a predicate on rows in which a comparison with \<^verbatim>\<open>NULL\<close> does not hold.
\<close>

section \<open>The statements of gorm\<close>

record ('r, 'w) table =
  tbl_create :: "'r \<Rightarrow> ('w, unit) io"                      \<comment> \<open>\<^verbatim>\<open>Create(&r)\<close>\<close>
  tbl_create_ignore :: "'r \<Rightarrow> ('w, int) io"                \<comment> \<open>\<^verbatim>\<open>OnConflict{DoNothing}.Create(&r)\<close>, rows affected\<close>
  tbl_upsert :: "'r \<Rightarrow> ('r \<Rightarrow> 'r) list \<Rightarrow> ('w, unit) io"   \<comment> \<open>\<^verbatim>\<open>OnConflict{DoUpdates}.Create(&r)\<close>\<close>
  tbl_first :: "('r \<Rightarrow> bool) \<Rightarrow> ('w, 'r) io"               \<comment> \<open>\<^verbatim>\<open>Where(p).First(&r)\<close>\<close>
  tbl_find :: "('r \<Rightarrow> bool) \<Rightarrow> ('w, 'r list) io"           \<comment> \<open>\<^verbatim>\<open>Where(p).Find(&rs)\<close>\<close>
  tbl_find_for_update :: "('r \<Rightarrow> bool) \<Rightarrow> ('r \<Rightarrow> int) \<Rightarrow> int \<Rightarrow> ('w, 'r list) io"
     \<comment> \<open>\<^verbatim>\<open>FOR UPDATE SKIP LOCKED\<close>, ordered, limited\<close>
  tbl_updates :: "('r \<Rightarrow> bool) \<Rightarrow> ('r \<Rightarrow> 'r) \<Rightarrow> ('w, unit) io"  \<comment> \<open>\<^verbatim>\<open>Where(p).Updates(...)\<close>\<close>

record 'w gorm_db =
  T_global_mail :: "(GlobalMailModel, 'w) table"
  T_condition :: "(GlobalMailConditionModel, 'w) table"
  T_state :: "(UserGlobalMailStateModel, 'w) table"
  T_ledger :: "(UserGlobalMailRewardLedgerModel, 'w) table"
  T_backpack :: "(UserBackpackRewardModel, 'w) table"
  T_outbox :: "(GlobalMailOutboxEventModel, 'w) table"
  T_idempotency :: "(GlobalMailIdempotencyModel, 'w) table"
  tx_commit :: "'w \<Rightarrow> ('w, unit) io"        \<comment> \<open>given the world at the start of the transaction\<close>
  tx_rollback :: "'w \<Rightarrow> 'w \<Rightarrow> 'w"
  db_now :: "'w clock"                      \<comment> \<open>\<^verbatim>\<open>time.Now().UTC()\<close>\<close>

text \<open>\<^verbatim>\<open>(*gorm.DB).Transaction\<close>: an error of the body rolls back, otherwise commit.\<close>

definition Transaction :: "'w gorm_db \<Rightarrow> ('w, 'a) io \<Rightarrow> ('w, 'a) io" where
  "Transaction D body = (\<lambda>w. case body w of
       (Inl e, w1) \<Rightarrow> (Inl e, tx_rollback D w w1)
     | (Inr x, w1) \<Rightarrow> (case tx_commit D w w1 of
           (Inl e, w2) \<Rightarrow> (Inl e, w2)
         | (Inr _, w2) \<Rightarrow> (Inr x, w2)))"

section \<open>Publishing\<close>

definition condition_model :: "GlobalMail \<Rightarrow> Condition \<Rightarrow> GlobalMailConditionModel" where
  "condition_model mail condition =
     (toConditionModel (condition\<lparr>cond_MailID := mail_ID mail\<rparr>))
       \<lparr>gcm_CreateTime := mail_CreateTime mail, gcm_UpdateTime := mail_UpdateTime mail\<rparr>"

definition createGlobalMailWithOutbox ::
  "'w gorm_db \<Rightarrow> GlobalMail \<Rightarrow> OutboxEvent \<Rightarrow> GlobalMailIdempotencyModel option \<Rightarrow> ('w, unit) io" where
  "createGlobalMailWithOutbox D mail event record = Transaction D (
     io_bind (tbl_create (T_global_mail D) (toGlobalMailModel mail)) (\<lambda>_.
     io_bind (io_each (\<lambda>condition. tbl_create (T_condition D) (condition_model mail condition))
               (mail_Conditions mail)) (\<lambda>_.
     io_bind (tbl_create (T_outbox D) (toOutboxModel event)) (\<lambda>_.
     case record of
       None \<Rightarrow> io_return ()
     | Some r \<Rightarrow> tbl_create (T_idempotency D) r))))"

definition mysql_CreateGlobalMailWithOutbox ::
  "'w gorm_db \<Rightarrow> GlobalMail \<Rightarrow> OutboxEvent \<Rightarrow> ('w, unit) io" where
  "mysql_CreateGlobalMailWithOutbox D mail event = createGlobalMailWithOutbox D mail event None"

definition mysql_CreateGlobalMailWithOutboxAndIdempotency ::
  "'w gorm_db \<Rightarrow> GlobalMail \<Rightarrow> OutboxEvent \<Rightarrow> PublishIdempotencyRecord \<Rightarrow> ('w, unit) io" where
  "mysql_CreateGlobalMailWithOutboxAndIdempotency D mail event record =
     createGlobalMailWithOutbox D mail event (Some (toIdempotencyModel record))"

definition mysql_GetPublishIdempotency ::
  "'w gorm_db \<Rightarrow> string \<Rightarrow> ('w, PublishIdempotencyRecord option) io" where
  "mysql_GetPublishIdempotency D key = (\<lambda>w.
     case tbl_first (T_idempotency D) (\<lambda>r. idm_IdempotencyKey r = key) w of
       (Inl e, w1) \<Rightarrow> if e = ErrRecordNotFound then (Inr None, w1) else (Inl e, w1)
     | (Inr model, w1) \<Rightarrow> (Inr (Some (toIdempotencyRecord model)), w1))"

section \<open>Reading mails\<close>

definition mysql_GetGlobalMailByID :: "'w gorm_db \<Rightarrow> int \<Rightarrow> ('w, GlobalMail option) io" where
  "mysql_GetGlobalMailByID D mailID = (\<lambda>w.
     case tbl_first (T_global_mail D) (\<lambda>r. gmm_GlobalMailID r = mailID) w of
       (Inl e, w1) \<Rightarrow> if e = ErrRecordNotFound then (Inr None, w1) else (Inl e, w1)
     | (Inr model, w1) \<Rightarrow>
         io_bind (tbl_find (T_condition D) (\<lambda>r. gcm_GlobalMailID r = gmm_GlobalMailID model))
           (\<lambda>conditions. io_return (Some (toGlobalMail model conditions))) w1)"

text \<open>\<^verbatim>\<open>status = ? AND start_time <= ? AND expire_time > ?\<close>\<close>

definition published_at :: "go_time \<Rightarrow> GlobalMailModel \<Rightarrow> bool" where
  "published_at now r \<longleftrightarrow> gmm_Status r = MailStatusPublished \<and> gmm_StartTime r \<le> now \<and>
     gmm_ExpireTime r > now"

fun load_conditions :: "'w gorm_db \<Rightarrow> GlobalMailModel list \<Rightarrow> ('w, GlobalMail list) io" where
  "load_conditions D [] = io_return []"
| "load_conditions D (model # models) =
     io_bind (tbl_find (T_condition D) (\<lambda>r. gcm_GlobalMailID r = gmm_GlobalMailID model)) (\<lambda>conditions.
     io_bind (load_conditions D models) (\<lambda>mails.
       io_return (toGlobalMail model conditions # mails)))"

definition mysql_GetPublishedGlobalMails :: "'w gorm_db \<Rightarrow> go_time \<Rightarrow> ('w, GlobalMail list) io" where
  "mysql_GetPublishedGlobalMails D now =
     io_bind (tbl_find (T_global_mail D) (published_at now)) (load_conditions D)"

section \<open>Player states\<close>

definition mysql_GetUserStates ::
  "'w gorm_db \<Rightarrow> int \<Rightarrow> int list \<Rightarrow> ('w, int \<rightharpoonup> UserGlobalMailState) io" where
  "mysql_GetUserStates D roleID mailIDs =
     (if mailIDs = [] then io_return Map.empty
      else io_bind (tbl_find (T_state D)
                     (\<lambda>r. usm_RoleID r = roleID \<and> usm_GlobalMailID r \<in> set mailIDs)) (\<lambda>models.
        io_return (fold (\<lambda>model states. states(usm_GlobalMailID model \<mapsto> toState model))
                     models Map.empty)))"

text \<open>
  \<^verbatim>\<open>CASE WHEN status = 'deleted' THEN column ELSE value END\<close>: one assignment of the upsert,
  which keeps the column of a row that is deleted when the assignment is evaluated.
\<close>

definition preserveDeleted ::
  "(UserGlobalMailStateModel \<Rightarrow> UserGlobalMailStateModel) \<Rightarrow>
   UserGlobalMailStateModel \<Rightarrow> UserGlobalMailStateModel" where
  "preserveDeleted set_column row =
     (if usm_Status row = UserMailStatusDeleted then row else set_column row)"

text \<open>
  \<^verbatim>\<open>clause.Assignments\<close> of a Go map: gorm writes the assignments in the order of the column
  names, and the server evaluates them from left to right on the row as it is then.
\<close>

definition state_assignments ::
  "UserGlobalMailStateModel \<Rightarrow> (UserGlobalMailStateModel \<Rightarrow> UserGlobalMailStateModel) list" where
  "state_assignments model =
     [preserveDeleted (usm_ClaimTime_update (\<lambda>_. usm_ClaimTime model)),
      preserveDeleted (usm_ClaimedLootIndexes_update (\<lambda>_. usm_ClaimedLootIndexes model)),
      preserveDeleted (usm_DeleteTime_update (\<lambda>_. usm_DeleteTime model)),
      preserveDeleted (usm_ServerID_update (\<lambda>_. usm_ServerID model)),
      preserveDeleted (usm_Status_update (\<lambda>_. usm_Status model)),
      preserveDeleted (usm_UpdateTime_update (\<lambda>_. usm_UpdateTime model)),
      preserveDeleted (usm_Version_update (\<lambda>_. usm_Version model))]"

definition mysql_SaveUserState :: "'w gorm_db \<Rightarrow> UserGlobalMailState \<Rightarrow> ('w, unit) io" where
  "mysql_SaveUserState D state =
     tbl_upsert (T_state D) (toStateModel state) (state_assignments (toStateModel state))"

section \<open>Rewards\<close>

definition ledger_model :: "RewardGrant \<Rightarrow> go_time \<Rightarrow> UserGlobalMailRewardLedgerModel" where
  "ledger_model grant now =
     (let create = (if IsZero (rg_CreateTime grant) then now else rg_CreateTime grant);
          update = (if IsZero (rg_UpdateTime grant) then create else rg_UpdateTime grant)
      in \<lparr>rlm_GrantKey = rg_GrantKey grant, rlm_RoleID = rg_RoleID grant,
          rlm_ServerID = rg_ServerID grant, rlm_GlobalMailID = rg_GlobalMailID grant,
          rlm_LootIndex = rg_LootIndex grant,
          rlm_Status = (if rg_Status grant = [] then ''succeeded'' else rg_Status grant),
          rlm_ExternalRewardID = rg_ExternalRewardID grant,
          rlm_FailureReason = rg_FailureReason grant,
          rlm_CreateTime = create, rlm_UpdateTime = update\<rparr>)"

definition mysql_ReserveGlobalMailReward :: "'w gorm_db \<Rightarrow> RewardGrant \<Rightarrow> ('w, bool) io" where
  "mysql_ReserveGlobalMailReward D grant = (\<lambda>w.
     let (now, w1) = db_now D w
     in io_bind (tbl_create_ignore (T_ledger D) (ledger_model grant now))
          (\<lambda>affected. io_return (affected > 0)) w1)"

definition mysql_GrantGlobalMailReward :: "'w gorm_db \<Rightarrow> RewardGrant \<Rightarrow> ('w, bool) io" where
  "mysql_GrantGlobalMailReward D grant = mysql_ReserveGlobalMailReward D
     (if rg_Status grant = [] then grant\<lparr>rg_Status := ''succeeded''\<rparr> else grant)"

definition mysql_MarkGlobalMailRewardSucceeded ::
  "'w gorm_db \<Rightarrow> string \<Rightarrow> string \<Rightarrow> go_time \<Rightarrow> ('w, unit) io" where
  "mysql_MarkGlobalMailRewardSucceeded D grantKey externalRewardID updatedAt =
     tbl_updates (T_ledger D) (\<lambda>r. rlm_GrantKey r = grantKey)
       (\<lambda>r. r\<lparr>rlm_Status := ''succeeded'', rlm_ExternalRewardID := externalRewardID,
              rlm_FailureReason := '''', rlm_UpdateTime := updatedAt\<rparr>)"

definition mysql_MarkGlobalMailRewardFailed ::
  "'w gorm_db \<Rightarrow> string \<Rightarrow> error option \<Rightarrow> go_time \<Rightarrow> ('w, unit) io" where
  "mysql_MarkGlobalMailRewardFailed D grantKey cause updatedAt =
     (let reason = (case cause of None \<Rightarrow> '''' | Some e \<Rightarrow> error_text e)
      in tbl_updates (T_ledger D) (\<lambda>r. rlm_GrantKey r = grantKey)
           (\<lambda>r. r\<lparr>rlm_Status := ''failed'', rlm_FailureReason := reason,
                  rlm_UpdateTime := updatedAt\<rparr>))"

definition backpack_model :: "BackpackGrant \<Rightarrow> UserBackpackRewardModel" where
  "backpack_model grant = \<lparr>bpm_GrantKey = bg_GrantKey grant, bpm_RoleID = bg_RoleID grant,
     bpm_ServerID = bg_ServerID grant, bpm_LootIndex = bg_LootIndex grant,
     bpm_Loot = bg_Loot grant, bpm_CreateTime = bg_CreateTime grant\<rparr>"

definition mysql_GrantBackpackReward :: "'w gorm_db \<Rightarrow> BackpackGrant \<Rightarrow> ('w, string \<times> bool) io" where
  "mysql_GrantBackpackReward D grant =
     io_bind (tbl_create_ignore (T_backpack D) (backpack_model grant)) (\<lambda>affected.
       io_return (''playersrv-backpack:'' @ bg_GrantKey grant, affected > 0))"

section \<open>Outbox\<close>

text \<open>
  \<^verbatim>\<open>(status = 'pending' AND (next_retry_time IS NULL OR next_retry_time <= now)) OR
  (status = 'processing' AND locked_until <= now)\<close>
\<close>

definition claimable :: "go_time \<Rightarrow> GlobalMailOutboxEventModel \<Rightarrow> bool" where
  "claimable now r \<longleftrightarrow>
     (obm_Status r = OutboxStatusPending \<and>
        (case obm_NextRetryTime r of None \<Rightarrow> True | Some t \<Rightarrow> t \<le> now)) \<or>
     (obm_Status r = OutboxStatusProcessing \<and>
        (case obm_LockedUntil r of None \<Rightarrow> False | Some t \<Rightarrow> t \<le> now))"

definition claim_row ::
  "string \<Rightarrow> go_time \<Rightarrow> go_time \<Rightarrow> GlobalMailOutboxEventModel \<Rightarrow> GlobalMailOutboxEventModel" where
  "claim_row lockedBy lockedUntil now r =
     r\<lparr>obm_Status := OutboxStatusProcessing, obm_LockedBy := lockedBy,
       obm_LockedUntil := Some lockedUntil, obm_NextRetryTime := None, obm_UpdateTime := now\<rparr>"

definition claimed_event :: "string \<Rightarrow> go_time \<Rightarrow> GlobalMailOutboxEventModel \<Rightarrow> OutboxEvent" where
  "claimed_event lockedBy lockedUntil model =
     (toOutboxEvent model)\<lparr>ev_Status := OutboxStatusProcessing, ev_LockedBy := lockedBy,
        ev_LockedUntil := Some lockedUntil\<rparr>"

definition mysql_FetchPending ::
  "'w gorm_db \<Rightarrow> int \<Rightarrow> string \<Rightarrow> go_time \<Rightarrow> ('w, OutboxEvent list) io" where
  "mysql_FetchPending D limit lockedBy lockedUntil = (\<lambda>w.
     let limit = (if limit \<le> 0 then 100 else limit);
         (now, w1) = db_now D w;
         lockedBy = (if lockedBy = [] then ''outbox-relay'' else lockedBy)
     in Transaction D (
          io_bind (tbl_find_for_update (T_outbox D) (claimable now) obm_EventID limit) (\<lambda>models.
          if models = [] then io_return []
          else io_bind (tbl_updates (T_outbox D)
                         (\<lambda>r. obm_EventID r \<in> set (map obm_EventID models))
                         (claim_row lockedBy lockedUntil now)) (\<lambda>_.
            io_return (map (claimed_event lockedBy lockedUntil) models)))) w1)"

definition mysql_MarkPublished :: "'w gorm_db \<Rightarrow> int \<Rightarrow> go_time \<Rightarrow> ('w, unit) io" where
  "mysql_MarkPublished D eventID publishedAt =
     tbl_updates (T_outbox D) (\<lambda>r. obm_EventID r = eventID)
       (\<lambda>r. r\<lparr>obm_Status := OutboxStatusPublished, obm_LockedBy := '''',
              obm_LockedUntil := None, obm_FailureReason := '''',
              obm_PublishedTime := Some publishedAt, obm_UpdateTime := publishedAt\<rparr>)"

text \<open>\<^verbatim>\<open>strings.TrimSpace\<close> on the ASCII white space.\<close>

definition is_space :: "char \<Rightarrow> bool" where
  "is_space c \<longleftrightarrow> (of_char c :: nat) \<in> {9, 10, 11, 12, 13, 32}"

definition TrimSpace :: "string \<Rightarrow> string" where
  "TrimSpace s = rev (dropWhile is_space (rev (dropWhile is_space s)))"

definition failed_row ::
  "go_time \<Rightarrow> string \<Rightarrow> go_time \<Rightarrow> string \<Rightarrow> GlobalMailOutboxEventModel \<Rightarrow> GlobalMailOutboxEventModel" where
  "failed_row nextRetryAt reason now status r =
     r\<lparr>obm_Status := status, obm_RetryCount := obm_RetryCount r + 1, obm_LockedBy := '''',
       obm_LockedUntil := None, obm_FailureReason := reason, obm_UpdateTime := now,
       obm_NextRetryTime := (if status = OutboxStatusPending then Some nextRetryAt else None)\<rparr>"

definition failure_text :: "error option \<Rightarrow> string" where
  "failure_text cause =
     TrimSpace (take 1024 (case cause of None \<Rightarrow> '''' | Some e \<Rightarrow> error_text e))"

definition mysql_MarkFailed ::
  "'w gorm_db \<Rightarrow> int \<Rightarrow> go_time \<Rightarrow> error option \<Rightarrow> int \<Rightarrow> ('w, unit) io" where
  "mysql_MarkFailed D eventID nextRetryAt cause maxRetries = (\<lambda>w.
     let (now, w1) = db_now D w;
         maxRetries = (if maxRetries \<le> 0 then 5 else maxRetries)
     in io_bind (tbl_first (T_outbox D) (\<lambda>r. obm_EventID r = eventID)) (\<lambda>model.
          let status = (if wrap64 (obm_RetryCount model + 1) \<ge> maxRetries
                        then OutboxStatusFailed else OutboxStatusPending)
          in tbl_updates (T_outbox D) (\<lambda>r. obm_EventID r = eventID)
               (failed_row nextRetryAt (failure_text cause) now status)) w1)"

section \<open>The repository as the interfaces of the domain\<close>

definition mysql_MailRepository :: "'w gorm_db \<Rightarrow> 'w MailRepository" where
  "mysql_MailRepository D = \<lparr>
     CreateGlobalMailWithOutbox = mysql_CreateGlobalMailWithOutbox D,
     CreateGlobalMailWithOutboxAndIdempotency = mysql_CreateGlobalMailWithOutboxAndIdempotency D,
     GetPublishIdempotency = mysql_GetPublishIdempotency D,
     GetGlobalMailByID = mysql_GetGlobalMailByID D,
     GetPublishedGlobalMails = mysql_GetPublishedGlobalMails D,
     GetUserStates = mysql_GetUserStates D,
     SaveUserState = mysql_SaveUserState D\<rparr>"

definition mysql_RewardLedger :: "'w gorm_db \<Rightarrow> 'w RewardLedgerRepository" where
  "mysql_RewardLedger D = \<lparr>
     ReserveGlobalMailReward = mysql_ReserveGlobalMailReward D,
     MarkGlobalMailRewardSucceeded = mysql_MarkGlobalMailRewardSucceeded D,
     MarkGlobalMailRewardFailed = mysql_MarkGlobalMailRewardFailed D\<rparr>"

definition mysql_Backpack :: "'w gorm_db \<Rightarrow> 'w BackpackRepository" where
  "mysql_Backpack D = \<lparr>GrantBackpackReward = mysql_GrantBackpackReward D\<rparr>"

definition mysql_Outbox :: "'w gorm_db \<Rightarrow> 'w OutboxRepository" where
  "mysql_Outbox D = \<lparr>
     FetchPending = mysql_FetchPending D,
     MarkPublished = mysql_MarkPublished D,
     MarkFailed = mysql_MarkFailed D\<rparr>"

end
