(* ===== verification/Mysql_Contract.thy ===== *)
theory Mysql_Contract
  imports Mysql_Repository
begin

text \<open>
  The contracts around the MySQL repository: \<open>sql_table\<close> and \<open>gorm\<close> state what the code
  relies on of gorm and MySQL; \<open>mail_repository\<close>, \<open>reward_ledger\<close>, \<open>backpack_store\<close> and
  \<open>outbox_store\<close> state what the repository promises to the services, on the content of the
  database. Every repository contract is proved here for the model of the repository, over
  any database that satisfies \<open>gorm\<close>.
\<close>

section \<open>What the code relies on of the database\<close>

locale sql_table =
  fixes T :: "('r, 'w) table" and db :: "'w \<Rightarrow> 'd" and get :: "'d \<Rightarrow> 'r list"
    and put :: "'r list \<Rightarrow> 'd \<Rightarrow> 'd" and key :: "'r \<Rightarrow> 'k" and plain :: "'r \<Rightarrow> bool"
  assumes create: "plain r \<Longrightarrow> tbl_create T r w = (res, w') \<Longrightarrow>
      commits (\<lambda>d. map_option (\<lambda>rs. put rs d) (rows_insert key r (get d))) (db w) res (db w')"
    and create_ignore_Inr: "plain r \<Longrightarrow> tbl_create_ignore T r w = (Inr n, w') \<Longrightarrow>
      db w' = put (rows_insert_ignore key r (get (db w))) (db w) \<and>
      (n > 0 \<longleftrightarrow> key r \<notin> key ` set (get (db w)))"
    and create_ignore_Inl: "plain r \<Longrightarrow> tbl_create_ignore T r w = (Inl e, w') \<Longrightarrow>
      db w' = db w \<or> db w' = put (rows_insert_ignore key r (get (db w))) (db w)"
    and upsert: "plain r \<Longrightarrow> tbl_upsert T r assigns w = (res, w') \<Longrightarrow>
      commits (\<lambda>d. Some (put (rows_upsert key r assigns (get d)) d)) (db w) res (db w')"
    and updates: "tbl_updates T P f w = (res, w') \<Longrightarrow>
      commits (\<lambda>d. Some (put (rows_update P f (get d)) d)) (db w) res (db w')"
    and find_frame: "tbl_find T P w = (fres, w') \<Longrightarrow> db w' = db w"
    and find_rows: "tbl_find T P w = (Inr rs, w') \<Longrightarrow> mset rs = mset (filter P (get (db w)))"
    and first_frame: "tbl_first T P w = (fstres, w') \<Longrightarrow> db w' = db w"
    and first_row: "tbl_first T P w = (Inr r, w') \<Longrightarrow> r \<in> set (get (db w)) \<and> P r"
    and first_none: "tbl_first T P w = (Inl ErrRecordNotFound, w') \<Longrightarrow> filter P (get (db w)) = []"
    and lock_frame: "tbl_find_for_update T P ord n w = (lres, w') \<Longrightarrow> db w' = db w"
    and lock_rows: "0 < n \<Longrightarrow> tbl_find_for_update T P ord n w = (Inr rs, w') \<Longrightarrow>
      mset rs \<subseteq># mset (filter P (get (db w))) \<and> sorted (map ord rs) \<and> int (length rs) \<le> n"

text \<open>An insert as a partial function on the content of the database.\<close>

definition insert_row ::
  "('d \<Rightarrow> 'r list) \<Rightarrow> ('r list \<Rightarrow> 'd \<Rightarrow> 'd) \<Rightarrow> ('r \<Rightarrow> 'k) \<Rightarrow> 'r \<Rightarrow> 'd \<Rightarrow> 'd option" where
  "insert_row get put key r d = map_option (\<lambda>rs. put rs d) (rows_insert key r (get d))"

fun insert_all :: "('r \<Rightarrow> 'd \<Rightarrow> 'd option) \<Rightarrow> 'r list \<Rightarrow> 'd \<Rightarrow> 'd option" where
  "insert_all f [] d = Some d"
| "insert_all f (r # rs) d = Option.bind (f r d) (insert_all f rs)"

definition insert_mail :: "GlobalMailModel \<Rightarrow> tables \<Rightarrow> tables option" where
  "insert_mail = insert_row tb_global_mail (\<lambda>rs. tb_global_mail_update (\<lambda>_. rs)) gmm_GlobalMailID"

definition insert_condition :: "GlobalMailConditionModel \<Rightarrow> tables \<Rightarrow> tables option" where
  "insert_condition = insert_row tb_condition (\<lambda>rs. tb_condition_update (\<lambda>_. rs)) gcm_ConditionID"

definition insert_outbox :: "GlobalMailOutboxEventModel \<Rightarrow> tables \<Rightarrow> tables option" where
  "insert_outbox = insert_row tb_outbox (\<lambda>rs. tb_outbox_update (\<lambda>_. rs)) obm_EventID"

definition insert_idempotency :: "GlobalMailIdempotencyModel \<Rightarrow> tables \<Rightarrow> tables option" where
  "insert_idempotency =
     insert_row tb_idempotency (\<lambda>rs. tb_idempotency_update (\<lambda>_. rs)) idm_IdempotencyKey"

lemmas insert_defs = insert_mail_def insert_condition_def insert_outbox_def insert_idempotency_def
  insert_row_def

text \<open>
  The seven tables share one database; a row is inserted as it is when none of its columns is
  left to a default of the server (a zero automatic key, a zero version); a condition without
  a key is refused or gets one from the server. A transaction is all or nothing, also when
  the commit itself reports a failure. Time columns are taken to keep the precision they are
  given.
\<close>

locale gorm =
  gm: sql_table "T_global_mail D" db tb_global_mail "\<lambda>rs. tb_global_mail_update (\<lambda>_. rs)"
      gmm_GlobalMailID "\<lambda>r. gmm_GlobalMailID r \<noteq> 0 \<and> gmm_Version r \<noteq> 0" +
  cm: sql_table "T_condition D" db tb_condition "\<lambda>rs. tb_condition_update (\<lambda>_. rs)"
      gcm_ConditionID "\<lambda>r. gcm_ConditionID r \<noteq> 0" +
  st: sql_table "T_state D" db tb_state "\<lambda>rs. tb_state_update (\<lambda>_. rs)"
      "\<lambda>r. (usm_RoleID r, usm_GlobalMailID r)" "\<lambda>r. usm_Version r \<noteq> 0" +
  lg: sql_table "T_ledger D" db tb_ledger "\<lambda>rs. tb_ledger_update (\<lambda>_. rs)"
      rlm_GrantKey "\<lambda>_. True" +
  bp: sql_table "T_backpack D" db tb_backpack "\<lambda>rs. tb_backpack_update (\<lambda>_. rs)"
      bpm_GrantKey "\<lambda>_. True" +
  ob: sql_table "T_outbox D" db tb_outbox "\<lambda>rs. tb_outbox_update (\<lambda>_. rs)"
      obm_EventID "\<lambda>r. obm_EventID r \<noteq> 0" +
  im: sql_table "T_idempotency D" db tb_idempotency "\<lambda>rs. tb_idempotency_update (\<lambda>_. rs)"
      idm_IdempotencyKey "\<lambda>_. True"
  for D :: "'w gorm_db" and db :: "'w \<Rightarrow> tables" +
  assumes commit_Inr: "tx_commit D w0 w1 = (Inr u, w2) \<Longrightarrow> db w2 = db w1"
    and commit_Inl: "tx_commit D w0 w1 = (Inl e, w2) \<Longrightarrow> db w2 = db w0 \<or> db w2 = db w1"
    and rollback: "db (tx_rollback D w0 w1) = db w0"
    and auto_condition: "gcm_ConditionID c = 0 \<Longrightarrow> tbl_create (T_condition D) c w = (ares, w') \<Longrightarrow>
      \<exists>k. k \<noteq> 0 \<and> commits (insert_condition (c\<lparr>gcm_ConditionID := k\<rparr>)) (db w) ares (db w')"
    and now_frame: "db_now D w = (t, w') \<Longrightarrow> db w' = db w"
begin

lemma Transaction_Inr:
  assumes "Transaction D body w = (Inr x, w')"
  obtains w1 where "body w = (Inr x, w1)" "db w' = db w1"
  using assms commit_Inr by (fastforce simp: Transaction_def split: prod.splits sum.splits)

end

section \<open>The publishing transaction on the content of the database\<close>

definition db_publish ::
  "GlobalMail \<Rightarrow> OutboxEvent \<Rightarrow> GlobalMailIdempotencyModel option \<Rightarrow> tables \<Rightarrow> tables option" where
  "db_publish mail event record d =
     Option.bind (insert_mail (toGlobalMailModel mail) d) (\<lambda>d1.
     Option.bind (insert_all insert_condition (map (condition_model mail) (mail_Conditions mail)) d1) (\<lambda>d2.
     Option.bind (insert_outbox (toOutboxModel event) d2) (\<lambda>d3.
       case record of None \<Rightarrow> Some d3 | Some r \<Rightarrow> insert_idempotency r d3)))"

text \<open>No automatic key and no zero version among the rows of a publication.\<close>

definition publishable :: "GlobalMail \<Rightarrow> OutboxEvent \<Rightarrow> bool" where
  "publishable mail event \<longleftrightarrow> mail_ID mail \<noteq> 0 \<and> mail_Version mail \<noteq> 0 \<and> ev_ID event \<noteq> 0"

text \<open>The mail with the condition keys that the server chose where they were left open.\<close>

definition numbered_condition :: "Condition \<Rightarrow> Condition \<Rightarrow> bool" where
  "numbered_condition c c' \<longleftrightarrow> c' = c\<lparr>cond_ID := cond_ID c'\<rparr> \<and> cond_ID c' \<noteq> 0 \<and>
     (cond_ID c \<noteq> 0 \<longrightarrow> cond_ID c' = cond_ID c)"

definition numbered :: "GlobalMail \<Rightarrow> GlobalMail \<Rightarrow> bool" where
  "numbered mail mail' \<longleftrightarrow> mail' = mail\<lparr>mail_Conditions := mail_Conditions mail'\<rparr> \<and>
     list_all2 numbered_condition (mail_Conditions mail) (mail_Conditions mail')"

lemma condition_model_key [simp]:
  "gcm_ConditionID (condition_model mail c) = cond_ID c"
  "gcm_GlobalMailID (condition_model mail c) = mail_ID mail"
  by (simp_all add: condition_model_def toConditionModel_def)

context gorm begin

lemma condition_model_number:
  "condition_model mail (c\<lparr>cond_ID := k\<rparr>) = (condition_model mail c)\<lparr>gcm_ConditionID := k\<rparr>"
  by (simp add: condition_model_def toConditionModel_def)

lemma create_condition:
  assumes "tbl_create (T_condition D) (condition_model mail c) w = (Inr x, w1)"
  shows "\<exists>c'. numbered_condition c c' \<and> insert_condition (condition_model mail c') (db w) = Some (db w1)"
proof (cases "cond_ID c = 0")
  case True
  then obtain k where "k \<noteq> 0" "insert_condition (condition_model mail (c\<lparr>cond_ID := k\<rparr>)) (db w) = Some (db w1)"
    using auto_condition [OF _ assms] by (auto simp: condition_model_number)
  with True show ?thesis
    by (intro exI [of _ "c\<lparr>cond_ID := k\<rparr>"]) (simp add: numbered_condition_def)
next
  case False
  with cm.create [OF _ assms] show ?thesis
    by (intro exI [of _ c]) (simp add: insert_defs numbered_condition_def)
qed

lemma create_conditions:
  assumes "io_each (\<lambda>c. tbl_create (T_condition D) (condition_model mail c)) cs w = (Inr u, w')"
  shows "\<exists>cs'. list_all2 numbered_condition cs cs' \<and>
    insert_all insert_condition (map (condition_model mail) cs') (db w) = Some (db w')"
  using assms
proof (induction cs arbitrary: w)
  case (Cons c cs)
  from Cons.prems obtain x w1 where
    step: "tbl_create (T_condition D) (condition_model mail c) w = (Inr x, w1)"
    and rest: "io_each (\<lambda>c. tbl_create (T_condition D) (condition_model mail c)) cs w1 = (Inr u, w')"
    by (auto elim!: io_bind_InrE)
  from create_condition [OF step] Cons.IH [OF rest] obtain c' cs' where
    "numbered_condition c c'" "list_all2 numbered_condition cs cs'"
    "insert_condition (condition_model mail c') (db w) = Some (db w1)"
    "insert_all insert_condition (map (condition_model mail) cs') (db w1) = Some (db w')" by blast
  then show ?case by (intro exI [of _ "c' # cs'"]) simp
qed (simp add: io_return_def)

lemma publish_body:
  assumes "io_bind (tbl_create (T_global_mail D) (toGlobalMailModel mail)) (\<lambda>_.
     io_bind (io_each (\<lambda>c. tbl_create (T_condition D) (condition_model mail c)) (mail_Conditions mail)) (\<lambda>_.
     io_bind (tbl_create (T_outbox D) (toOutboxModel event)) (\<lambda>_.
     case record of None \<Rightarrow> io_return () | Some r \<Rightarrow> tbl_create (T_idempotency D) r))) w = (Inr x, w4)"
    and ok: "publishable mail event"
  shows "\<exists>mail'. numbered mail mail' \<and> db_publish mail' event record (db w) = Some (db w4)"
proof -
  from assms(1) obtain u1 w1 u2 w2 u3 w3 where
    m: "tbl_create (T_global_mail D) (toGlobalMailModel mail) w = (Inr u1, w1)" and
    c: "io_each (\<lambda>c. tbl_create (T_condition D) (condition_model mail c)) (mail_Conditions mail) w1 = (Inr u2, w2)" and
    ev: "tbl_create (T_outbox D) (toOutboxModel event) w2 = (Inr u3, w3)" and
    rec: "(case record of None \<Rightarrow> io_return () | Some r \<Rightarrow> tbl_create (T_idempotency D) r) w3 = (Inr x, w4)"
    by (elim io_bind_InrE) blast
  from create_conditions [OF c] obtain cs where
    cs: "list_all2 numbered_condition (mail_Conditions mail) cs"
    and d2: "insert_all insert_condition (map (condition_model mail) cs) (db w1) = Some (db w2)" by blast
  let ?mail = "mail\<lparr>mail_Conditions := cs\<rparr>"
  have "insert_mail (toGlobalMailModel mail) (db w) = Some (db w1)"
    using gm.create [OF _ m] ok
    by (simp add: insert_defs publishable_def toGlobalMailModel_def)
  moreover have "insert_outbox (toOutboxModel event) (db w2) = Some (db w3)"
    using ob.create [OF _ ev] ok by (simp add: insert_defs publishable_def)
  moreover have "(case record of None \<Rightarrow> Some (db w3) | Some r \<Rightarrow> insert_idempotency r (db w3)) = Some (db w4)"
  proof (cases "record")
    case (Some r)
    with rec have "tbl_create (T_idempotency D) r w3 = (Inr x, w4)" by simp
    from im.create [OF TrueI this] Some show ?thesis by (simp add: insert_defs)
  qed (use rec in simp)
  moreover have "toGlobalMailModel ?mail = toGlobalMailModel mail" "condition_model ?mail = condition_model mail"
    by (auto simp: toGlobalMailModel_def condition_model_def fun_eq_iff)
  ultimately have "db_publish ?mail event record (db w) = Some (db w4)"
    using d2 by (simp add: db_publish_def)
  with cs show ?thesis by (intro exI [of _ ?mail]) (simp add: numbered_def)
qed

lemma publish_commits:
  assumes "createGlobalMailWithOutbox D mail event record w = (res, w')"
    and ok: "publishable mail event"
  shows "db w' = db w \<and> isl res \<or>
    (\<exists>mail'. numbered mail mail' \<and> db_publish mail' event record (db w) = Some (db w'))"
proof -
  let ?body = "io_bind (tbl_create (T_global_mail D) (toGlobalMailModel mail)) (\<lambda>_.
     io_bind (io_each (\<lambda>c. tbl_create (T_condition D) (condition_model mail c)) (mail_Conditions mail)) (\<lambda>_.
     io_bind (tbl_create (T_outbox D) (toOutboxModel event)) (\<lambda>_.
     case record of None \<Rightarrow> io_return () | Some r \<Rightarrow> tbl_create (T_idempotency D) r)))"
  obtain r w1 where b: "?body w = (r, w1)" by fastforce
  have t: "Transaction D ?body w = (res, w')"
    using assms(1) by (simp add: createGlobalMailWithOutbox_def)
  show ?thesis
  proof (cases r)
    case (Inl e)
    with t b rollback show ?thesis by (auto simp: Transaction_def)
  next
    case (Inr x)
    from t b Inr have "db w' = db w1 \<or> db w' = db w \<and> isl res"
      using commit_Inr commit_Inl by (fastforce simp: Transaction_def split: prod.splits sum.splits)
    with publish_body [OF b [unfolded Inr] ok] show ?thesis by auto
  qed
qed

end

section \<open>Contents that the services read\<close>

definition tables_wf :: "tables \<Rightarrow> bool" where
  "tables_wf d \<longleftrightarrow> keys_unique gmm_GlobalMailID (tb_global_mail d) \<and>
     keys_unique gcm_ConditionID (tb_condition d) \<and>
     keys_unique (\<lambda>r. (usm_RoleID r, usm_GlobalMailID r)) (tb_state d) \<and>
     keys_unique rlm_GrantKey (tb_ledger d) \<and> keys_unique bpm_GrantKey (tb_backpack d) \<and>
     keys_unique obm_EventID (tb_outbox d) \<and> keys_unique idm_IdempotencyKey (tb_idempotency d)"

definition db_state :: "int \<Rightarrow> int \<Rightarrow> tables \<Rightarrow> UserGlobalMailState option" where
  "db_state role mid d =
     map_option toState (find (\<lambda>r. usm_RoleID r = role \<and> usm_GlobalMailID r = mid) (tb_state d))"

definition db_idempotency :: "string \<Rightarrow> tables \<Rightarrow> PublishIdempotencyRecord option" where
  "db_idempotency k d =
     map_option toIdempotencyRecord (find (\<lambda>r. idm_IdempotencyKey r = k) (tb_idempotency d))"

definition db_row_mail :: "tables \<Rightarrow> GlobalMailModel \<Rightarrow> GlobalMail \<Rightarrow> bool" where
  "db_row_mail d row m \<longleftrightarrow> (\<exists>cs.
     mset cs = mset (filter (\<lambda>c. gcm_GlobalMailID c = gmm_GlobalMailID row) (tb_condition d)) \<and>
     m = toGlobalMail row cs)"

definition db_save_state :: "UserGlobalMailState \<Rightarrow> tables \<Rightarrow> tables" where
  "db_save_state s d = d\<lparr>tb_state :=
     rows_upsert (\<lambda>r. (usm_RoleID r, usm_GlobalMailID r)) (toStateModel s)
       (state_assignments (toStateModel s)) (tb_state d)\<rparr>"

definition db_reserve :: "RewardGrant \<Rightarrow> go_time \<Rightarrow> tables \<Rightarrow> tables" where
  "db_reserve g now d =
     d\<lparr>tb_ledger := rows_insert_ignore rlm_GrantKey (ledger_model g now) (tb_ledger d)\<rparr>"

definition db_reward_succeeded :: "string \<Rightarrow> string \<Rightarrow> go_time \<Rightarrow> tables \<Rightarrow> tables" where
  "db_reward_succeeded k x t d = d\<lparr>tb_ledger := rows_update (\<lambda>r. rlm_GrantKey r = k)
     (\<lambda>r. r\<lparr>rlm_Status := ''succeeded'', rlm_ExternalRewardID := x,
            rlm_FailureReason := '''', rlm_UpdateTime := t\<rparr>) (tb_ledger d)\<rparr>"

definition db_reward_failed :: "string \<Rightarrow> error option \<Rightarrow> go_time \<Rightarrow> tables \<Rightarrow> tables" where
  "db_reward_failed k cause t d = d\<lparr>tb_ledger := rows_update (\<lambda>r. rlm_GrantKey r = k)
     (\<lambda>r. r\<lparr>rlm_Status := ''failed'',
            rlm_FailureReason := (case cause of None \<Rightarrow> '''' | Some e \<Rightarrow> error_text e),
            rlm_UpdateTime := t\<rparr>) (tb_ledger d)\<rparr>"

definition db_backpack :: "BackpackGrant \<Rightarrow> tables \<Rightarrow> tables" where
  "db_backpack g d =
     d\<lparr>tb_backpack := rows_insert_ignore bpm_GrantKey (backpack_model g) (tb_backpack d)\<rparr>"

definition db_claim :: "string \<Rightarrow> go_time \<Rightarrow> go_time \<Rightarrow> int set \<Rightarrow> tables \<Rightarrow> tables" where
  "db_claim lockedBy lockedUntil now ids d = d\<lparr>tb_outbox :=
     rows_update (\<lambda>r. obm_EventID r \<in> ids) (claim_row lockedBy lockedUntil now) (tb_outbox d)\<rparr>"

definition db_mark_published :: "int \<Rightarrow> go_time \<Rightarrow> tables \<Rightarrow> tables" where
  "db_mark_published eventID publishedAt d = d\<lparr>tb_outbox :=
     rows_update (\<lambda>r. obm_EventID r = eventID)
       (\<lambda>r. r\<lparr>obm_Status := OutboxStatusPublished, obm_LockedBy := '''',
              obm_LockedUntil := None, obm_FailureReason := '''',
              obm_PublishedTime := Some publishedAt, obm_UpdateTime := publishedAt\<rparr>)
       (tb_outbox d)\<rparr>"

definition retry_status :: "int \<Rightarrow> int \<Rightarrow> OutboxStatus" where
  "retry_status maxRetries retryCount =
     (if wrap64 (retryCount + 1) \<ge> (if maxRetries \<le> 0 then 5 else maxRetries)
      then OutboxStatusFailed else OutboxStatusPending)"

definition db_mark_failed ::
  "int \<Rightarrow> go_time \<Rightarrow> error option \<Rightarrow> int \<Rightarrow> go_time \<Rightarrow> tables \<Rightarrow> tables option" where
  "db_mark_failed eventID nextRetryAt cause maxRetries now d =
     (case find (\<lambda>r. obm_EventID r = eventID) (tb_outbox d) of
        None \<Rightarrow> None
      | Some row \<Rightarrow> Some (d\<lparr>tb_outbox := rows_update (\<lambda>r. obm_EventID r = eventID)
          (failed_row nextRetryAt (failure_text cause) now (retry_status maxRetries (obm_RetryCount row)))
          (tb_outbox d)\<rparr>))"

lemma length_TrimSpace: "length (TrimSpace s) \<le> length s"
  unfolding TrimSpace_def length_rev
  by (rule order_trans [OF length_dropWhile_le]) (simp add: length_dropWhile_le)

lemma length_failure_text: "length (failure_text cause) \<le> 1024"
  unfolding failure_text_def by (rule order_trans [OF length_TrimSpace]) simp

lemma db_mark_failed_Some:
  assumes "db_mark_failed eid next cause n now d = Some d'"
  obtains row where "row \<in> set (tb_outbox d)" "obm_EventID row = eid"
    and "d' = d\<lparr>tb_outbox := rows_update (\<lambda>r. obm_EventID r = eid)
      (failed_row next (failure_text cause) now (retry_status n (obm_RetryCount row))) (tb_outbox d)\<rparr>"
proof (cases "find (\<lambda>r. obm_EventID r = eid) (tb_outbox d)")
  case (Some row)
  then have "row \<in> set (tb_outbox d)" "obm_EventID row = eid" by (auto simp: find_Some_iff)
  with Some assms that show thesis by (simp add: db_mark_failed_def)
qed (use assms in \<open>simp add: db_mark_failed_def\<close>)

lemma find_unique:
  assumes "keys_unique key rs" "r \<in> set rs" "P r"
    and "\<And>x y. P x \<Longrightarrow> P y \<Longrightarrow> key x = key y"
  shows "find P rs = Some r"
proof -
  obtain r' where r': "find P rs = Some r'"
    using assms(2,3) by (metis find_None_iff not_None_eq)
  then have "r' \<in> set rs" "P r'" by (auto simp: find_Some_iff)
  with assms show ?thesis using r' keys_uniqueD [OF assms(1)] by metis
qed

lemma find_filter_Nil: "filter P rs = [] \<Longrightarrow> find P rs = None"
  by (auto simp: find_None_iff filter_empty_conv)

lemma fold_map_upd_other:
  "i \<notin> k ` set xs \<Longrightarrow> fold (\<lambda>x m. m(k x \<mapsto> v x)) xs m0 i = m0 i"
  by (induction xs arbitrary: m0) auto

lemma fold_map_upd:
  assumes "distinct (map k xs)" "x \<in> set xs"
  shows "fold (\<lambda>x m. m(k x \<mapsto> v x)) xs m0 (k x) = Some (v x)"
  using assms by (induction xs arbitrary: m0) (auto simp: fold_map_upd_other)

section \<open>What the repository promises to the services\<close>

locale mail_repository =
  fixes R :: "'w MailRepository" and db :: "'w \<Rightarrow> tables"
  assumes create_mail: "publishable mail ev \<Longrightarrow> CreateGlobalMailWithOutbox R mail ev w = (ures, w') \<Longrightarrow>
      db w' = db w \<and> isl ures \<or>
      (\<exists>mail'. numbered mail mail' \<and> db_publish mail' ev None (db w) = Some (db w'))"
    and create_mail_idem: "publishable mail ev \<Longrightarrow>
      CreateGlobalMailWithOutboxAndIdempotency R mail ev rec w = (ures, w') \<Longrightarrow>
      db w' = db w \<and> isl ures \<or>
      (\<exists>mail'. numbered mail mail' \<and>
         db_publish mail' ev (Some (toIdempotencyModel rec)) (db w) = Some (db w'))"
    and get_idem_frame: "GetPublishIdempotency R k w = (ires, w') \<Longrightarrow> db w' = db w"
    and get_idem: "tables_wf (db w) \<Longrightarrow> GetPublishIdempotency R k w = (Inr found, w') \<Longrightarrow>
      found = db_idempotency k (db w)"
    and get_mail_frame: "GetGlobalMailByID R mid w = (mres, w') \<Longrightarrow> db w' = db w"
    and get_mail_Some: "GetGlobalMailByID R mid w = (Inr (Some m), w') \<Longrightarrow>
      \<exists>row\<in>set (tb_global_mail (db w)). gmm_GlobalMailID row = mid \<and> db_row_mail (db w) row m"
    and get_mail_None: "GetGlobalMailByID R mid w = (Inr None, w') \<Longrightarrow>
      mid \<notin> gmm_GlobalMailID ` set (tb_global_mail (db w))"
    and get_published_frame: "GetPublishedGlobalMails R now w = (pres, w') \<Longrightarrow> db w' = db w"
    and get_published: "GetPublishedGlobalMails R now w = (Inr ms, w') \<Longrightarrow>
      \<exists>rows. mset rows = mset (filter (published_at now) (tb_global_mail (db w))) \<and>
             list_all2 (db_row_mail (db w)) rows ms"
    and get_states_frame: "GetUserStates R role ids w = (sres, w') \<Longrightarrow> db w' = db w"
    and get_states: "tables_wf (db w) \<Longrightarrow> GetUserStates R role ids w = (Inr states, w') \<Longrightarrow>
      states = (\<lambda>i. if i \<in> set ids then db_state role i (db w) else None)"
    and save_state: "ums_Version s \<noteq> 0 \<Longrightarrow> SaveUserState R s w = (ures, w') \<Longrightarrow>
      commits (\<lambda>d. Some (db_save_state s d)) (db w) ures (db w')"

locale reward_ledger =
  fixes L :: "'w RewardLedgerRepository" and db :: "'w \<Rightarrow> tables"
  assumes reserve_Inr: "ReserveGlobalMailReward L g w = (Inr b, w') \<Longrightarrow>
      b = (rg_GrantKey g \<notin> rlm_GrantKey ` set (tb_ledger (db w))) \<and>
      (\<exists>now. db w' = db_reserve g now (db w))"
    and reserve_Inl: "ReserveGlobalMailReward L g w = (Inl e, w') \<Longrightarrow>
      db w' = db w \<or> (\<exists>now. db w' = db_reserve g now (db w))"
    and mark_succeeded: "MarkGlobalMailRewardSucceeded L k x t w = (ures, w') \<Longrightarrow>
      commits (\<lambda>d. Some (db_reward_succeeded k x t d)) (db w) ures (db w')"
    and mark_failed: "MarkGlobalMailRewardFailed L k cause t w = (ures, w') \<Longrightarrow>
      commits (\<lambda>d. Some (db_reward_failed k cause t d)) (db w) ures (db w')"

locale backpack_store =
  fixes B :: "'w BackpackRepository" and db :: "'w \<Rightarrow> tables"
  assumes grant_Inr: "GrantBackpackReward B g w = (Inr (x, b), w') \<Longrightarrow>
      x = ''playersrv-backpack:'' @ bg_GrantKey g \<and>
      b = (bg_GrantKey g \<notin> bpm_GrantKey ` set (tb_backpack (db w))) \<and>
      db w' = db_backpack g (db w)"
    and grant_Inl: "GrantBackpackReward B g w = (Inl e, w') \<Longrightarrow>
      db w' = db w \<or> db w' = db_backpack g (db w)"

text \<open>The events that a fetch at time \<open>now\<close> may hand out, and the claim it leaves behind.\<close>

definition fetched ::
  "int \<Rightarrow> string \<Rightarrow> go_time \<Rightarrow> go_time \<Rightarrow> GlobalMailOutboxEventModel list \<Rightarrow> tables \<Rightarrow> tables \<Rightarrow> bool" where
  "fetched limit who until now models d d' \<longleftrightarrow>
     mset models \<subseteq># mset (filter (claimable now) (tb_outbox d)) \<and>
     sorted (map obm_EventID models) \<and>
     int (length models) \<le> (if limit \<le> 0 then 100 else limit) \<and>
     d' = db_claim (if who = [] then ''outbox-relay'' else who) until now
            (set (map obm_EventID models)) d"

locale outbox_store =
  fixes Ob :: "'w OutboxRepository" and db :: "'w \<Rightarrow> tables" and now_of :: "'w \<Rightarrow> go_time"
  assumes fetch_Inr: "FetchPending Ob limit who until w = (Inr evs, w') \<Longrightarrow>
      \<exists>models. fetched limit who until (now_of w) models (db w) (db w') \<and>
        evs = map (claimed_event (if who = [] then ''outbox-relay'' else who) until) models"
    and fetch_Inl: "FetchPending Ob limit who until w = (Inl e, w') \<Longrightarrow>
      db w' = db w \<or> (\<exists>models. fetched limit who until (now_of w) models (db w) (db w'))"
    and mark_published: "MarkPublished Ob eid t w = (ures, w') \<Longrightarrow>
      commits (\<lambda>d. Some (db_mark_published eid t d)) (db w) ures (db w')"
    and mark_failed: "tables_wf (db w) \<Longrightarrow> MarkFailed Ob eid next cause n w = (ures, w') \<Longrightarrow>
      commits (db_mark_failed eid next cause n (now_of w)) (db w) ures (db w')"

section \<open>The repository keeps its promises\<close>

context gorm begin

lemma GetPublishIdempotency_frame:
  "mysql_GetPublishIdempotency D k w = (ires, w') \<Longrightarrow> db w' = db w"
  by (auto simp: mysql_GetPublishIdempotency_def dest: im.first_frame
      split: prod.splits sum.splits if_splits)

lemma GetPublishIdempotency_found:
  assumes "tables_wf (db w)" "mysql_GetPublishIdempotency D k w = (Inr found, w')"
  shows "found = db_idempotency k (db w)"
proof -
  obtain fr w1 where f: "tbl_first (T_idempotency D) (\<lambda>r. idm_IdempotencyKey r = k) w = (fr, w1)"
    by (metis surj_pair)
  show ?thesis
  proof (cases fr)
    case (Inl e)
    with f assms(2) have "e = ErrRecordNotFound" "found = None"
      by (auto simp: mysql_GetPublishIdempotency_def split: if_splits)
    with f Inl show ?thesis
      using im.first_none by (simp add: db_idempotency_def find_filter_Nil)
  next
    case (Inr row)
    with f have row: "row \<in> set (tb_idempotency (db w))" "idm_IdempotencyKey row = k"
      using im.first_row by auto
    then have "find (\<lambda>r. idm_IdempotencyKey r = k) (tb_idempotency (db w)) = Some row"
      using assms(1) by (intro find_unique [where key = idm_IdempotencyKey]) (auto simp: tables_wf_def)
    with f Inr assms(2) show ?thesis
      by (simp add: mysql_GetPublishIdempotency_def db_idempotency_def)
  qed
qed

lemma GetGlobalMailByID_frame:
  "mysql_GetGlobalMailByID D mid w = (mres, w') \<Longrightarrow> db w' = db w"
  by (auto simp: mysql_GetGlobalMailByID_def io_bind_def dest!: gm.first_frame cm.find_frame
      split: prod.splits sum.splits if_splits)

lemma GetGlobalMailByID_Some:
  assumes "mysql_GetGlobalMailByID D mid w = (Inr (Some m), w')"
  shows "\<exists>row\<in>set (tb_global_mail (db w)). gmm_GlobalMailID row = mid \<and> db_row_mail (db w) row m"
proof -
  from assms obtain row w1 where
    f: "tbl_first (T_global_mail D) (\<lambda>r. gmm_GlobalMailID r = mid) w = (Inr row, w1)" and
    rest: "io_bind (tbl_find (T_condition D) (\<lambda>r. gcm_GlobalMailID r = gmm_GlobalMailID row))
       (\<lambda>cs. io_return (Some (toGlobalMail row cs))) w1 = (Inr (Some m), w')"
    by (auto simp: mysql_GetGlobalMailByID_def split: prod.splits sum.splits if_splits)
  from rest obtain cs where
    "tbl_find (T_condition D) (\<lambda>r. gcm_GlobalMailID r = gmm_GlobalMailID row) w1 = (Inr cs, w')"
    and "m = toGlobalMail row cs"
    by (elim io_bind_InrE) auto
  then show ?thesis
    using gm.first_row [OF f] gm.first_frame [OF f] cm.find_rows by (fastforce simp: db_row_mail_def)
qed

lemma GetGlobalMailByID_None:
  assumes "mysql_GetGlobalMailByID D mid w = (Inr None, w')"
  shows "mid \<notin> gmm_GlobalMailID ` set (tb_global_mail (db w))"
proof -
  from assms have "tbl_first (T_global_mail D) (\<lambda>r. gmm_GlobalMailID r = mid) w = (Inl ErrRecordNotFound, w')"
    by (auto simp: mysql_GetGlobalMailByID_def io_bind_def split: prod.splits sum.splits if_splits)
  from gm.first_none [OF this] show ?thesis by (auto simp: filter_empty_conv)
qed

lemma load_conditions_frame: "load_conditions D rows w = (pres, w') \<Longrightarrow> db w' = db w"
proof (induction rows arbitrary: w pres)
  case (Cons row rows)
  then show ?case
    by (fastforce simp: io_bind_def dest: cm.find_frame split: prod.splits sum.splits)
qed simp

lemma load_conditions_mails:
  "load_conditions D rows w = (Inr ms, w') \<Longrightarrow> list_all2 (db_row_mail (db w)) rows ms"
proof (induction rows arbitrary: w ms)
  case (Cons row rows)
  from Cons.prems obtain cs w1 ms' where
    cs: "tbl_find (T_condition D) (\<lambda>r. gcm_GlobalMailID r = gmm_GlobalMailID row) w = (Inr cs, w1)" and
    rest: "load_conditions D rows w1 = (Inr ms', w')" and ms: "ms = toGlobalMail row cs # ms'"
    by (auto elim!: io_bind_InrE)
  have "db_row_mail (db w) row (toGlobalMail row cs)"
    using cm.find_rows [OF cs] by (auto simp: db_row_mail_def)
  with Cons.IH [OF rest] cm.find_frame [OF cs] ms show ?case by simp
qed simp

lemma GetPublishedGlobalMails_frame:
  "mysql_GetPublishedGlobalMails D now w = (pres, w') \<Longrightarrow> db w' = db w"
  by (auto simp: mysql_GetPublishedGlobalMails_def io_bind_def
      dest!: gm.find_frame load_conditions_frame split: prod.splits sum.splits)

lemma GetPublishedGlobalMails_mails:
  assumes "mysql_GetPublishedGlobalMails D now w = (Inr ms, w')"
  shows "\<exists>rows. mset rows = mset (filter (published_at now) (tb_global_mail (db w))) \<and>
             list_all2 (db_row_mail (db w)) rows ms"
proof -
  from assms obtain rows w1 where
    rows: "tbl_find (T_global_mail D) (published_at now) w = (Inr rows, w1)" and
    rest: "load_conditions D rows w1 = (Inr ms, w')"
    by (auto simp: mysql_GetPublishedGlobalMails_def elim!: io_bind_InrE)
  show ?thesis
    using gm.find_rows [OF rows] load_conditions_mails [OF rest] gm.find_frame [OF rows] by auto
qed

lemma GetUserStates_frame:
  "mysql_GetUserStates D role ids w = (sres, w') \<Longrightarrow> db w' = db w"
  by (auto simp: mysql_GetUserStates_def io_bind_def dest: st.find_frame
      split: prod.splits sum.splits if_splits)

lemma GetUserStates_states:
  assumes "tables_wf (db w)" "mysql_GetUserStates D role ids w = (Inr states, w')"
  shows "states = (\<lambda>i. if i \<in> set ids then db_state role i (db w) else None)"
proof (cases "ids = []")
  case False
  let ?P = "\<lambda>r. usm_RoleID r = role \<and> usm_GlobalMailID r \<in> set ids"
  from False assms(2) obtain rows where
    find: "tbl_find (T_state D) ?P w = (Inr rows, w')" and
    states: "states = fold (\<lambda>r m. m(usm_GlobalMailID r \<mapsto> toState r)) rows Map.empty"
    by (auto simp: mysql_GetUserStates_def elim!: io_bind_InrE)
  have m: "mset rows = mset (filter ?P (tb_state (db w)))" using find by (rule st.find_rows)
  then have rows: "set rows = {r \<in> set (tb_state (db w)). ?P r}" by (metis set_mset_mset set_filter)
  have uniq: "keys_unique (\<lambda>r. (usm_RoleID r, usm_GlobalMailID r)) (tb_state (db w))"
    using assms(1) by (simp add: tables_wf_def)
  have "distinct (map (\<lambda>r. (usm_RoleID r, usm_GlobalMailID r)) (filter ?P (tb_state (db w))))"
    using uniq by (simp add: keys_unique_def distinct_map_filter)
  then have "distinct (map (\<lambda>r. (usm_RoleID r, usm_GlobalMailID r)) rows)"
    by (rule distinct_map_mset_eq [OF m, THEN iffD2])
  then have dist: "distinct (map usm_GlobalMailID rows)"
    using rows by (auto simp: distinct_map inj_on_def)
  show ?thesis
  proof
    fix i
    show "states i = (if i \<in> set ids then db_state role i (db w) else None)"
    proof (cases "\<exists>r\<in>set rows. usm_GlobalMailID r = i")
      case True
      then obtain r where r: "r \<in> set rows" "usm_GlobalMailID r = i" by blast
      then have "find (\<lambda>r. usm_RoleID r = role \<and> usm_GlobalMailID r = i) (tb_state (db w)) = Some r"
        using rows by (intro find_unique [OF uniq]) auto
      then show ?thesis
        using r rows fold_map_upd [OF dist r(1), of toState Map.empty] states
        by (auto simp: db_state_def)
    next
      case False
      then have "i \<notin> usm_GlobalMailID ` set rows" by auto
      then have "states i = None" using states by (simp add: fold_map_upd_other)
      moreover have "db_state role i (db w) = None" if "i \<in> set ids"
        using False rows that by (auto simp: db_state_def find_None_iff)
      ultimately show ?thesis by simp
    qed
  qed
qed (use assms(2) in \<open>auto simp: mysql_GetUserStates_def\<close>)

end

sublocale gorm \<subseteq> mysql_mail: mail_repository "mysql_MailRepository D" db
proof unfold_locales
  fix mail ev w ures w'
  assume "publishable mail ev" "CreateGlobalMailWithOutbox (mysql_MailRepository D) mail ev w = (ures, w')"
  then show "db w' = db w \<and> isl ures \<or>
      (\<exists>mail'. numbered mail mail' \<and> db_publish mail' ev None (db w) = Some (db w'))"
    by (simp add: mysql_MailRepository_def mysql_CreateGlobalMailWithOutbox_def publish_commits)
next
  fix mail ev rec w ures w'
  assume "publishable mail ev"
    "CreateGlobalMailWithOutboxAndIdempotency (mysql_MailRepository D) mail ev rec w = (ures, w')"
  then show "db w' = db w \<and> isl ures \<or>
      (\<exists>mail'. numbered mail mail' \<and>
         db_publish mail' ev (Some (toIdempotencyModel rec)) (db w) = Some (db w'))"
    by (simp add: mysql_MailRepository_def mysql_CreateGlobalMailWithOutboxAndIdempotency_def publish_commits)
next
  fix s w ures w'
  assume "ums_Version s \<noteq> 0" "SaveUserState (mysql_MailRepository D) s w = (ures, w')"
  then show "commits (\<lambda>d. Some (db_save_state s d)) (db w) ures (db w')"
    using st.upsert [of "toStateModel s"]
    by (auto simp: mysql_MailRepository_def mysql_SaveUserState_def db_save_state_def toStateModel_def)
next
  fix now w ms w'
  assume "GetPublishedGlobalMails (mysql_MailRepository D) now w = (Inr ms, w')"
  then show "\<exists>rows. mset rows = mset (filter (published_at now) (tb_global_mail (db w))) \<and>
             list_all2 (db_row_mail (db w)) rows ms"
    by (intro GetPublishedGlobalMails_mails) (simp add: mysql_MailRepository_def)
qed (auto simp: mysql_MailRepository_def
       dest: GetPublishIdempotency_frame GetPublishIdempotency_found GetGlobalMailByID_frame
         GetGlobalMailByID_Some GetGlobalMailByID_None GetPublishedGlobalMails_frame
         GetUserStates_frame GetUserStates_states)

context gorm begin

lemma Reserve_Inr:
  assumes "mysql_ReserveGlobalMailReward D g w = (Inr b, w')"
  shows "b = (rg_GrantKey g \<notin> rlm_GrantKey ` set (tb_ledger (db w))) \<and>
    (\<exists>now. db w' = db_reserve g now (db w))"
proof -
  obtain now w1 where now: "db_now D w = (now, w1)" by fastforce
  with assms obtain n where
    c: "tbl_create_ignore (T_ledger D) (ledger_model g now) w1 = (Inr n, w')" and b: "b = (n > 0)"
    by (auto simp: mysql_ReserveGlobalMailReward_def elim!: io_bind_InrE)
  have key: "rlm_GrantKey (ledger_model g now) = rg_GrantKey g"
    by (simp add: ledger_model_def Let_def)
  from lg.create_ignore_Inr [OF TrueI c] now_frame [OF now] b show ?thesis
    by (auto simp: db_reserve_def key)
qed

lemma Reserve_Inl:
  assumes "mysql_ReserveGlobalMailReward D g w = (Inl e, w')"
  shows "db w' = db w \<or> (\<exists>now. db w' = db_reserve g now (db w))"
proof -
  obtain now w1 where now: "db_now D w = (now, w1)" by fastforce
  with assms have "tbl_create_ignore (T_ledger D) (ledger_model g now) w1 = (Inl e, w')"
    by (auto simp: mysql_ReserveGlobalMailReward_def elim!: io_bind_InlE)
  from lg.create_ignore_Inl [OF TrueI this] now_frame [OF now] show ?thesis
    by (auto simp: db_reserve_def)
qed

lemma GrantBackpack_Inr:
  assumes "mysql_GrantBackpackReward D g w = (Inr (x, b), w')"
  shows "x = ''playersrv-backpack:'' @ bg_GrantKey g \<and>
      b = (bg_GrantKey g \<notin> bpm_GrantKey ` set (tb_backpack (db w))) \<and>
      db w' = db_backpack g (db w)"
proof -
  from assms obtain n where
    "tbl_create_ignore (T_backpack D) (backpack_model g) w = (Inr n, w')"
    and "x = ''playersrv-backpack:'' @ bg_GrantKey g" "b = (n > 0)"
    by (auto simp: mysql_GrantBackpackReward_def elim!: io_bind_InrE)
  with bp.create_ignore_Inr [OF TrueI] show ?thesis
    by (auto simp: db_backpack_def backpack_model_def)
qed

lemma GrantBackpack_Inl:
  assumes "mysql_GrantBackpackReward D g w = (Inl e, w')"
  shows "db w' = db w \<or> db w' = db_backpack g (db w)"
proof -
  from assms have "tbl_create_ignore (T_backpack D) (backpack_model g) w = (Inl e, w')"
    by (auto simp: mysql_GrantBackpackReward_def elim!: io_bind_InlE)
  from bp.create_ignore_Inl [OF TrueI this] show ?thesis by (simp add: db_backpack_def)
qed

lemma claim_body:
  assumes "io_bind (tbl_find_for_update (T_outbox D) (claimable now) obm_EventID limit) (\<lambda>models.
          if models = [] then io_return []
          else io_bind (tbl_updates (T_outbox D)
                         (\<lambda>r. obm_EventID r \<in> set (map obm_EventID models)) (claim_row who until now)) (\<lambda>_.
            io_return (map (claimed_event who until) models))) w = (Inr evs, w')" and "0 < limit"
  obtains models where "mset models \<subseteq># mset (filter (claimable now) (tb_outbox (db w)))"
    and "sorted (map obm_EventID models)" "int (length models) \<le> limit"
    and "evs = map (claimed_event who until) models"
    and "db w' = db_claim who until now (set (map obm_EventID models)) (db w)"
proof -
  from assms(1) obtain models w1 where
    f: "tbl_find_for_update (T_outbox D) (claimable now) obm_EventID limit w = (Inr models, w1)" and
    rest: "(if models = [] then io_return []
       else io_bind (tbl_updates (T_outbox D)
              (\<lambda>r. obm_EventID r \<in> set (map obm_EventID models)) (claim_row who until now)) (\<lambda>_.
            io_return (map (claimed_event who until) models))) w1 = (Inr evs, w')"
    by (elim io_bind_InrE) blast
  note rows = ob.lock_rows [OF assms(2) f] and frame = ob.lock_frame [OF f]
  have "evs = map (claimed_event who until) models \<and>
    db w' = db_claim who until now (set (map obm_EventID models)) (db w)"
  proof (cases "models = []")
    case True
    with rest frame show ?thesis by (simp add: db_claim_def rows_update_def)
  next
    case False
    with rest obtain u where
      "tbl_updates (T_outbox D) (\<lambda>r. obm_EventID r \<in> set (map obm_EventID models)) (claim_row who until now) w1 = (Inr u, w')"
      and "evs = map (claimed_event who until) models"
      by (auto elim!: io_bind_InrE)
    with ob.updates frame show ?thesis by (fastforce simp: db_claim_def)
  qed
  with rows show thesis using that by blast
qed

end

sublocale gorm \<subseteq> mysql_ledger: reward_ledger "mysql_RewardLedger D" db
proof unfold_locales
  fix k x t w ures w'
  assume "MarkGlobalMailRewardSucceeded (mysql_RewardLedger D) k x t w = (ures, w')"
  then show "commits (\<lambda>d. Some (db_reward_succeeded k x t d)) (db w) ures (db w')"
    using lg.updates by (auto simp: mysql_RewardLedger_def mysql_MarkGlobalMailRewardSucceeded_def
        db_reward_succeeded_def)
next
  fix k cause t w ures w'
  assume "MarkGlobalMailRewardFailed (mysql_RewardLedger D) k cause t w = (ures, w')"
  then show "commits (\<lambda>d. Some (db_reward_failed k cause t d)) (db w) ures (db w')"
    using lg.updates by (auto simp: mysql_RewardLedger_def mysql_MarkGlobalMailRewardFailed_def
        db_reward_failed_def Let_def)
qed (auto simp: mysql_RewardLedger_def dest: Reserve_Inr Reserve_Inl)

sublocale gorm \<subseteq> mysql_backpack: backpack_store "mysql_Backpack D" db
  by unfold_locales (auto simp: mysql_Backpack_def dest: GrantBackpack_Inr GrantBackpack_Inl)

context gorm begin

lemma Fetch_Inr:
  assumes "mysql_FetchPending D limit who until w = (Inr evs, w')"
  shows "\<exists>models. fetched limit who until (fst (db_now D w)) models (db w) (db w') \<and>
    evs = map (claimed_event (if who = [] then ''outbox-relay'' else who) until) models"
proof -
  obtain now w1 where now: "db_now D w = (now, w1)" by fastforce
  from assms obtain w2 where
    body: "io_bind (tbl_find_for_update (T_outbox D) (claimable now) obm_EventID (if limit \<le> 0 then 100 else limit)) (\<lambda>models.
          if models = [] then io_return []
          else io_bind (tbl_updates (T_outbox D)
                 (\<lambda>r. obm_EventID r \<in> set (map obm_EventID models))
                 (claim_row (if who = [] then ''outbox-relay'' else who) until now)) (\<lambda>_.
            io_return (map (claimed_event (if who = [] then ''outbox-relay'' else who) until) models))) w1 = (Inr evs, w2)"
    and "db w' = db w2"
    unfolding mysql_FetchPending_def Let_def now prod.case by (rule Transaction_Inr)
  then show ?thesis
    using now_frame [OF now] by (elim claim_body) (auto simp: fetched_def now)
qed

lemma Fetch_Inl:
  assumes "mysql_FetchPending D limit who until w = (Inl e, w')"
  shows "db w' = db w \<or> (\<exists>models. fetched limit who until (fst (db_now D w)) models (db w) (db w'))"
proof -
  let ?who = "if who = [] then ''outbox-relay'' else who"
  let ?body = "\<lambda>now. io_bind (tbl_find_for_update (T_outbox D) (claimable now) obm_EventID (if limit \<le> 0 then 100 else limit)) (\<lambda>models.
          if models = [] then io_return []
          else io_bind (tbl_updates (T_outbox D)
                 (\<lambda>r. obm_EventID r \<in> set (map obm_EventID models)) (claim_row ?who until now)) (\<lambda>_.
            io_return (map (claimed_event ?who until) models)))"
  obtain now w1 where now: "db_now D w = (now, w1)" by fastforce
  have t: "Transaction D (?body now) w1 = (Inl e, w')"
    using assms by (simp add: mysql_FetchPending_def Let_def now)
  obtain r w2 where b: "?body now w1 = (r, w2)" by fastforce
  show ?thesis
  proof (cases r)
    case (Inl e')
    with t b have "db w' = db w1" by (auto simp: Transaction_def rollback)
    with now_frame [OF now] show ?thesis by simp
  next
    case (Inr evs)
    with t b have "db w' = db w1 \<or> db w' = db w2"
      using commit_Inl by (auto simp: Transaction_def split: prod.splits sum.splits)
    moreover have "\<exists>models. fetched limit who until now models (db w) (db w2)"
      using b Inr now_frame [OF now] by (auto simp: fetched_def elim!: claim_body)
    ultimately show ?thesis using now_frame [OF now] now by auto
  qed
qed

lemma MarkFailed_commits:
  assumes wf: "tables_wf (db w)" and "mysql_MarkFailed D eid next cause n w = (ures, w')"
  shows "commits (db_mark_failed eid next cause n (fst (db_now D w))) (db w) ures (db w')"
proof -
  obtain now w1 where now: "db_now D w = (now, w1)" by fastforce
  obtain fr w2 where f: "tbl_first (T_outbox D) (\<lambda>r. obm_EventID r = eid) w1 = (fr, w2)" by fastforce
  have frame: "db w1 = db w" "db w2 = db w" using now_frame [OF now] ob.first_frame [OF f] by auto
  show ?thesis
  proof (cases fr)
    case (Inl e)
    with f assms(2) now frame show ?thesis by (auto simp: mysql_MarkFailed_def io_bind_def)
  next
    case (Inr row)
    with f have row: "row \<in> set (tb_outbox (db w))" "obm_EventID row = eid"
      using ob.first_row [of _ w1] frame(1) by fastforce+
    then have find: "find (\<lambda>r. obm_EventID r = eid) (tb_outbox (db w)) = Some row"
      using wf by (intro find_unique [where key = obm_EventID]) (auto simp: tables_wf_def)
    have upd: "tbl_updates (T_outbox D) (\<lambda>r. obm_EventID r = eid)
        (failed_row next (failure_text cause) now (retry_status n (obm_RetryCount row))) w2 = (ures, w')"
      using assms(2) f Inr now by (simp add: mysql_MarkFailed_def retry_status_def Let_def)
    from ob.updates [OF upd] frame find show ?thesis
      by (auto simp: commits_def db_mark_failed_def now split: sum.splits)
  qed
qed

end

sublocale gorm \<subseteq> mysql_outbox: outbox_store "mysql_Outbox D" db "\<lambda>w. fst (db_now D w)"
proof unfold_locales
  fix eid t w ures w'
  assume "MarkPublished (mysql_Outbox D) eid t w = (ures, w')"
  then show "commits (\<lambda>d. Some (db_mark_published eid t d)) (db w) ures (db w')"
    using ob.updates by (auto simp: mysql_Outbox_def mysql_MarkPublished_def db_mark_published_def)
next
  fix limit who until w evs w'
  assume "FetchPending (mysql_Outbox D) limit who until w = (Inr evs, w')"
  then show "\<exists>models. fetched limit who until (fst (db_now D w)) models (db w) (db w') \<and>
      evs = map (claimed_event (if who = [] then ''outbox-relay'' else who) until) models"
    by (intro Fetch_Inr) (simp add: mysql_Outbox_def)
qed (auto simp: mysql_Outbox_def intro: MarkFailed_commits dest: Fetch_Inl)

section \<open>The rows of a publication\<close>

lemma insert_conditions_rows:
  "insert_all insert_condition cs d = Some d' \<Longrightarrow>
     d' = d\<lparr>tb_condition := tb_condition d @ cs\<rparr> \<and>
     (keys_unique gcm_ConditionID (tb_condition d) \<longrightarrow> keys_unique gcm_ConditionID (tb_condition d'))"
proof (induction cs arbitrary: d)
  case (Cons c cs)
  from Cons.prems obtain d1 where d1: "insert_condition c d = Some d1" "insert_all insert_condition cs d1 = Some d'"
    by (auto simp: bind_eq_Some_conv)
  then have "d1 = d\<lparr>tb_condition := tb_condition d @ [c]\<rparr>"
    "keys_unique gcm_ConditionID (tb_condition d) \<longrightarrow> keys_unique gcm_ConditionID (tb_condition d1)"
    by (auto simp: insert_defs rows_insert_Some keys_unique_def)
  with Cons.IH [OF d1(2)] show ?case by auto
qed simp

text \<open>A publication adds its rows at the end of four tables and touches nothing else.\<close>

lemma db_publish_rows:
  assumes "db_publish mail ev rec d = Some d'"
  shows "d' = d\<lparr>tb_global_mail := tb_global_mail d @ [toGlobalMailModel mail],
      tb_condition := tb_condition d @ map (condition_model mail) (mail_Conditions mail),
      tb_outbox := tb_outbox d @ [toOutboxModel ev],
      tb_idempotency := tb_idempotency d @ (case rec of None \<Rightarrow> [] | Some r \<Rightarrow> [r])\<rparr> \<and>
    mail_ID mail \<notin> gmm_GlobalMailID ` set (tb_global_mail d) \<and>
    ev_ID ev \<notin> obm_EventID ` set (tb_outbox d) \<and>
    (\<forall>r. rec = Some r \<longrightarrow> idm_IdempotencyKey r \<notin> idm_IdempotencyKey ` set (tb_idempotency d)) \<and>
    (tables_wf d \<longrightarrow> tables_wf d')"
proof -
  from assms obtain d1 d2 d3 where
    d1: "insert_mail (toGlobalMailModel mail) d = Some d1" and
    d2: "insert_all insert_condition (map (condition_model mail) (mail_Conditions mail)) d1 = Some d2" and
    d3: "insert_outbox (toOutboxModel ev) d2 = Some d3" and
    d4: "(case rec of None \<Rightarrow> Some d3 | Some r \<Rightarrow> insert_idempotency r d3) = Some d'"
    by (auto simp: db_publish_def bind_eq_Some_conv)
  from d1 have e1: "d1 = d\<lparr>tb_global_mail := tb_global_mail d @ [toGlobalMailModel mail]\<rparr>"
    "mail_ID mail \<notin> gmm_GlobalMailID ` set (tb_global_mail d)"
    by (auto simp: insert_defs rows_insert_Some)
  from d3 have e3: "d3 = d2\<lparr>tb_outbox := tb_outbox d2 @ [toOutboxModel ev]\<rparr>"
    "ev_ID ev \<notin> obm_EventID ` set (tb_outbox d2)"
    by (auto simp: insert_defs rows_insert_Some)
  from d4 have e4: "d' = d3\<lparr>tb_idempotency := tb_idempotency d3 @ (case rec of None \<Rightarrow> [] | Some r \<Rightarrow> [r])\<rparr>"
    "\<forall>r. rec = Some r \<longrightarrow> idm_IdempotencyKey r \<notin> idm_IdempotencyKey ` set (tb_idempotency d3)"
    by (auto simp: insert_defs rows_insert_Some split: option.splits)
  note e2 = insert_conditions_rows [OF d2, THEN conjunct1] insert_conditions_rows [OF d2, THEN conjunct2]
  have "keys_unique gmm_GlobalMailID (tb_global_mail d) \<longrightarrow> keys_unique gmm_GlobalMailID (tb_global_mail d1)"
    using e1 by (auto simp: keys_unique_def)
  moreover have "keys_unique obm_EventID (tb_outbox d2) \<longrightarrow> keys_unique obm_EventID (tb_outbox d3)"
    using e3 by (auto simp: keys_unique_def)
  moreover have "keys_unique idm_IdempotencyKey (tb_idempotency d3) \<longrightarrow>
      keys_unique idm_IdempotencyKey (tb_idempotency d')"
    using e4 by (cases "rec") (auto simp: keys_unique_def)
  ultimately show ?thesis using e1 e2 e3 e4 by (simp add: tables_wf_def)
qed

section \<open>What the database leaves alone\<close>

text \<open>The driver does not touch a view of the rest of the world.\<close>

definition table_keeps :: "('w \<Rightarrow> 'v) \<Rightarrow> ('r, 'w) table \<Rightarrow> bool" where
  "table_keeps v T \<longleftrightarrow> (\<forall>r. keeps v (tbl_create T r)) \<and> (\<forall>r. keeps v (tbl_create_ignore T r)) \<and>
     (\<forall>r as. keeps v (tbl_upsert T r as)) \<and> (\<forall>P. keeps v (tbl_first T P)) \<and>
     (\<forall>P. keeps v (tbl_find T P)) \<and> (\<forall>P ord n. keeps v (tbl_find_for_update T P ord n)) \<and>
     (\<forall>P f. keeps v (tbl_updates T P f))"

definition gorm_keeps :: "('w \<Rightarrow> 'v) \<Rightarrow> 'w gorm_db \<Rightarrow> bool" where
  "gorm_keeps v D \<longleftrightarrow> table_keeps v (T_global_mail D) \<and> table_keeps v (T_condition D) \<and>
     table_keeps v (T_state D) \<and> table_keeps v (T_ledger D) \<and> table_keeps v (T_backpack D) \<and>
     table_keeps v (T_outbox D) \<and> table_keeps v (T_idempotency D) \<and>
     (\<forall>w0. keeps v (tx_commit D w0)) \<and> (\<forall>w0 w1. v (tx_rollback D w0 w1) = v w1) \<and> keeps v (db_now D)"

lemma table_keepsD:
  assumes "table_keeps v T"
  shows "keeps v (tbl_create T r)" "keeps v (tbl_create_ignore T r)" "keeps v (tbl_upsert T r as)"
    "keeps v (tbl_first T P)" "keeps v (tbl_find T P)" "keeps v (tbl_find_for_update T P ord n)"
    "keeps v (tbl_updates T P f)"
  using assms by (simp_all add: table_keeps_def)

lemma gorm_keepsD:
  assumes "gorm_keeps v D"
  shows "table_keeps v (T_global_mail D)" "table_keeps v (T_condition D)" "table_keeps v (T_state D)"
    "table_keeps v (T_ledger D)" "table_keeps v (T_backpack D)" "table_keeps v (T_outbox D)"
    "table_keeps v (T_idempotency D)" "keeps v (tx_commit D w0)" "v (tx_rollback D w0 w1) = v w1"
    "keeps v (db_now D)"
  using assms by (simp_all add: gorm_keeps_def)

lemma keeps_Transaction:
  assumes "gorm_keeps v D" "keeps v body"
  shows "keeps v (Transaction D body)"
proof (rule keepsI)
  fix w r w'
  assume t: "Transaction D body w = (r, w')"
  obtain br w1 where b: "body w = (br, w1)" by fastforce
  obtain cr w2 where c: "tx_commit D w w1 = (cr, w2)" by fastforce
  show "v w' = v w"
    using t b c keepsD [OF assms(2) b] keepsD [OF gorm_keepsD(8) [OF assms(1)] c]
      gorm_keepsD(9) [OF assms(1), of w w1]
    by (auto simp: Transaction_def split: sum.splits)
qed

text \<open>The operations that the relay uses.\<close>

lemma keeps_mysql_relay:
  assumes "gorm_keeps v D"
  shows "keeps v (mysql_FetchPending D limit who until)" "keeps v (mysql_MarkPublished D eid t)"
    "keeps v (mysql_MarkFailed D eid next cause n)" "keeps v (mysql_GetGlobalMailByID D i)"
proof -
  note T = table_keepsD [OF gorm_keepsD(6) [OF assms]]
  note now = keepsD [OF gorm_keepsD(10) [OF assms]]
  show "keeps v (mysql_MarkPublished D eid t)"
    unfolding mysql_MarkPublished_def by (rule T)
  show "keeps v (mysql_FetchPending D limit who until)"
  proof (rule keepsI)
    fix w r w'
    assume f: "mysql_FetchPending D limit who until w = (r, w')"
    obtain t w1 where t: "db_now D w = (t, w1)" by fastforce
    let ?who = "if who = [] then ''outbox-relay'' else who"
    have "keeps v (Transaction D (
          io_bind (tbl_find_for_update (T_outbox D) (claimable t) obm_EventID (if limit \<le> 0 then 100 else limit)) (\<lambda>models.
          if models = [] then io_return []
          else io_bind (tbl_updates (T_outbox D) (\<lambda>r. obm_EventID r \<in> set (map obm_EventID models))
                         (claim_row ?who until t)) (\<lambda>_. io_return (map (claimed_event ?who until) models)))))"
      by (intro keeps_Transaction [OF assms] keeps_bind T) (auto intro: keeps_bind T)
    from keepsD [OF this, of w1] f now [OF t] show "v w' = v w"
      by (simp add: mysql_FetchPending_def t Let_def)
  qed
  show "keeps v (mysql_MarkFailed D eid next cause n)"
  proof (rule keepsI)
    fix w r w'
    assume f: "mysql_MarkFailed D eid next cause n w = (r, w')"
    obtain t w1 where t: "db_now D w = (t, w1)" by fastforce
    let ?m = "io_bind (tbl_first (T_outbox D) (\<lambda>r. obm_EventID r = eid)) (\<lambda>model.
          tbl_updates (T_outbox D) (\<lambda>r. obm_EventID r = eid)
               (failed_row next (failure_text cause) t
                 (if wrap64 (obm_RetryCount model + 1) \<ge> (if n \<le> 0 then 5 else n)
                        then OutboxStatusFailed else OutboxStatusPending)))"
    have "keeps v ?m" by (intro keeps_bind T)
    from keepsD [OF this, of w1] f now [OF t] show "v w' = v w"
      by (simp add: mysql_MarkFailed_def t Let_def)
  qed
  show "keeps v (mysql_GetGlobalMailByID D i)"
  proof (rule keepsI)
    fix w r w'
    assume f: "mysql_GetGlobalMailByID D i w = (r, w')"
    obtain m w1 where m: "tbl_first (T_global_mail D) (\<lambda>r. gmm_GlobalMailID r = i) w = (m, w1)" by fastforce
    note first = keepsD [OF table_keepsD(4) [OF gorm_keepsD(1) [OF assms]] m]
    note find = keepsD [OF table_keepsD(5) [OF gorm_keepsD(2) [OF assms]]]
    show "v w' = v w"
      using f m first by (auto simp: mysql_GetGlobalMailByID_def io_bind_def
          split: sum.splits if_splits prod.splits dest: find)
  qed
qed

end
