(* ===== verification/Rpc_Types.thy ===== *)
theory Rpc_Types
  imports Prelude
begin

text \<open>
  The protobuf messages of \<^verbatim>\<open>api/rpc\<close> that the services exchange, as the generated Go structs
  have them: a message field that is a pointer is an option, a getter of a nil message
  returns the zero value. An \<^verbatim>\<open>anypb.Any\<close> is a type name and the encoded bytes.
\<close>

record any_message =
  any_TypeUrl :: string
  any_Value :: string

definition COMMAND_ID_UNSPECIFIED :: int where "COMMAND_ID_UNSPECIFIED = 0"
definition COMMAND_ID_MAIL_LIST_GLOBAL :: int where "COMMAND_ID_MAIL_LIST_GLOBAL = 1001"
definition COMMAND_ID_MAIL_MARK_READ :: int where "COMMAND_ID_MAIL_MARK_READ = 1002"
definition COMMAND_ID_MAIL_CLAIM :: int where "COMMAND_ID_MAIL_CLAIM = 1003"
definition COMMAND_ID_MAIL_DELETE :: int where "COMMAND_ID_MAIL_DELETE = 1004"

lemmas command_id_defs = COMMAND_ID_UNSPECIFIED_def COMMAND_ID_MAIL_LIST_GLOBAL_def
  COMMAND_ID_MAIL_MARK_READ_def COMMAND_ID_MAIL_CLAIM_def COMMAND_ID_MAIL_DELETE_def

record CommandRequest =
  req_CommandId :: int
  req_Uid :: int
  req_RoleId :: int
  req_ServerId :: int
  req_Seq :: int
  req_Payload :: "any_message option"

record CommandResponse =
  resp_CommandId :: int
  resp_Seq :: int
  resp_Code :: int
  resp_Message :: string
  resp_Payload :: "any_message option"

record CommandDefinition =
  cdef_CommandId :: int
  cdef_Name :: string
  cdef_RequestType :: string
  cdef_ResponseType :: string

record LoginRequest =
  lreq_Uid :: int
  lreq_ServerId :: int

record LoginResponse =
  lres_Token :: string
  lres_Uid :: int
  lres_RoleId :: int
  lres_ServerId :: int
  lres_IsNewUser :: bool
  lres_ExpireAt :: string

end
