(* ===== verification/Redis_Repository.thy ===== *)
theory Redis_Repository
  imports Ports Rpc_Types
begin

text \<open>
  The Redis repository (\<^verbatim>\<open>data/redis/repository.go\<close>, \<^verbatim>\<open>data/redis/routing.go\<close>). The client
  library go-redis and the server are the parameter \<open>C\<close>, a record with one function per
  command the code issues; the protobuf codec is the pair of parameters \<open>marshal\<close> and
  \<open>unmarshal\<close>. The two Lua scripts of the source are functions from the current value of
  their key to what they do and return.
\<close>

section \<open>The commands of Redis\<close>

text \<open>A stored string is text or JSON.\<close>

datatype rbytes = BText string | BJson json

datatype pipe_cmd =
    ZAdd string int string           \<comment> \<open>key, score, member\<close>
  | SAdd string "string list"
  | Del string
  | HSet string "(string \<times> string) list"
  | Expire string duration

text \<open>What a script does to its key, after it has read it.\<close>

datatype lua_effect = LuaKeep | LuaSet rbytes | LuaDel

record 'w redis_client =
  rd_get :: "string \<Rightarrow> ('w, rbytes) io"
  rd_set :: "string \<Rightarrow> rbytes \<Rightarrow> duration \<Rightarrow> ('w, unit) io"
  rd_setnx :: "string \<Rightarrow> rbytes \<Rightarrow> duration \<Rightarrow> ('w, bool) io"
  rd_incr :: "string \<Rightarrow> ('w, int) io"
  rd_del :: "string \<Rightarrow> ('w, unit) io"
  rd_eval :: "string \<Rightarrow> (rbytes option \<Rightarrow> error + lua_effect \<times> int) \<Rightarrow> ('w, int) io"
  rd_zrangebyscore :: "string \<Rightarrow> int \<Rightarrow> ('w, string list) io"   \<comment> \<open>from a least score to \<^verbatim>\<open>+inf\<close>\<close>
  rd_smembers :: "string \<Rightarrow> ('w, string list) io"
  rd_hmget :: "string \<Rightarrow> string list \<Rightarrow> ('w, string option list) io"
  rd_exec :: "pipe_cmd list \<Rightarrow> ('w, unit) io"                   \<comment> \<open>\<^verbatim>\<open>TxPipeline\<close> and \<^verbatim>\<open>Exec\<close>\<close>
  rd_clock :: "'w clock"                                      \<comment> \<open>\<^verbatim>\<open>time.Now()\<close> of the process\<close>

text \<open>\<^verbatim>\<open>Repository\<close>: the client and the key prefix.\<close>

record 'w redis_repo =
  rr_client :: "'w redis_client"
  rr_prefix :: string

section \<open>Keys\<close>

definition redis_key :: "string \<Rightarrow> string \<Rightarrow> string" where
  "redis_key prefix name = prefix @ name"

definition globalMailKey :: "string \<Rightarrow> int \<Rightarrow> string" where
  "globalMailKey prefix mailID = prefix @ ''GlobalMail:'' @ show_int mailID"

definition globalMailByServerKey :: "string \<Rightarrow> int \<Rightarrow> string" where
  "globalMailByServerKey prefix serverID = prefix @ ''GlobalMailByServer:'' @ show_int serverID"

definition userProfileKey :: "string \<Rightarrow> int \<Rightarrow> string" where
  "userProfileKey prefix roleID = prefix @ ''MailUserProfile:'' @ show_int roleID"

definition globalMailRebuildLockKey :: "string \<Rightarrow> int \<Rightarrow> string" where
  "globalMailRebuildLockKey prefix version = prefix @ ''GlobalMailRebuildLock:'' @ show_int version"

definition redis_commandIdempotencyKey :: "string \<Rightarrow> string \<Rightarrow> string" where
  "redis_commandIdempotencyKey prefix key = prefix @ ''CommandIdempotency:'' @ key"

definition loginTokenKey :: "string \<Rightarrow> string \<Rightarrow> string" where
  "loginTokenKey prefix token = prefix @ ''DBLoginToken:'' @ token"

definition gateConnKey :: "string \<Rightarrow> int \<Rightarrow> string" where
  "gateConnKey prefix uid = prefix @ ''DBGateConn:'' @ show_int uid"

definition srvRouterKey :: "string \<Rightarrow> int \<Rightarrow> string" where
  "srvRouterKey prefix uid = prefix @ ''DBSrvRouter:'' @ show_int uid"

section \<open>The version counter\<close>

text \<open>\<^verbatim>\<open>Get(...).Int64()\<close>\<close>

fun bytes_int :: "rbytes \<Rightarrow> error + int" where
  "bytes_int (BText s) = (case parse_int s of
       None \<Rightarrow> Inl (ErrorNew ''strconv.ParseInt: parsing: invalid syntax'') | Some n \<Rightarrow> Inr n)"
| "bytes_int (BJson j) = Inl (ErrorNew ''strconv.ParseInt: parsing: invalid syntax'')"

definition redis_GetGlobalMailVersion :: "'w redis_repo \<Rightarrow> ('w, int) io" where
  "redis_GetGlobalMailVersion r = (\<lambda>w.
     case rd_get (rr_client r) (redis_key (rr_prefix r) ''GlobalMailVersion'') w of
       (Inl e, w1) \<Rightarrow> if e = RedisNil then (Inr 0, w1) else (Inl e, w1)
     | (Inr b, w1) \<Rightarrow> (bytes_int b, w1))"

definition redis_IncrementGlobalMailVersion :: "'w redis_repo \<Rightarrow> ('w, int) io" where
  "redis_IncrementGlobalMailVersion r =
     rd_incr (rr_client r) (redis_key (rr_prefix r) ''GlobalMailVersion'')"

text \<open>
  The script of \<^verbatim>\<open>AdvanceGlobalMailVersion\<close>: the current value, 0 when the key does not exist,
  is replaced by the target when it is smaller. Lua computes in doubles, which hold the integers up to \<open>2 ^ 53\<close> exactly; the
  definition is meant for versions in this range.
\<close>

definition advance_script :: "int \<Rightarrow> rbytes option \<Rightarrow> error + lua_effect \<times> int" where
  "advance_script target cur =
     (case (case cur of None \<Rightarrow> Inr 0 | Some b \<Rightarrow> bytes_int b) of
        Inl e \<Rightarrow> Inl (ExternalError ''attempt to compare nil with number'')
      | Inr current \<Rightarrow>
          if current < target then Inr (LuaSet (BText (show_int target)), target)
          else Inr (LuaKeep, current))"

definition redis_AdvanceGlobalMailVersion :: "'w redis_repo \<Rightarrow> int \<Rightarrow> ('w, int) io" where
  "redis_AdvanceGlobalMailVersion r targetVersion =
     rd_eval (rr_client r) (redis_key (rr_prefix r) ''GlobalMailVersion'') (advance_script targetVersion)"

section \<open>Mails and indexes\<close>

fun bytes_raw :: "rbytes \<Rightarrow> raw_message" where
  "bytes_raw (BJson j) = RawValid j"
| "bytes_raw (BText s) = RawInvalid s"

text \<open>\<^verbatim>\<open>Get(...).Bytes()\<close>, \<^verbatim>\<open>goredis.Nil\<close> as "not found", and \<^verbatim>\<open>json.Unmarshal\<close> of the payload.\<close>

definition get_json :: "'w redis_client \<Rightarrow> (json \<Rightarrow> error + 'a) \<Rightarrow> string \<Rightarrow> ('w, 'a option) io" where
  "get_json C decode key = (\<lambda>w.
     case rd_get C key w of
       (Inl e, w1) \<Rightarrow> if e = RedisNil then (Inr None, w1) else (Inl e, w1)
     | (Inr b, w1) \<Rightarrow> (case Unmarshal decode (bytes_raw b) of
           Inl e \<Rightarrow> (Inl e, w1) | Inr x \<Rightarrow> (Inr (Some x), w1)))"

definition redis_GetGlobalMail :: "'w redis_repo \<Rightarrow> int \<Rightarrow> ('w, GlobalMail option) io" where
  "redis_GetGlobalMail r mailID =
     get_json (rr_client r) unmarshal_mail (globalMailKey (rr_prefix r) mailID)"

definition redis_SetGlobalMail :: "'w redis_repo \<Rightarrow> GlobalMail \<Rightarrow> ('w, unit) io" where
  "redis_SetGlobalMail r mail = (\<lambda>w.
     case marshal_mail mail of
       Inl e \<Rightarrow> (Inl e, w)
     | Inr payload \<Rightarrow>
         let (now, w1) = rd_clock (rr_client r) w;
             until = time_sub (mail_ExpireTime mail) now;
             ttl = wrap64 ((if until \<le> 0 then time_hour else until) + 10 * time_minute)
         in rd_set (rr_client r) (globalMailKey (rr_prefix r) (mail_ID mail)) (BJson payload) ttl w1)"

text \<open>\<^verbatim>\<open>fmt.Sscan(member, &id)\<close> of the decimal numbers that the repository writes.\<close>

fun scan_ids :: "string list \<Rightarrow> error + int list" where
  "scan_ids [] = Inr []"
| "scan_ids (m # ms) = (case parse_int m of
       None \<Rightarrow> Inl (ErrorNew ''expected integer'')
     | Some i \<Rightarrow> res_bind (scan_ids ms) (\<lambda>is. Inr (i # is)))"

definition redis_GetActiveGlobalMailIDs :: "'w redis_repo \<Rightarrow> go_time \<Rightarrow> ('w, int list) io" where
  "redis_GetActiveGlobalMailIDs r now =
     io_bind (rd_zrangebyscore (rr_client r) (redis_key (rr_prefix r) ''GlobalMailActiveIndex'') (Unix now))
       (\<lambda>members w. (scan_ids members, w))"

fun serverIDsFromConditions :: "Condition list \<Rightarrow> int list" where
  "serverIDsFromConditions [] = []"
| "serverIDsFromConditions (c # cs) =
     (if cond_Type c \<noteq> ''server'' \<and> cond_Type c \<noteq> ''server_id'' then serverIDsFromConditions cs
      else case Unmarshal (decode_list decode_int) (cond_Value c) of
        Inr ids \<Rightarrow> ids @ serverIDsFromConditions cs
      | Inl _ \<Rightarrow> (case Unmarshal decode_int (cond_Value c) of
            Inr i \<Rightarrow> i # serverIDsFromConditions cs
          | Inl _ \<Rightarrow> serverIDsFromConditions cs))"

definition index_commands :: "string \<Rightarrow> GlobalMail \<Rightarrow> pipe_cmd list" where
  "index_commands prefix mail =
     ZAdd (redis_key prefix ''GlobalMailActiveIndex'') (Unix (mail_ExpireTime mail)) (show_int (mail_ID mail)) #
     map (\<lambda>serverID. SAdd (globalMailByServerKey prefix serverID) [show_int (mail_ID mail)])
       (serverIDsFromConditions (mail_Conditions mail))"

definition redis_AddGlobalMailToIndexes :: "'w redis_repo \<Rightarrow> GlobalMail \<Rightarrow> ('w, unit) io" where
  "redis_AddGlobalMailToIndexes r mail = rd_exec (rr_client r) (index_commands (rr_prefix r) mail)"

definition redis_GetGlobalMailsByServer :: "'w redis_repo \<Rightarrow> int \<Rightarrow> ('w, int list) io" where
  "redis_GetGlobalMailsByServer r serverID =
     io_bind (rd_smembers (rr_client r) (globalMailByServerKey (rr_prefix r) serverID))
       (\<lambda>members w. (scan_ids members, w))"

definition redis_SetGlobalMailsByServer :: "'w redis_repo \<Rightarrow> int \<Rightarrow> int list \<Rightarrow> ('w, unit) io" where
  "redis_SetGlobalMailsByServer r serverID mailIDs =
     (let key = globalMailByServerKey (rr_prefix r) serverID
      in rd_exec (rr_client r)
           (Del key # (if mailIDs = [] then [] else [SAdd key (map show_int mailIDs)])))"

section \<open>Profiles\<close>

definition marshal_profile :: "UserProfile \<Rightarrow> error + json" where
  "marshal_profile p = enc_struct
    [fld ''role_id'' (Inr (JInt (prof_RoleID p))),
     fld ''uid'' (Inr (JInt (prof_UID p))),
     fld ''server_id'' (Inr (JInt (prof_ServerID p))),
     fld ''register_time'' (enc_time (prof_RegisterTime p)),
     fld ''vip_level'' (Inr (JInt (prof_VIPLevel p))),
     fld ''total_recharge'' (Inr (JInt (prof_TotalRecharge p))),
     fld ''corps_level'' (Inr (JInt (prof_CorpsLevel p))),
     fld ''open_days'' (Inr (JInt (prof_OpenDays p))),
     fld ''package_type'' (Inr (JStr (prof_PackageType p))),
     fld ''country'' (Inr (JStr (prof_Country p)))]"

definition zero_profile :: UserProfile where
  "zero_profile = \<lparr>prof_RoleID = 0, prof_UID = 0, prof_ServerID = 0, prof_RegisterTime = 0,
     prof_VIPLevel = 0, prof_TotalRecharge = 0, prof_CorpsLevel = 0, prof_OpenDays = 0,
     prof_PackageType = [], prof_Country = []\<rparr>"

fun unmarshal_profile :: "json \<Rightarrow> error + UserProfile" where
  "unmarshal_profile JNull = Inr zero_profile"
| "unmarshal_profile (JObj kvs) =
    res_bind (decode_int (json_field ''role_id'' kvs)) (\<lambda>role.
    res_bind (decode_int (json_field ''uid'' kvs)) (\<lambda>uid.
    res_bind (decode_int (json_field ''server_id'' kvs)) (\<lambda>server.
    res_bind (decode_time (json_field ''register_time'' kvs)) (\<lambda>reg.
    res_bind (decode_int (json_field ''vip_level'' kvs)) (\<lambda>vip.
    res_bind (decode_int (json_field ''total_recharge'' kvs)) (\<lambda>rech.
    res_bind (decode_int (json_field ''corps_level'' kvs)) (\<lambda>corps.
    res_bind (decode_int (json_field ''open_days'' kvs)) (\<lambda>days.
    res_bind (decode_string (json_field ''package_type'' kvs)) (\<lambda>pkg.
    res_bind (decode_string (json_field ''country'' kvs)) (\<lambda>country.
      Inr \<lparr>prof_RoleID = role, prof_UID = uid, prof_ServerID = server, prof_RegisterTime = reg,
        prof_VIPLevel = vip, prof_TotalRecharge = rech, prof_CorpsLevel = corps,
        prof_OpenDays = days, prof_PackageType = pkg, prof_Country = country\<rparr>))))))))))"
| "unmarshal_profile _ = Inl json_type_error"

definition redis_GetUserProfile :: "'w redis_repo \<Rightarrow> int \<Rightarrow> ('w, UserProfile option) io" where
  "redis_GetUserProfile r roleID =
     get_json (rr_client r) unmarshal_profile (userProfileKey (rr_prefix r) roleID)"

definition redis_SetUserProfile :: "'w redis_repo \<Rightarrow> UserProfile \<Rightarrow> duration \<Rightarrow> ('w, unit) io" where
  "redis_SetUserProfile r profile ttl = (\<lambda>w.
     case marshal_profile profile of
       Inl e \<Rightarrow> (Inl e, w)
     | Inr payload \<Rightarrow> rd_set (rr_client r) (userProfileKey (rr_prefix r) (prof_RoleID profile))
         (BJson payload) (if ttl \<le> 0 then 5 * time_minute else ttl) w)"

section \<open>The rebuild lock\<close>

text \<open>The script of the release: delete the key if it still holds the token.\<close>

definition release_script :: "string \<Rightarrow> rbytes option \<Rightarrow> error + lua_effect \<times> int" where
  "release_script token cur =
     (if cur = Some (BText token) then Inr (LuaDel, 1) else Inr (LuaKeep, 0))"

definition redis_TryAcquireGlobalMailRebuildLock ::
  "'w redis_repo \<Rightarrow> int \<Rightarrow> duration \<Rightarrow> ('w, ('w, unit) io \<times> bool) io" where
  "redis_TryAcquireGlobalMailRebuildLock r version ttl = (\<lambda>w.
     let ttl = (if ttl \<le> 0 then 30 * time_second else ttl);
         key = globalMailRebuildLockKey (rr_prefix r) version;
         (now, w1) = rd_clock (rr_client r) w;
         token = show_int (wrap64 (now - 62135596800 * time_second))
     in case rd_setnx (rr_client r) key (BText token) ttl w1 of
          (Inl e, w2) \<Rightarrow> (Inl e, w2)
        | (Inr acquired, w2) \<Rightarrow>
            if \<not> acquired then (Inr (io_return (), False), w2)
            else (Inr (io_bind (rd_eval (rr_client r) key (release_script token)) (\<lambda>_. io_return ()),
                       True), w2))"

section \<open>Command idempotency\<close>

definition redis_GetCommandIdempotency ::
  "(string \<Rightarrow> error + CommandResponse) \<Rightarrow> 'w redis_repo \<Rightarrow> string \<Rightarrow>
   ('w, (string \<times> CommandResponse) option) io" where
  "redis_GetCommandIdempotency unmarshal r key =
     io_bind (rd_hmget (rr_client r) (redis_commandIdempotencyKey (rr_prefix r) key) [''hash'', ''response''])
       (\<lambda>values. case values of
          [Some hash, Some payload] \<Rightarrow> (\<lambda>w. (case unmarshal payload of
              Inl e \<Rightarrow> Inl e | Inr response \<Rightarrow> Inr (Some (hash, response)), w))
        | _ \<Rightarrow> io_return None)"

definition redis_SaveCommandIdempotency ::
  "(CommandResponse \<Rightarrow> error + string) \<Rightarrow> 'w redis_repo \<Rightarrow> string \<Rightarrow> string \<Rightarrow> CommandResponse \<Rightarrow>
   duration \<Rightarrow> ('w, unit) io" where
  "redis_SaveCommandIdempotency marshal r key requestHash response ttl = (\<lambda>w.
     case marshal response of
       Inl e \<Rightarrow> (Inl e, w)
     | Inr payload \<Rightarrow>
         let ttl = (if ttl \<le> 0 then 10 * time_minute else ttl);
             redisKey = redis_commandIdempotencyKey (rr_prefix r) key
         in rd_exec (rr_client r)
              [HSet redisKey [(''hash'', requestHash), (''response'', payload)], Expire redisKey ttl] w)"

section \<open>The repository as the interfaces of the domain\<close>

definition redis_CacheRepository :: "'w redis_repo \<Rightarrow> 'w CacheRepository" where
  "redis_CacheRepository r = \<lparr>
     GetGlobalMailVersion = redis_GetGlobalMailVersion r,
     IncrementGlobalMailVersion = redis_IncrementGlobalMailVersion r,
     AdvanceGlobalMailVersion = redis_AdvanceGlobalMailVersion r,
     GetGlobalMail = redis_GetGlobalMail r,
     SetGlobalMail = redis_SetGlobalMail r,
     GetActiveGlobalMailIDs = redis_GetActiveGlobalMailIDs r,
     AddGlobalMailToIndexes = redis_AddGlobalMailToIndexes r,
     GetGlobalMailsByServer = redis_GetGlobalMailsByServer r,
     SetGlobalMailsByServer = redis_SetGlobalMailsByServer r,
     GetUserProfile = redis_GetUserProfile r\<rparr>"

definition redis_CacheRebuildLocker :: "'w redis_repo \<Rightarrow> 'w CacheRebuildLocker" where
  "redis_CacheRebuildLocker r =
     \<lparr>TryAcquireGlobalMailRebuildLock = redis_TryAcquireGlobalMailRebuildLock r\<rparr>"

end
