(* ===== verification/Redis_Routing.thy ===== *)
theory Redis_Routing
  imports Redis_Repository
begin

text \<open>
  Login tokens, gateway connections and service routes (\<^verbatim>\<open>domain/routing/types.go\<close>), their JSON
  form, and the part of the Redis repository that keeps them (\<^verbatim>\<open>data/redis/routing.go\<close>).
\<close>

section \<open>The data\<close>

record LoginToken =
  lt_Token :: string
  lt_UID :: int
  lt_RoleID :: int
  lt_ServerID :: int
  lt_ExpireAt :: go_time

record GateConn =
  gc_UID :: int
  gc_GatewayAddr :: string
  gc_ClientIP :: string
  gc_ConnID :: string
  gc_ConnTime :: go_time
  gc_LastActiveTime :: go_time
  gc_DeviceID :: string
  gc_ExpireAt :: go_time

record SrvRouter =
  sr_UID :: int
  sr_SrvName :: string
  sr_InstanceID :: string
  sr_FrpcAddr :: string
  sr_GrpcAddr :: string
  sr_Version :: int
  sr_ExpireAt :: go_time

definition marshal_login_token :: "LoginToken \<Rightarrow> error + json" where
  "marshal_login_token t = enc_struct
    [fld ''token'' (Inr (JStr (lt_Token t))),
     fld ''uid'' (Inr (JInt (lt_UID t))),
     fld ''role_id'' (Inr (JInt (lt_RoleID t))),
     fld ''server_id'' (Inr (JInt (lt_ServerID t))),
     fld ''expire_at'' (enc_time (lt_ExpireAt t))]"

fun unmarshal_login_token :: "json \<Rightarrow> error + LoginToken" where
  "unmarshal_login_token JNull = Inr \<lparr>lt_Token = [], lt_UID = 0, lt_RoleID = 0, lt_ServerID = 0,
     lt_ExpireAt = 0\<rparr>"
| "unmarshal_login_token (JObj kvs) =
    res_bind (decode_string (json_field ''token'' kvs)) (\<lambda>tok.
    res_bind (decode_int (json_field ''uid'' kvs)) (\<lambda>uid.
    res_bind (decode_int (json_field ''role_id'' kvs)) (\<lambda>role.
    res_bind (decode_int (json_field ''server_id'' kvs)) (\<lambda>server.
    res_bind (decode_time (json_field ''expire_at'' kvs)) (\<lambda>at.
      Inr \<lparr>lt_Token = tok, lt_UID = uid, lt_RoleID = role, lt_ServerID = server,
           lt_ExpireAt = at\<rparr>)))))"
| "unmarshal_login_token _ = Inl json_type_error"

definition marshal_gate_conn :: "GateConn \<Rightarrow> error + json" where
  "marshal_gate_conn c = enc_struct
    [fld ''uid'' (Inr (JInt (gc_UID c))),
     fld ''gateway_addr'' (Inr (JStr (gc_GatewayAddr c))),
     fld ''client_ip'' (Inr (JStr (gc_ClientIP c))),
     fld ''conn_id'' (Inr (JStr (gc_ConnID c))),
     fld ''conn_time'' (enc_time (gc_ConnTime c)),
     fld ''last_active_time'' (enc_time (gc_LastActiveTime c)),
     fld ''device_id'' (Inr (JStr (gc_DeviceID c))),
     fld ''expire_at'' (enc_time (gc_ExpireAt c))]"

fun unmarshal_gate_conn :: "json \<Rightarrow> error + GateConn" where
  "unmarshal_gate_conn JNull = Inr \<lparr>gc_UID = 0, gc_GatewayAddr = [], gc_ClientIP = [], gc_ConnID = [],
     gc_ConnTime = 0, gc_LastActiveTime = 0, gc_DeviceID = [], gc_ExpireAt = 0\<rparr>"
| "unmarshal_gate_conn (JObj kvs) =
    res_bind (decode_int (json_field ''uid'' kvs)) (\<lambda>uid.
    res_bind (decode_string (json_field ''gateway_addr'' kvs)) (\<lambda>gw.
    res_bind (decode_string (json_field ''client_ip'' kvs)) (\<lambda>ip.
    res_bind (decode_string (json_field ''conn_id'' kvs)) (\<lambda>cid.
    res_bind (decode_time (json_field ''conn_time'' kvs)) (\<lambda>ct.
    res_bind (decode_time (json_field ''last_active_time'' kvs)) (\<lambda>la.
    res_bind (decode_string (json_field ''device_id'' kvs)) (\<lambda>dev.
    res_bind (decode_time (json_field ''expire_at'' kvs)) (\<lambda>at.
      Inr \<lparr>gc_UID = uid, gc_GatewayAddr = gw, gc_ClientIP = ip, gc_ConnID = cid,
           gc_ConnTime = ct, gc_LastActiveTime = la, gc_DeviceID = dev, gc_ExpireAt = at\<rparr>))))))))"
| "unmarshal_gate_conn _ = Inl json_type_error"

definition marshal_srv_router :: "SrvRouter \<Rightarrow> error + json" where
  "marshal_srv_router s = enc_struct
    [fld ''uid'' (Inr (JInt (sr_UID s))),
     fld ''srv_name'' (Inr (JStr (sr_SrvName s))),
     fld ''instance_id'' (Inr (JStr (sr_InstanceID s))),
     fld ''frpc_addr'' (Inr (JStr (sr_FrpcAddr s))),
     fld ''grpc_addr'' (Inr (JStr (sr_GrpcAddr s))),
     fld ''version'' (Inr (JInt (sr_Version s))),
     fld ''expire_at'' (enc_time (sr_ExpireAt s))]"

fun unmarshal_srv_router :: "json \<Rightarrow> error + SrvRouter" where
  "unmarshal_srv_router JNull = Inr \<lparr>sr_UID = 0, sr_SrvName = [], sr_InstanceID = [], sr_FrpcAddr = [],
     sr_GrpcAddr = [], sr_Version = 0, sr_ExpireAt = 0\<rparr>"
| "unmarshal_srv_router (JObj kvs) =
    res_bind (decode_int (json_field ''uid'' kvs)) (\<lambda>uid.
    res_bind (decode_string (json_field ''srv_name'' kvs)) (\<lambda>srv.
    res_bind (decode_string (json_field ''instance_id'' kvs)) (\<lambda>inst.
    res_bind (decode_string (json_field ''frpc_addr'' kvs)) (\<lambda>frpc.
    res_bind (decode_string (json_field ''grpc_addr'' kvs)) (\<lambda>grpc.
    res_bind (decode_int (json_field ''version'' kvs)) (\<lambda>ver.
    res_bind (decode_time (json_field ''expire_at'' kvs)) (\<lambda>at.
      Inr \<lparr>sr_UID = uid, sr_SrvName = srv, sr_InstanceID = inst, sr_FrpcAddr = frpc,
           sr_GrpcAddr = grpc, sr_Version = ver, sr_ExpireAt = at\<rparr>)))))))"
| "unmarshal_srv_router _ = Inl json_type_error"

text \<open>What is written is read back, when the integers are in the range of their Go types.\<close>

lemma login_token_roundtrip:
  assumes "marshal_login_token t = Inr j" "in_int64 (lt_UID t)" "in_int64 (lt_RoleID t)"
    "in_int64 (lt_ServerID t)"
  shows "unmarshal_login_token j = Inr t"
  using assms
  by (auto simp: marshal_login_token_def enc_struct_def fld_def res_bind_eq_Inr enc_time_def
      json_lookup split: if_splits)

lemma gate_conn_roundtrip:
  assumes "marshal_gate_conn c = Inr j" "in_int64 (gc_UID c)"
  shows "unmarshal_gate_conn j = Inr c"
  using assms
  by (auto simp: marshal_gate_conn_def enc_struct_def fld_def res_bind_eq_Inr enc_time_def
      json_lookup split: if_splits)

lemma srv_router_roundtrip:
  assumes "marshal_srv_router s = Inr j" "in_int64 (sr_UID s)" "in_int64 (sr_Version s)"
  shows "unmarshal_srv_router j = Inr s"
  using assms
  by (auto simp: marshal_srv_router_def enc_struct_def fld_def res_bind_eq_Inr enc_time_def
      json_lookup split: if_splits)

section \<open>The operations\<close>

text \<open>
  \<^verbatim>\<open>if ttl <= 0 { ttl = time.Until(expireAt) }; if ttl <= 0 { ttl = time.Minute }\<close>: the clock is
  read only when no positive time to live was given.
\<close>

definition entry_ttl :: "'w redis_client \<Rightarrow> duration \<Rightarrow> go_time \<Rightarrow> 'w \<Rightarrow> duration \<times> 'w" where
  "entry_ttl C ttl expireAt w =
     (let (ttl, w1) = (if ttl \<le> 0 then (let (now, w1) = rd_clock C w in (time_sub expireAt now, w1))
                       else (ttl, w))
      in (if ttl \<le> 0 then time_minute else ttl, w1))"

definition redis_GetLoginToken :: "'w redis_repo \<Rightarrow> string \<Rightarrow> ('w, LoginToken option) io" where
  "redis_GetLoginToken r token =
     get_json (rr_client r) unmarshal_login_token (loginTokenKey (rr_prefix r) token)"

definition redis_SetLoginToken :: "'w redis_repo \<Rightarrow> LoginToken \<Rightarrow> duration \<Rightarrow> ('w, unit) io" where
  "redis_SetLoginToken r token ttl = (\<lambda>w.
     let (ttl, w1) = entry_ttl (rr_client r) ttl (lt_ExpireAt token) w
     in case marshal_login_token token of
          Inl e \<Rightarrow> (Inl e, w1)
        | Inr payload \<Rightarrow>
            rd_set (rr_client r) (loginTokenKey (rr_prefix r) (lt_Token token)) (BJson payload) ttl w1)"

definition redis_DeleteLoginToken :: "'w redis_repo \<Rightarrow> string \<Rightarrow> ('w, unit) io" where
  "redis_DeleteLoginToken r token = rd_del (rr_client r) (loginTokenKey (rr_prefix r) token)"

definition redis_GetGateConn :: "'w redis_repo \<Rightarrow> int \<Rightarrow> ('w, GateConn option) io" where
  "redis_GetGateConn r uid =
     get_json (rr_client r) unmarshal_gate_conn (gateConnKey (rr_prefix r) uid)"

definition redis_SetGateConn :: "'w redis_repo \<Rightarrow> GateConn \<Rightarrow> duration \<Rightarrow> ('w, unit) io" where
  "redis_SetGateConn r conn ttl = (\<lambda>w.
     let (ttl, w1) = entry_ttl (rr_client r) ttl (gc_ExpireAt conn) w
     in case marshal_gate_conn conn of
          Inl e \<Rightarrow> (Inl e, w1)
        | Inr payload \<Rightarrow>
            rd_set (rr_client r) (gateConnKey (rr_prefix r) (gc_UID conn)) (BJson payload) ttl w1)"

definition redis_DeleteGateConn :: "'w redis_repo \<Rightarrow> int \<Rightarrow> ('w, unit) io" where
  "redis_DeleteGateConn r uid = rd_del (rr_client r) (gateConnKey (rr_prefix r) uid)"

definition redis_GetSrvRouter :: "'w redis_repo \<Rightarrow> int \<Rightarrow> ('w, SrvRouter option) io" where
  "redis_GetSrvRouter r uid =
     get_json (rr_client r) unmarshal_srv_router (srvRouterKey (rr_prefix r) uid)"

definition redis_SetSrvRouter :: "'w redis_repo \<Rightarrow> SrvRouter \<Rightarrow> duration \<Rightarrow> ('w, unit) io" where
  "redis_SetSrvRouter r route ttl = (\<lambda>w.
     let (ttl, w1) = entry_ttl (rr_client r) ttl (sr_ExpireAt route) w
     in case marshal_srv_router route of
          Inl e \<Rightarrow> (Inl e, w1)
        | Inr payload \<Rightarrow>
            rd_set (rr_client r) (srvRouterKey (rr_prefix r) (sr_UID route)) (BJson payload) ttl w1)"

definition redis_DeleteSrvRouter :: "'w redis_repo \<Rightarrow> int \<Rightarrow> ('w, unit) io" where
  "redis_DeleteSrvRouter r uid = rd_del (rr_client r) (srvRouterKey (rr_prefix r) uid)"

lemma entry_ttl_pos: "entry_ttl C ttl at w = (t, w') \<Longrightarrow> t > 0"
  by (auto simp: entry_ttl_def Let_def time_units split: if_splits prod.splits)

end
