(* ===== verification/Redis_Contract.thy ===== *)
theory Redis_Contract
  imports Redis_Routing "HOL-Library.AList"
begin

text \<open>
  The contracts around the Redis repository: the locale \<open>redis\<close> states what the code relies on
  of go-redis and the server, on a keyspace of typed values with an expiry; the interface
  \<open>shared_cache\<close> states what the repository promises to the local caches and to the outbox relay.
  The interface is proved for the model of the repository over any client that satisfies
  \<open>redis\<close> and whose clock agrees with the server's to nine minutes.
\<close>

section \<open>The keyspace\<close>

datatype rvalue =
    RString rbytes
  | RZset "(string \<times> int) list"       \<comment> \<open>member, score\<close>
  | RSet "string list"
  | RHash "(string \<times> string) list"

type_synonym keyspace = "string \<rightharpoonup> rvalue \<times> go_time option"

text \<open>What a command sees of a key at the time \<open>t\<close> of the server.\<close>

definition ks_live :: "go_time \<Rightarrow> keyspace \<Rightarrow> string \<Rightarrow> rvalue option" where
  "ks_live t d k = (case d k of None \<Rightarrow> None | Some (v, None) \<Rightarrow> Some v
     | Some (v, Some e) \<Rightarrow> if t < e then Some v else None)"

definition string_at :: "go_time \<Rightarrow> keyspace \<Rightarrow> string \<Rightarrow> rbytes option option" where
  "string_at t d k = (case ks_live t d k of None \<Rightarrow> Some None | Some (RString b) \<Rightarrow> Some (Some b)
     | Some _ \<Rightarrow> None)"

text \<open>
  The expiry that \<^verbatim>\<open>SET\<close> with a time to live gives: go-redis sends milliseconds, at least one, and
  no expiry when the duration is not positive (-1 means that an older expiry is kept).
\<close>

definition set_expiry :: "go_time \<Rightarrow> duration \<Rightarrow> go_time option \<Rightarrow> bool" where
  "set_expiry t ttl e \<longleftrightarrow>
     (if ttl > 0 then (\<exists>x. e = Some x \<and> t + ttl - time_millisecond < x \<and> x \<le> t + max ttl time_millisecond)
      else ttl = - 1 \<or> e = None)"

definition lua_apply :: "string \<Rightarrow> lua_effect \<Rightarrow> keyspace \<Rightarrow> keyspace" where
  "lua_apply k eff d = (case eff of LuaKeep \<Rightarrow> d | LuaSet b \<Rightarrow> d(k \<mapsto> (RString b, None))
     | LuaDel \<Rightarrow> d(k := None))"

definition expiry_of :: "go_time \<Rightarrow> keyspace \<Rightarrow> string \<Rightarrow> go_time option" where
  "expiry_of t d k = (case ks_live t d k of None \<Rightarrow> None | Some _ \<Rightarrow> snd (the (d k)))"

text \<open>One command of a transaction; a command on a key of another type fails and changes nothing.\<close>

fun cmd_apply :: "go_time \<Rightarrow> pipe_cmd \<Rightarrow> keyspace \<Rightarrow> keyspace option" where
  "cmd_apply t (ZAdd k s m) d = (case ks_live t d k of
       None \<Rightarrow> Some (d(k \<mapsto> (RZset [(m, s)], None)))
     | Some (RZset z) \<Rightarrow> Some (d(k \<mapsto> (RZset (AList.update m s z), expiry_of t d k)))
     | Some _ \<Rightarrow> None)"
| "cmd_apply t (SAdd k ms) d = (case ks_live t d k of
       None \<Rightarrow> Some (d(k \<mapsto> (RSet (remdups ms), None)))
     | Some (RSet s) \<Rightarrow> Some (d(k \<mapsto> (RSet (fold List.insert ms s), expiry_of t d k)))
     | Some _ \<Rightarrow> None)"
| "cmd_apply t (Del k) d = Some (d(k := None))"
| "cmd_apply t (HSet k fs) d = (case ks_live t d k of
       None \<Rightarrow> Some (d(k \<mapsto> (RHash (fold (\<lambda>(f, v). AList.update f v) fs []), None)))
     | Some (RHash h) \<Rightarrow>
         Some (d(k \<mapsto> (RHash (fold (\<lambda>(f, v). AList.update f v) fs h), expiry_of t d k)))
     | Some _ \<Rightarrow> None)"
| "cmd_apply t (Expire k ttl) d = (case ks_live t d k of
       None \<Rightarrow> Some d
     | Some v \<Rightarrow> if ttl \<le> 0 then Some (d(k := None))
         else Some (d(k \<mapsto> (v, Some (t + max 1 (ttl div time_second) * time_second)))))"

fun cmds_apply :: "go_time \<Rightarrow> pipe_cmd list \<Rightarrow> keyspace \<Rightarrow> bool \<times> keyspace" where
  "cmds_apply t [] d = (True, d)"
| "cmds_apply t (c # cs) d = (case cmd_apply t c d of
       None \<Rightarrow> (False, snd (cmds_apply t cs d))
     | Some d' \<Rightarrow> cmds_apply t cs d')"

section \<open>What the code relies on of Redis\<close>

definition during :: "('w \<Rightarrow> go_time) \<Rightarrow> 'w \<Rightarrow> 'w \<Rightarrow> go_time \<Rightarrow> bool" where
  "during rnow w w' t \<longleftrightarrow> rnow w \<le> t \<and> t \<le> rnow w'"

locale redis =
  fixes C :: "'w redis_client" and ks :: "'w \<Rightarrow> keyspace" and rnow :: "'w \<Rightarrow> go_time"
  assumes get: "rd_get C k w = (gres, w') \<Longrightarrow> ks w' = ks w \<and>
      (\<exists>t. during rnow w w' t \<and>
        (\<forall>b. gres = Inr b \<longrightarrow> string_at t (ks w) k = Some (Some b)) \<and>
        (gres = Inl RedisNil \<longrightarrow> string_at t (ks w) k = Some None))"
    and set: "rd_set C k b ttl w = (ures, w') \<Longrightarrow>
      (\<exists>t e. during rnow w w' t \<and> set_expiry t ttl e \<and>
        commits (\<lambda>d. Some (d(k \<mapsto> (RString b, e)))) (ks w) ures (ks w'))"
    and setnx_Inr: "rd_setnx C k b ttl w = (Inr acquired, w') \<Longrightarrow>
      (\<exists>t e. during rnow w w' t \<and> set_expiry t ttl e \<and>
        (acquired \<longleftrightarrow> ks_live t (ks w) k = None) \<and>
        ks w' = (if acquired then (ks w)(k \<mapsto> (RString b, e)) else ks w))"
    and setnx_Inl: "rd_setnx C k b ttl w = (Inl err, w') \<Longrightarrow>
      (\<exists>t e. during rnow w w' t \<and> set_expiry t ttl e \<and>
        (ks w' = ks w \<or> ks_live t (ks w) k = None \<and> ks w' = (ks w)(k \<mapsto> (RString b, e))))"
    and incr: "rd_incr C k w = (ires, w') \<Longrightarrow>
      (\<exists>t. during rnow w w' t \<and> commits (\<lambda>d. case string_at t d k of
           Some cur \<Rightarrow> (case (case cur of None \<Rightarrow> Inr 0 | Some b \<Rightarrow> bytes_int b) of
               Inl _ \<Rightarrow> None
             | Inr n \<Rightarrow> Some (d(k \<mapsto> (RString (BText (show_int (n + 1))), expiry_of t d k))))
         | None \<Rightarrow> None) (ks w) ires (ks w'))"
    and del: "rd_del C k w = (ures, w') \<Longrightarrow> rnow w \<le> rnow w' \<and>
      commits (\<lambda>d. Some (d(k := None))) (ks w) ures (ks w')"
    and eval_Inr: "rd_eval C k script w = (Inr n, w') \<Longrightarrow>
      (\<exists>t cur eff. during rnow w w' t \<and> string_at t (ks w) k = Some cur \<and> script cur = Inr (eff, n) \<and>
        ks w' = lua_apply k eff (ks w))"
    and eval_Inl: "rd_eval C k script w = (Inl err, w') \<Longrightarrow> rnow w \<le> rnow w' \<and>
      (ks w' = ks w \<or>
       (\<exists>t cur eff n. during rnow w w' t \<and> string_at t (ks w) k = Some cur \<and>
         script cur = Inr (eff, n) \<and> ks w' = lua_apply k eff (ks w)))"
    and zrange: "rd_zrangebyscore C k lo w = (lres, w') \<Longrightarrow> ks w' = ks w \<and>
      (\<exists>t. during rnow w w' t \<and> (\<forall>ms. lres = Inr ms \<longrightarrow> distinct ms \<and>
        (case ks_live t (ks w) k of
           None \<Rightarrow> ms = []
         | Some (RZset z) \<Rightarrow> set ms = {m. \<exists>s. map_of z m = Some s \<and> lo \<le> s}
         | Some _ \<Rightarrow> False)))"
    and smembers: "rd_smembers C k w = (lres, w') \<Longrightarrow> ks w' = ks w \<and>
      (\<exists>t. during rnow w w' t \<and> (\<forall>ms. lres = Inr ms \<longrightarrow> distinct ms \<and>
        (case ks_live t (ks w) k of
           None \<Rightarrow> ms = []
         | Some (RSet s) \<Rightarrow> set ms = set s
         | Some _ \<Rightarrow> False)))"
    and hmget: "rd_hmget C k fs w = (hres, w') \<Longrightarrow> ks w' = ks w \<and>
      (\<exists>t. during rnow w w' t \<and> (\<forall>vs. hres = Inr vs \<longrightarrow>
        (case ks_live t (ks w) k of
           None \<Rightarrow> vs = map (\<lambda>_. None) fs
         | Some (RHash h) \<Rightarrow> vs = map (map_of h) fs
         | Some _ \<Rightarrow> False)))"
    and exec: "rd_exec C cmds w = (ures, w') \<Longrightarrow>
      (\<exists>t. during rnow w w' t \<and>
        (ks w' = ks w \<and> isl ures \<or> ks w' = snd (cmds_apply t cmds (ks w))) \<and>
        (\<not> isl ures \<longrightarrow> fst (cmds_apply t cmds (ks w))))"
    and clock: "rd_clock C w = (now, w') \<Longrightarrow> ks w' = ks w \<and> rnow w \<le> rnow w'"

text \<open>The clocks of the processes and of the server agree to nine minutes.\<close>

locale redis_clocks = redis +
  assumes skew: "rd_clock C w = (now, w') \<Longrightarrow> \<bar>now - rnow w'\<bar> \<le> 9 * time_minute"

lemma set_expiry_cases:
  assumes "set_expiry t ttl e" "ttl \<noteq> - 1"
  shows "ttl \<le> 0 \<and> e = None \<or> (\<exists>x. e = Some x \<and> t + ttl - time_millisecond < x)"
  using assms by (auto simp: set_expiry_def split: if_splits)

section \<open>Keys do not collide\<close>

lemmas key_defs = redis_key_def globalMailKey_def globalMailByServerKey_def userProfileKey_def
  globalMailRebuildLockKey_def redis_commandIdempotencyKey_def loginTokenKey_def gateConnKey_def
  srvRouterKey_def

lemma key_inject [simp]:
  "globalMailKey p i = globalMailKey p j \<longleftrightarrow> i = j"
  "globalMailByServerKey p i = globalMailByServerKey p j \<longleftrightarrow> i = j"
  "userProfileKey p i = userProfileKey p j \<longleftrightarrow> i = j"
  "globalMailRebuildLockKey p i = globalMailRebuildLockKey p j \<longleftrightarrow> i = j"
  "redis_commandIdempotencyKey p s = redis_commandIdempotencyKey p u \<longleftrightarrow> s = u"
  "loginTokenKey p s = loginTokenKey p u \<longleftrightarrow> s = u"
  "gateConnKey p i = gateConnKey p j \<longleftrightarrow> i = j"
  "srvRouterKey p i = srvRouterKey p j \<longleftrightarrow> i = j"
  by (simp_all add: key_defs)

text \<open>The two fixed names and the families of keys that the caches use are apart.\<close>

lemma key_disjoint [simp]:
  "redis_key p ''GlobalMailVersion'' \<noteq> redis_key p ''GlobalMailActiveIndex''"
  "redis_key p ''GlobalMailActiveIndex'' \<noteq> redis_key p ''GlobalMailVersion''"
  "redis_key p ''GlobalMailVersion'' \<noteq> globalMailKey p i"
  "globalMailKey p i \<noteq> redis_key p ''GlobalMailVersion''"
  "redis_key p ''GlobalMailActiveIndex'' \<noteq> globalMailKey p i"
  "globalMailKey p i \<noteq> redis_key p ''GlobalMailActiveIndex''"
  "globalMailByServerKey p i \<noteq> redis_key p ''GlobalMailVersion''"
  "globalMailByServerKey p i \<noteq> redis_key p ''GlobalMailActiveIndex''"
  "globalMailByServerKey p i \<noteq> globalMailKey p j"
  "globalMailRebuildLockKey p i \<noteq> redis_key p ''GlobalMailVersion''"
  "globalMailRebuildLockKey p i \<noteq> redis_key p ''GlobalMailActiveIndex''"
  "globalMailRebuildLockKey p i \<noteq> globalMailKey p j"
  by (simp_all add: key_defs)

section \<open>The content of the shared cache\<close>

record shared =
  sc_version :: int
  sc_mail :: "int \<rightharpoonup> GlobalMail \<times> go_time option"     \<comment> \<open>with the expiry of its key\<close>
  sc_active :: "int \<rightharpoonup> int"                          \<comment> \<open>the score, the expiry of the mail in seconds\<close>

definition id_members :: "(string \<times> int) list \<Rightarrow> bool" where
  "id_members z \<longleftrightarrow> (\<forall>m\<in>fst ` set z. \<exists>i. in_int64 i \<and> m = show_int i)"

definition cache_ok :: "string \<Rightarrow> keyspace \<Rightarrow> bool" where
  "cache_ok p d \<longleftrightarrow>
     (case d (redis_key p ''GlobalMailVersion'') of
        None \<Rightarrow> True
      | Some (v, e) \<Rightarrow> e = None \<and> (\<exists>n. in_int64 n \<and> v = RString (BText (show_int n)))) \<and>
     (case d (redis_key p ''GlobalMailActiveIndex'') of
        None \<Rightarrow> True
      | Some (v, e) \<Rightarrow> e = None \<and> (\<exists>z. v = RZset z \<and> id_members z)) \<and>
     (\<forall>i. case d (globalMailKey p i) of
        None \<Rightarrow> True
      | Some (v, e) \<Rightarrow> (\<exists>j m. v = RString (BJson j) \<and> unmarshal_mail j = Inr m \<and> mail_ID m = i))"

definition view_version :: "string \<Rightarrow> keyspace \<Rightarrow> int" where
  "view_version p d = (case d (redis_key p ''GlobalMailVersion'') of
     Some (RString (BText s), _) \<Rightarrow> (case parse_int s of Some n \<Rightarrow> n | None \<Rightarrow> 0) | _ \<Rightarrow> 0)"

definition view_mail :: "string \<Rightarrow> keyspace \<Rightarrow> int \<rightharpoonup> GlobalMail \<times> go_time option" where
  "view_mail p d i = (case d (globalMailKey p i) of
     Some (RString (BJson j), e) \<Rightarrow> (case unmarshal_mail j of Inr m \<Rightarrow> Some (m, e) | Inl _ \<Rightarrow> None)
   | _ \<Rightarrow> None)"

definition view_active :: "string \<Rightarrow> keyspace \<Rightarrow> int \<rightharpoonup> int" where
  "view_active p d i = (case d (redis_key p ''GlobalMailActiveIndex'') of
     Some (RZset z, _) \<Rightarrow> map_of z (show_int i) | _ \<Rightarrow> None)"

definition view :: "string \<Rightarrow> keyspace \<Rightarrow> shared" where
  "view p d = \<lparr>sc_version = view_version p d, sc_mail = view_mail p d, sc_active = view_active p d\<rparr>"

text \<open>A mail in the shared cache as a reader sees it at the time \<open>t\<close>.\<close>

definition shared_mail :: "go_time \<Rightarrow> shared \<Rightarrow> int \<rightharpoonup> GlobalMail" where
  "shared_mail t s i = (case sc_mail s i of None \<Rightarrow> None | Some (m, None) \<Rightarrow> Some m
     | Some (m, Some e) \<Rightarrow> if t < e then Some m else None)"

section \<open>What the repository promises to the caches and the relay\<close>

locale shared_cache =
  fixes K :: "'w CacheRepository" and sc :: "'w \<Rightarrow> shared" and ok :: "'w \<Rightarrow> bool"
    and rnow :: "'w \<Rightarrow> go_time"
  assumes version: "ok w \<Longrightarrow> GetGlobalMailVersion K w = (ires, w') \<Longrightarrow>
      ok w' \<and> sc w' = sc w \<and> rnow w \<le> rnow w' \<and> (\<forall>v. ires = Inr v \<longrightarrow> v = sc_version (sc w))"
    and advance: "ok w \<Longrightarrow> in_int64 n \<Longrightarrow> AdvanceGlobalMailVersion K n w = (ires, w') \<Longrightarrow>
      ok w' \<and> rnow w \<le> rnow w' \<and>
      commits (\<lambda>s. Some (s\<lparr>sc_version := max (sc_version s) n\<rparr>)) (sc w) ires (sc w') \<and>
      (\<forall>v. ires = Inr v \<longrightarrow> v = max (sc_version (sc w)) n)"
    and mail_key: "ok w \<Longrightarrow> sc_mail (sc w) i = Some (m, e) \<Longrightarrow> mail_ID m = i"
    and get_mail: "ok w \<Longrightarrow> GetGlobalMail K i w = (mres, w') \<Longrightarrow>
      ok w' \<and> sc w' = sc w \<and>
      (\<exists>t. during rnow w w' t \<and> (\<forall>found. mres = Inr found \<longrightarrow> found = shared_mail t (sc w) i))"
    and set_mail: "ok w \<Longrightarrow> wf_mail m \<Longrightarrow> SetGlobalMail K m w = (ures, w') \<Longrightarrow>
      ok w' \<and> rnow w \<le> rnow w' \<and>
      (sc w' = sc w \<and> isl ures \<or>
       (\<exists>e. sc w' = (sc w)\<lparr>sc_mail := (sc_mail (sc w))(mail_ID m \<mapsto> (reread_mail m, e))\<rparr> \<and>
          (case e of None \<Rightarrow> True | Some x \<Rightarrow> mail_ExpireTime m < x)))"
    and active: "ok w \<Longrightarrow> GetActiveGlobalMailIDs K now w = (lres, w') \<Longrightarrow>
      ok w' \<and> sc w' = sc w \<and> rnow w \<le> rnow w' \<and>
      (\<forall>ids. lres = Inr ids \<longrightarrow> distinct ids \<and>
         set ids = {i. \<exists>s. sc_active (sc w) i = Some s \<and> Unix now \<le> s})"
    and add_index: "ok w \<Longrightarrow> in_int64 (mail_ID m) \<Longrightarrow> AddGlobalMailToIndexes K m w = (ures, w') \<Longrightarrow>
      ok w' \<and> rnow w \<le> rnow w' \<and>
      (sc w' = sc w \<and> isl ures \<or>
       sc w' = (sc w)\<lparr>sc_active := (sc_active (sc w))(mail_ID m \<mapsto> Unix (mail_ExpireTime m))\<rparr>)"

section \<open>The repository keeps its promises\<close>

text \<open>The time to live of a cached mail.\<close>

definition mail_ttl :: "go_time \<Rightarrow> go_time \<Rightarrow> duration" where
  "mail_ttl expire now = (let until = time_sub expire now
     in wrap64 ((if until \<le> 0 then time_hour else until) + 10 * time_minute))"

lemma wrap64_above:
  assumes "2 ^ 63 \<le> n" "n < 2 ^ 63 + 2 ^ 62"
  shows "wrap64 n < - 1"
proof -
  have "signed_take_bit 63 n = (n + 2 ^ 63) mod 2 ^ 64 - 2 ^ 63"
    by (simp add: signed_take_bit_eq_take_bit_shift take_bit_eq_mod)
  also have "(n + 2 ^ 63) mod 2 ^ 64 = n + 2 ^ 63 - 2 ^ 64"
    using assms minus_mod_self2 [of "n + 2 ^ 63" "2 ^ 64"]
      mod_pos_pos_trivial [of "n + 2 ^ 63 - 2 ^ 64" "2 ^ 64"] by simp
  finally show ?thesis using assms by (simp add: wrap64_def)
qed

text \<open>A cached mail outlives its validity, whatever the two clocks say within their bound.\<close>

lemma mail_ttl_outlives:
  assumes e: "set_expiry t (mail_ttl expire now) e" and t: "now - 9 * time_minute \<le> t"
  shows "case e of None \<Rightarrow> True | Some x \<Rightarrow> expire < x"
proof (cases "time_sub expire now \<le> 0")
  case True
  then have "mail_ttl expire now = 70 * time_minute" "expire \<le> now"
    by (simp_all add: mail_ttl_def time_sub_def time_units in_int64_def max_def min_def split: if_splits)
  then show ?thesis
    using set_expiry_cases [OF e] t by (auto simp: time_units)
next
  case False
  let ?u = "min (2 ^ 63 - 1) (expire - now)"
  have ttl: "mail_ttl expire now = wrap64 (?u + 10 * time_minute)" and pos: "0 < ?u"
    using False by (auto simp: mail_ttl_def time_sub_def max_def split: if_splits)
  show ?thesis
  proof (cases "?u + 10 * time_minute < 2 ^ 63")
    case True
    then have "mail_ttl expire now = ?u + 10 * time_minute"
      using pos by (simp add: ttl in_int64_def time_units)
    moreover from True have "?u = expire - now" by (auto simp: min_def time_units split: if_splits)
    ultimately show ?thesis
      using set_expiry_cases [OF e] t pos by (auto simp: time_units)
  next
    case False
    then have "mail_ttl expire now < - 1"
      unfolding ttl by (intro wrap64_above) (auto simp: time_units)
    then show ?thesis using e by (auto simp: set_expiry_def)
  qed
qed

text \<open>What the three kinds of writes do to the view.\<close>

lemma view_frame:
  assumes "k \<noteq> redis_key p ''GlobalMailVersion''" "k \<noteq> redis_key p ''GlobalMailActiveIndex''"
    "\<And>i. k \<noteq> globalMailKey p i"
  shows "view p (d(k := x)) = view p d" "cache_ok p (d(k := x)) = cache_ok p d"
  using assms
  by (auto simp: view_def view_version_def view_mail_def view_active_def cache_ok_def fun_eq_iff)

lemma view_set_mail:
  assumes "cache_ok p d" "unmarshal_mail j = Inr m" "mail_ID m = i"
  shows "cache_ok p (d(globalMailKey p i \<mapsto> (RString (BJson j), e)))"
    "view p (d(globalMailKey p i \<mapsto> (RString (BJson j), e))) =
       (view p d)\<lparr>sc_mail := (sc_mail (view p d))(i \<mapsto> (m, e))\<rparr>"
  using assms
  by (auto simp: view_def view_version_def view_mail_def view_active_def cache_ok_def fun_eq_iff)

lemma view_set_version:
  assumes "cache_ok p d" "in_int64 n"
  shows "cache_ok p (d(redis_key p ''GlobalMailVersion'' \<mapsto> (RString (BText (show_int n)), None)))"
    "view p (d(redis_key p ''GlobalMailVersion'' \<mapsto> (RString (BText (show_int n)), None))) =
       (view p d)\<lparr>sc_version := n\<rparr>"
  using assms
  by (auto simp: view_def view_version_def view_mail_def view_active_def cache_ok_def fun_eq_iff)

lemma id_members_update [simp]:
  "id_members z \<Longrightarrow> in_int64 i \<Longrightarrow> id_members (AList.update (show_int i) s z)"
  by (auto simp: id_members_def dom_update)

lemma view_set_active:
  assumes "cache_ok p d" "in_int64 i"
    "z = (case d (redis_key p ''GlobalMailActiveIndex'') of Some (RZset z, _) \<Rightarrow> z | _ \<Rightarrow> [])"
  shows "cache_ok p (d(redis_key p ''GlobalMailActiveIndex'' \<mapsto> (RZset (AList.update (show_int i) s z), None)))"
    "view p (d(redis_key p ''GlobalMailActiveIndex'' \<mapsto> (RZset (AList.update (show_int i) s z), None))) =
       (view p d)\<lparr>sc_active := (sc_active (view p d))(i \<mapsto> s)\<rparr>"
  using assms
  by (auto simp: view_def view_version_def view_mail_def view_active_def cache_ok_def fun_eq_iff
      update_conv' id_members_def [of "[x]" for x] split: option.splits rvalue.splits prod.splits)

lemma version_at:
  assumes "cache_ok p d" "string_at t d (redis_key p ''GlobalMailVersion'') = Some cur"
  shows "(case cur of None \<Rightarrow> Inr 0 | Some b \<Rightarrow> bytes_int b) = Inr (sc_version (view p d))"
  using assms
  by (auto simp: cache_ok_def string_at_def ks_live_def view_def view_version_def
      split: option.splits prod.splits)

lemma live_active:
  assumes "cache_ok p d"
  shows "ks_live t d (redis_key p ''GlobalMailActiveIndex'') =
    (case d (redis_key p ''GlobalMailActiveIndex'') of None \<Rightarrow> None | Some (v, _) \<Rightarrow> Some v)"
  using assms by (auto simp: cache_ok_def ks_live_def split: option.splits prod.splits)

lemma sadds_frame:
  assumes "cache_ok p d" "\<And>c. c \<in> set cmds \<Longrightarrow> \<exists>s ms. c = SAdd (globalMailByServerKey p s) ms"
  shows "cache_ok p (snd (cmds_apply t cmds d)) \<and> view p (snd (cmds_apply t cmds d)) = view p d"
  using assms
proof (induction cmds arbitrary: d)
  case (Cons c cmds)
  then obtain s ms where c: "c = SAdd (globalMailByServerKey p s) ms" by (meson list.set_intros(1))
  show ?case
  proof (cases "cmd_apply t c d")
    case None
    with Cons show ?thesis by simp
  next
    case (Some d')
    then obtain x where "d' = d(globalMailByServerKey p s := x)"
      unfolding c by (auto split: option.splits rvalue.splits)
    then have "cache_ok p d'" "view p d' = view p d"
      using Cons.prems(1) by (simp_all add: view_frame)
    with Some Cons.IH [of d'] Cons.prems(2) show ?thesis by simp
  qed
qed simp

lemma mail_entry:
  assumes "cache_ok p d"
  shows "d (globalMailKey p i) = None \<or>
     (\<exists>j m e. d (globalMailKey p i) = Some (RString (BJson j), e) \<and> unmarshal_mail j = Inr m \<and> mail_ID m = i)"
proof (cases "d (globalMailKey p i)")
  case (Some ve)
  from assms have "case d (globalMailKey p i) of None \<Rightarrow> True
      | Some (v, e) \<Rightarrow> \<exists>j m. v = RString (BJson j) \<and> unmarshal_mail j = Inr m \<and> mail_ID m = i"
    by (simp add: cache_ok_def)
  with Some show ?thesis by (auto split: prod.splits)
qed simp

text \<open>The repository over a client, with its key prefix.\<close>

locale redis_repository = redis_clocks C ks rnow for C :: "'w redis_client" and ks and rnow +
  fixes p :: string
begin

lemma get_json_result:
  assumes "get_json C decode k w = (mres, w')"
  shows "ks w' = ks w" "\<exists>t. during rnow w w' t \<and> (\<forall>found. mres = Inr found \<longrightarrow>
    (case found of None \<Rightarrow> string_at t (ks w) k = Some None
     | Some x \<Rightarrow> \<exists>b. string_at t (ks w) k = Some (Some b) \<and> Unmarshal decode (bytes_raw b) = Inr x))"
proof -
  obtain gres w1 where g: "rd_get C k w = (gres, w1)" by fastforce
  then have w1: "w1 = w'" using assms by (auto simp: get_json_def split: sum.splits if_splits)
  from get [OF g] obtain t where
    "ks w1 = ks w" "during rnow w w1 t" "\<And>b. gres = Inr b \<Longrightarrow> string_at t (ks w) k = Some (Some b)"
    "gres = Inl RedisNil \<Longrightarrow> string_at t (ks w) k = Some None" by blast
  with assms g w1 show "ks w' = ks w" "\<exists>t. during rnow w w' t \<and> (\<forall>found. mres = Inr found \<longrightarrow>
    (case found of None \<Rightarrow> string_at t (ks w) k = Some None
     | Some x \<Rightarrow> \<exists>b. string_at t (ks w) k = Some (Some b) \<and> Unmarshal decode (bytes_raw b) = Inr x))"
    by (auto simp: get_json_def split: sum.splits if_splits)
qed

lemma get_mail_view:
  assumes "cache_ok p (ks w)" "redis_GetGlobalMail \<lparr>rr_client = C, rr_prefix = p\<rparr> i w = (mres, w')"
  shows "ks w' = ks w" "\<exists>t. during rnow w w' t \<and>
    (\<forall>found. mres = Inr found \<longrightarrow> found = shared_mail t (view p (ks w)) i)"
proof -
  from assms(2) have g: "get_json C unmarshal_mail (globalMailKey p i) w = (mres, w')"
    by (simp add: redis_GetGlobalMail_def)
  show "ks w' = ks w" using get_json_result(1) [OF g] .
  from get_json_result(2) [OF g] obtain t where t: "during rnow w w' t"
    and found: "\<And>found. mres = Inr found \<Longrightarrow>
    (case found of None \<Rightarrow> string_at t (ks w) (globalMailKey p i) = Some None
     | Some x \<Rightarrow> \<exists>b. string_at t (ks w) (globalMailKey p i) = Some (Some b) \<and>
         Unmarshal unmarshal_mail (bytes_raw b) = Inr x)" by blast
  note mail = mail_entry [OF assms(1), of i]
  have "found = shared_mail t (view p (ks w)) i" if "mres = Inr found" for found
    using found [OF that] mail
    by (auto simp: shared_mail_def view_def view_mail_def string_at_def ks_live_def
        split: option.splits if_splits)
  with t show "\<exists>t. during rnow w w' t \<and>
    (\<forall>found. mres = Inr found \<longrightarrow> found = shared_mail t (view p (ks w)) i)" by blast
qed

lemma set_mail_view:
  assumes ok: "cache_ok p (ks w)" and wf: "wf_mail m"
    and call: "redis_SetGlobalMail \<lparr>rr_client = C, rr_prefix = p\<rparr> m w = (ures, w')"
  shows "cache_ok p (ks w') \<and> rnow w \<le> rnow w' \<and>
     (view p (ks w') = view p (ks w) \<and> isl ures \<or>
      (\<exists>e. view p (ks w') = (view p (ks w))\<lparr>sc_mail := (sc_mail (view p (ks w)))(mail_ID m \<mapsto> (reread_mail m, e))\<rparr> \<and>
         (case e of None \<Rightarrow> True | Some x \<Rightarrow> mail_ExpireTime m < x)))"
proof (cases "marshal_mail m")
  case (Inl err)
  with call ok show ?thesis by (auto simp: redis_SetGlobalMail_def)
next
  case (Inr j)
  obtain now w1 where now: "rd_clock C w = (now, w1)" by fastforce
  have s: "rd_set C (globalMailKey p (mail_ID m)) (BJson j) (mail_ttl (mail_ExpireTime m) now) w1 = (ures, w')"
    using call by (simp add: redis_SetGlobalMail_def Inr now mail_ttl_def Let_def)
  then obtain t e where t: "during rnow w1 w' t" "set_expiry t (mail_ttl (mail_ExpireTime m) now) e"
    "commits (\<lambda>d. Some (d(globalMailKey p (mail_ID m) \<mapsto> (RString (BJson j), e)))) (ks w1) ures (ks w')"
    using set by blast
  have m: "unmarshal_mail j = Inr (reread_mail m)" using Inr wf by (rule mail_roundtrip)
  have id: "mail_ID (reread_mail m) = mail_ID m" by (simp add: reread_mail_def)
  have w1: "ks w1 = ks w" "rnow w \<le> rnow w1" using clock [OF now] by auto
  have "case e of None \<Rightarrow> True | Some x \<Rightarrow> mail_ExpireTime m < x"
    using t(2) by (rule mail_ttl_outlives) (use skew [OF now] t(1) in \<open>auto simp: during_def\<close>)
  with t w1 view_set_mail [OF ok m id, of e] ok show ?thesis
    by (fastforce simp: commits_def during_def split: sum.splits)
qed

lemma advance_view:
  assumes ok: "cache_ok p (ks w)" and n: "in_int64 n"
    and adv: "redis_AdvanceGlobalMailVersion \<lparr>rr_client = C, rr_prefix = p\<rparr> n w = (ires, w')"
  shows "cache_ok p (ks w') \<and> rnow w \<le> rnow w' \<and>
    commits (\<lambda>s. Some (s\<lparr>sc_version := max (sc_version s) n\<rparr>)) (view p (ks w)) ires (view p (ks w')) \<and>
    (\<forall>v. ires = Inr v \<longrightarrow> v = max (sc_version (view p (ks w))) n)"
proof -
  let ?k = "redis_key p ''GlobalMailVersion''" and ?v = "sc_version (view p (ks w))"
  have e: "rd_eval C ?k (advance_script n) w = (ires, w')"
    using adv by (simp add: redis_AdvanceGlobalMailVersion_def)
  have eff: "v = max ?v n \<and> cache_ok p (lua_apply ?k eff (ks w)) \<and>
      view p (lua_apply ?k eff (ks w)) = (view p (ks w))\<lparr>sc_version := max ?v n\<rparr>"
    if "string_at t (ks w) ?k = Some cur" "advance_script n cur = Inr (eff, v)" for t cur eff v
    using that(2) version_at [OF ok that(1)] view_set_version [OF ok n] ok
    by (auto simp: advance_script_def lua_apply_def max_def split: if_splits)
  show ?thesis
  proof (cases ires)
    case (Inl err)
    with eval_Inl [of ?k] e ok eff show ?thesis by (fastforce simp: during_def)
  next
    case (Inr v)
    with eval_Inr [of ?k] e eff show ?thesis by (fastforce simp: during_def)
  qed
qed

end

lemma scan_ids_members:
  assumes "\<And>m. m \<in> set ms \<Longrightarrow> \<exists>i. in_int64 i \<and> m = show_int i"
  shows "\<exists>is. ms = map show_int is \<and> scan_ids ms = Inr is"
  using assms
proof (induction ms)
  case (Cons m ms)
  then obtain i "is" where "in_int64 i" "m = show_int i" "ms = map show_int is" "scan_ids ms = Inr is"
    by (metis list.set_intros(1) list.set_intros(2))
  then show ?case by (intro exI [of _ "i # is"]) simp
qed simp

context redis_repository begin

lemma version_view:
  assumes ok: "cache_ok p (ks w)"
    and call: "redis_GetGlobalMailVersion \<lparr>rr_client = C, rr_prefix = p\<rparr> w = (ires, w')"
  shows "ks w' = ks w \<and> rnow w \<le> rnow w' \<and> (\<forall>v. ires = Inr v \<longrightarrow> v = sc_version (view p (ks w)))"
proof -
  let ?k = "redis_key p ''GlobalMailVersion''"
  obtain gres w1 where g: "rd_get C ?k w = (gres, w1)" by fastforce
  from get [OF g] obtain t where t: "ks w1 = ks w" "during rnow w w1 t"
    "\<And>b. gres = Inr b \<Longrightarrow> string_at t (ks w) ?k = Some (Some b)"
    "gres = Inl RedisNil \<Longrightarrow> string_at t (ks w) ?k = Some None" by blast
  show ?thesis
    using call g t version_at [OF ok, of t]
    by (fastforce simp: redis_GetGlobalMailVersion_def during_def split: sum.splits if_splits)
qed

lemma active_view:
  assumes ok: "cache_ok p (ks w)"
    and call: "redis_GetActiveGlobalMailIDs \<lparr>rr_client = C, rr_prefix = p\<rparr> now w = (lres, w')"
  shows "ks w' = ks w \<and> rnow w \<le> rnow w' \<and> (\<forall>ids. lres = Inr ids \<longrightarrow> distinct ids \<and>
    set ids = {i. \<exists>s. sc_active (view p (ks w)) i = Some s \<and> Unix now \<le> s})"
proof -
  let ?k = "redis_key p ''GlobalMailActiveIndex''"
  obtain zres w1 where z: "rd_zrangebyscore C ?k (Unix now) w = (zres, w1)" by fastforce
  with call have w1: "w1 = w'"
    by (auto simp: redis_GetActiveGlobalMailIDs_def io_bind_def split: sum.splits)
  from zrange [OF z] obtain t where t: "ks w1 = ks w" "during rnow w w1 t"
    and ms: "\<And>ms. zres = Inr ms \<Longrightarrow> distinct ms \<and> (case ks_live t (ks w) ?k of
           None \<Rightarrow> ms = []
         | Some (RZset z) \<Rightarrow> set ms = {m. \<exists>s. map_of z m = Some s \<and> Unix now \<le> s}
         | Some _ \<Rightarrow> False)" by blast
  have "distinct ids \<and> set ids = {i. \<exists>s. sc_active (view p (ks w)) i = Some s \<and> Unix now \<le> s}"
    if "lres = Inr ids" for ids
  proof -
    from that call z obtain ms where zres: "zres = Inr ms" and scan: "scan_ids ms = Inr ids"
      by (auto simp: redis_GetActiveGlobalMailIDs_def io_bind_def split: sum.splits)
    show ?thesis
    proof (cases "ks w ?k")
      case None
      with ms [OF zres] live_active [OF ok, of t] scan show ?thesis
        by (auto simp: view_def view_active_def)
    next
      case (Some ve)
      with ok obtain z where zz: "ks w ?k = Some (RZset z, None)" "id_members z"
        by (auto simp: cache_ok_def)
      have set_ms: "set ms = {m. \<exists>s. map_of z m = Some s \<and> Unix now \<le> s}" "distinct ms"
        using ms [OF zres] live_active [OF ok, of t] zz by auto
      then have "\<exists>i. in_int64 i \<and> m = show_int i" if "m \<in> set ms" for m
        using zz(2) that map_of_SomeD unfolding id_members_def by fastforce
      then obtain "is" where "ms = map show_int is" "scan_ids ms = Inr is"
        using scan_ids_members by meson
      with scan have ids: "ms = map show_int ids" by simp
      have "set ids = {i. show_int i \<in> set ms}"
        unfolding ids by auto
      also have "\<dots> = {i. \<exists>s. sc_active (view p (ks w)) i = Some s \<and> Unix now \<le> s}"
        unfolding set_ms(1) by (simp add: view_def view_active_def zz(1))
      finally show ?thesis using set_ms(2) by (simp add: ids distinct_map)
    qed
  qed
  with t w1 show ?thesis by (auto simp: during_def)
qed

lemma add_index_view:
  assumes ok: "cache_ok p (ks w)" and i: "in_int64 (mail_ID m)"
    and call: "redis_AddGlobalMailToIndexes \<lparr>rr_client = C, rr_prefix = p\<rparr> m w = (ures, w')"
  shows "cache_ok p (ks w') \<and> rnow w \<le> rnow w' \<and>
      (view p (ks w') = view p (ks w) \<and> isl ures \<or>
       view p (ks w') = (view p (ks w))\<lparr>sc_active := (sc_active (view p (ks w)))(mail_ID m \<mapsto> Unix (mail_ExpireTime m))\<rparr>)"
proof -
  let ?k = "redis_key p ''GlobalMailActiveIndex''"
  let ?z = "case ks w ?k of Some (RZset z, _) \<Rightarrow> z | _ \<Rightarrow> []"
  let ?sadds = "map (\<lambda>s. SAdd (globalMailByServerKey p s) [show_int (mail_ID m)])
       (serverIDsFromConditions (mail_Conditions m))"
  let ?d = "(ks w)(?k \<mapsto> (RZset (AList.update (show_int (mail_ID m)) (Unix (mail_ExpireTime m)) ?z), None))"
  have "rd_exec C (index_commands p m) w = (ures, w')"
    using call by (simp add: redis_AddGlobalMailToIndexes_def)
  from exec [OF this] obtain t where t: "during rnow w w' t"
    "ks w' = ks w \<and> isl ures \<or> ks w' = snd (cmds_apply t (index_commands p m) (ks w))" by blast
  have "cmd_apply t (ZAdd ?k (Unix (mail_ExpireTime m)) (show_int (mail_ID m))) (ks w) = Some ?d"
    using ok live_active [OF ok, of t]
    by (auto simp: cache_ok_def expiry_of_def split: option.splits prod.splits)
  then have "snd (cmds_apply t (index_commands p m) (ks w)) = snd (cmds_apply t ?sadds ?d)"
    by (simp add: index_commands_def)
  moreover note view_set_active [OF ok i refl, of "Unix (mail_ExpireTime m)"]
  moreover have "cache_ok p (snd (cmds_apply t ?sadds ?d)) \<and> view p (snd (cmds_apply t ?sadds ?d)) = view p ?d"
    by (rule sadds_frame) (use calculation in auto)
  ultimately show ?thesis using t ok unfolding during_def by (elim disjE conjE) simp_all
qed

end

lemma redis_CacheRepository_sel [simp]:
  "GetGlobalMailVersion (redis_CacheRepository r) = redis_GetGlobalMailVersion r"
  "AdvanceGlobalMailVersion (redis_CacheRepository r) = redis_AdvanceGlobalMailVersion r"
  "GetGlobalMail (redis_CacheRepository r) = redis_GetGlobalMail r"
  "SetGlobalMail (redis_CacheRepository r) = redis_SetGlobalMail r"
  "GetActiveGlobalMailIDs (redis_CacheRepository r) = redis_GetActiveGlobalMailIDs r"
  "AddGlobalMailToIndexes (redis_CacheRepository r) = redis_AddGlobalMailToIndexes r"
  "GetUserProfile (redis_CacheRepository r) = redis_GetUserProfile r"
  by (simp_all add: redis_CacheRepository_def)

sublocale redis_repository \<subseteq> cache: shared_cache
  "redis_CacheRepository \<lparr>rr_client = C, rr_prefix = p\<rparr>" "\<lambda>w. view p (ks w)" "\<lambda>w. cache_ok p (ks w)" rnow
proof (unfold_locales, unfold redis_CacheRepository_sel, goal_cases)
  case (1 w ires w')
  then show ?case using version_view [OF 1] by simp
next
  case (2 w n ires w')
  then show ?case by (rule advance_view)
next
  case (3 w i m e)
  then show ?case
    using mail_entry [OF 3(1), of i] by (auto simp: view_def view_mail_def split: option.splits)
next
  case (4 w i mres w')
  then show ?case using get_mail_view [OF 4] by simp
next
  case (5 w m ures w')
  then show ?case by (rule set_mail_view)
next
  case (6 w now lres w')
  then show ?case using active_view [OF 6] by simp
next
  case (7 w m ures w')
  then show ?case by (rule add_index_view)
qed

section \<open>What Redis leaves alone\<close>

definition redis_keeps :: "('w \<Rightarrow> 'v) \<Rightarrow> 'w redis_client \<Rightarrow> bool" where
  "redis_keeps v C \<longleftrightarrow> (\<forall>k. keeps v (rd_get C k)) \<and> (\<forall>k b ttl. keeps v (rd_set C k b ttl)) \<and>
     (\<forall>k b ttl. keeps v (rd_setnx C k b ttl)) \<and> (\<forall>k. keeps v (rd_incr C k)) \<and>
     (\<forall>k. keeps v (rd_del C k)) \<and> (\<forall>k f. keeps v (rd_eval C k f)) \<and>
     (\<forall>k lo. keeps v (rd_zrangebyscore C k lo)) \<and> (\<forall>k. keeps v (rd_smembers C k)) \<and>
     (\<forall>k fs. keeps v (rd_hmget C k fs)) \<and> (\<forall>cmds. keeps v (rd_exec C cmds)) \<and> keeps v (rd_clock C)"

lemma keeps_redis_relay:
  assumes "redis_keeps v (rr_client r)"
  shows "keeps v (redis_SetGlobalMail r m)" "keeps v (redis_AddGlobalMailToIndexes r m)"
    "keeps v (redis_AdvanceGlobalMailVersion r n)" "keeps v (redis_GetGlobalMailVersion r)"
    "keeps v (redis_GetGlobalMail r i)" "keeps v (redis_GetActiveGlobalMailIDs r t)"
proof -
  have k: "\<And>k. keeps v (rd_get (rr_client r) k)" "\<And>k b ttl. keeps v (rd_set (rr_client r) k b ttl)"
    "\<And>k f. keeps v (rd_eval (rr_client r) k f)" "\<And>cmds. keeps v (rd_exec (rr_client r) cmds)"
    "\<And>k lo. keeps v (rd_zrangebyscore (rr_client r) k lo)" "keeps v (rd_clock (rr_client r))"
    using assms by (simp_all add: redis_keeps_def)
  show "keeps v (redis_AddGlobalMailToIndexes r m)" "keeps v (redis_AdvanceGlobalMailVersion r n)"
    by (simp_all add: redis_AddGlobalMailToIndexes_def redis_AdvanceGlobalMailVersion_def k)
  show "keeps v (redis_SetGlobalMail r m)"
    by (rule keepsI) (auto simp: redis_SetGlobalMail_def Let_def split: sum.splits prod.splits
        dest!: keepsD [OF k(2)] keepsD [OF k(6)])
  show "keeps v (redis_GetGlobalMailVersion r)"
    by (rule keepsI) (auto simp: redis_GetGlobalMailVersion_def split: sum.splits prod.splits if_splits
        dest!: keepsD [OF k(1)])
  show "keeps v (redis_GetGlobalMail r i)"
    by (rule keepsI) (auto simp: redis_GetGlobalMail_def get_json_def split: sum.splits prod.splits if_splits
        dest!: keepsD [OF k(1)])
  show "keeps v (redis_GetActiveGlobalMailIDs r t)"
    by (rule keepsI) (auto simp: redis_GetActiveGlobalMailIDs_def io_bind_def split: sum.splits prod.splits
        dest!: keepsD [OF k(5)])
qed

lemma keeps_redis_lock:
  assumes "redis_keeps v (rr_client r)"
    "redis_TryAcquireGlobalMailRebuildLock r n ttl w = (lres, w')"
  shows "v w' = v w" "lres = Inr (release, b) \<Longrightarrow> keeps v release"
proof -
  have k: "\<And>k b ttl. keeps v (rd_setnx (rr_client r) k b ttl)" "\<And>k f. keeps v (rd_eval (rr_client r) k f)"
    "keeps v (rd_clock (rr_client r))"
    using assms(1) by (simp_all add: redis_keeps_def)
  show "v w' = v w"
    using assms(2) by (auto simp: redis_TryAcquireGlobalMailRebuildLock_def Let_def
        split: sum.splits prod.splits if_splits dest!: keepsD [OF k(1)] keepsD [OF k(3)])
  have "keeps v (io_bind (rd_eval (rr_client r) key script) (\<lambda>_. io_return ()))" for key script
    by (intro keeps_bind k keeps_return)
  then show "keeps v release" if "lres = Inr (release, b)"
    using assms(2) that by (auto simp: redis_TryAcquireGlobalMailRebuildLock_def Let_def
        split: sum.splits prod.splits if_splits)
qed

end
