(* ===== verification/Mem_World.thy ===== *)
theory Mem_World
  imports Mysql_Contract Redis_Contract
begin

text \<open>
  A world in memory: the tables, the keyspace, the messages of the topic, a clock that moves on
  at every reading, a source of ids, and a list of faults that says which of the next calls
  fail. It gives executable instances of the drivers, which satisfy the contracts \<open>gorm\<close> and
  \<open>redis_repository\<close>: the contracts can be met, and the theorems that rest on them can be run.
\<close>

record mem_world =
  mw_db :: tables
  mw_keys :: keyspace
  mw_topic :: "kafka_message list"
  mw_ticks :: nat
  mw_next_id :: int
  mw_faults :: "bool list"

text \<open>A call to a server: it fails with nothing done when the next fault says so.\<close>

definition mem_fault :: error where "mem_fault = ExternalError ''i/o timeout''"

definition mem_call :: "(mem_world, 'a) io \<Rightarrow> (mem_world, 'a) io" where
  "mem_call f w = (case mw_faults w of
       [] \<Rightarrow> f w
     | b # bs \<Rightarrow> if b then (Inl mem_fault, w\<lparr>mw_faults := bs\<rparr>) else f (w\<lparr>mw_faults := bs\<rparr>))"

text \<open>The time starts with the year 2024 and stays within the following 36 years.\<close>

definition mem_now :: "mem_world \<Rightarrow> go_time" where
  "mem_now w = 63839664000 * time_second + min (int (mw_ticks w)) (2 ^ 60)"

definition mem_clock :: "mem_world clock" where
  "mem_clock w = (mem_now w, w\<lparr>mw_ticks := mw_ticks w + 1\<rparr>)"

definition mem_ids :: "mem_world IDGenerator" where
  "mem_ids = \<lparr>NextID = (\<lambda>w. (mw_next_id w, w\<lparr>mw_next_id := mw_next_id w + 1\<rparr>))\<rparr>"

definition mem_table ::
  "(tables \<Rightarrow> 'r list) \<Rightarrow> ('r list \<Rightarrow> tables \<Rightarrow> tables) \<Rightarrow> ('r \<Rightarrow> 'k) \<Rightarrow> ('r, mem_world) table" where
  "mem_table get put key = \<lparr>
     tbl_create = (\<lambda>r. mem_call (\<lambda>w. case rows_insert key r (get (mw_db w)) of
         None \<Rightarrow> (Inl (ExternalError ''Duplicate entry''), w)
       | Some rs \<Rightarrow> (Inr (), w\<lparr>mw_db := put rs (mw_db w)\<rparr>))),
     tbl_create_ignore = (\<lambda>r. mem_call (\<lambda>w.
         (Inr (if key r \<in> key ` set (get (mw_db w)) then 0 else 1),
          w\<lparr>mw_db := put (rows_insert_ignore key r (get (mw_db w))) (mw_db w)\<rparr>))),
     tbl_upsert = (\<lambda>r assigns. mem_call (\<lambda>w.
         (Inr (), w\<lparr>mw_db := put (rows_upsert key r assigns (get (mw_db w))) (mw_db w)\<rparr>))),
     tbl_first = (\<lambda>P. mem_call (\<lambda>w. case find P (get (mw_db w)) of
         None \<Rightarrow> (Inl ErrRecordNotFound, w) | Some r \<Rightarrow> (Inr r, w))),
     tbl_find = (\<lambda>P. mem_call (\<lambda>w. (Inr (filter P (get (mw_db w))), w))),
     tbl_find_for_update = (\<lambda>P ord n. mem_call (\<lambda>w.
         (Inr (take (nat n) (sort_key ord (filter P (get (mw_db w))))), w))),
     tbl_updates = (\<lambda>P f. mem_call (\<lambda>w.
         (Inr (), w\<lparr>mw_db := put (rows_update P f (get (mw_db w))) (mw_db w)\<rparr>)))\<rparr>"

lemmas mem_defs = mem_table_def mem_call_def mem_fault_def

lemma mset_take_subseteq: "mset (take n xs) \<subseteq># mset xs"
  by (metis append_take_drop_id mset_append mset_subset_eq_add_left)

lemma sorted_map_take: "sorted (map f xs) \<Longrightarrow> sorted (map f (take n xs))"
  by (simp add: take_map [symmetric] sorted_wrt_take)

lemma take_sorted_rows:
  assumes "rs = take (nat n) (sort_key ord (filter P xs))" "0 < n"
  shows "mset rs \<subseteq># mset (filter P xs) \<and> sorted (map ord rs) \<and> int (length rs) \<le> n"
  using assms mset_take_subseteq [of "nat n" "sort_key ord (filter P xs)"]
  by (simp add: sorted_map_take)

lemma mem_sql_table:
  assumes "\<And>rs d. get (put rs d) = rs"
  shows "sql_table (mem_table get put key) mw_db get put key plain"
proof (unfold_locales, goal_cases)
  case (12 n P ord w rs w')
  then show ?case
    by (intro take_sorted_rows) (auto simp: mem_defs split: list.splits if_splits)
qed (auto simp: mem_defs commits_def find_Some_iff find_None_iff filter_empty_conv
    split: list.splits if_splits option.splits)

text \<open>A condition without a key gets the next one.\<close>

definition mem_next_key :: "int list \<Rightarrow> int" where
  "mem_next_key keys = fold max keys 0 + 1"

definition mem_condition_table :: "(GlobalMailConditionModel, mem_world) table" where
  "mem_condition_table =
     (let T = mem_table tb_condition (\<lambda>rs. tb_condition_update (\<lambda>_. rs)) gcm_ConditionID
      in T\<lparr>tbl_create := (\<lambda>r w. tbl_create T
           (if gcm_ConditionID r = 0
            then r\<lparr>gcm_ConditionID := mem_next_key (map gcm_ConditionID (tb_condition (mw_db w)))\<rparr>
            else r) w)\<rparr>)"

definition mem_gorm :: "mem_world gorm_db" where
  "mem_gorm = \<lparr>
     T_global_mail = mem_table tb_global_mail (\<lambda>rs. tb_global_mail_update (\<lambda>_. rs)) gmm_GlobalMailID,
     T_condition = mem_condition_table,
     T_state = mem_table tb_state (\<lambda>rs. tb_state_update (\<lambda>_. rs)) (\<lambda>r. (usm_RoleID r, usm_GlobalMailID r)),
     T_ledger = mem_table tb_ledger (\<lambda>rs. tb_ledger_update (\<lambda>_. rs)) rlm_GrantKey,
     T_backpack = mem_table tb_backpack (\<lambda>rs. tb_backpack_update (\<lambda>_. rs)) bpm_GrantKey,
     T_outbox = mem_table tb_outbox (\<lambda>rs. tb_outbox_update (\<lambda>_. rs)) obm_EventID,
     T_idempotency = mem_table tb_idempotency (\<lambda>rs. tb_idempotency_update (\<lambda>_. rs)) idm_IdempotencyKey,
     tx_commit = (\<lambda>w0 w1. case mem_call (\<lambda>w. (Inr (), w)) w1 of
         (Inl e, w2) \<Rightarrow> (Inl e, w2\<lparr>mw_db := mw_db w0\<rparr>) | (Inr u, w2) \<Rightarrow> (Inr u, w2)),
     tx_rollback = (\<lambda>w0 w1. w1\<lparr>mw_db := mw_db w0\<rparr>),
     db_now = mem_clock\<rparr>"

lemma fold_max_ge: "(m::int) \<le> fold max xs m"
  by (induction xs arbitrary: m) (auto intro: order_trans [OF max.cobounded2])

lemma mem_next_key_pos: "mem_next_key ks \<noteq> 0"
  using fold_max_ge [of 0 ks] by (simp add: mem_next_key_def)

lemma mem_condition_sql_table:
  "sql_table mem_condition_table mw_db tb_condition (\<lambda>rs. tb_condition_update (\<lambda>_. rs))
     gcm_ConditionID (\<lambda>r. gcm_ConditionID r \<noteq> 0)"
proof (unfold_locales, goal_cases)
  case (12 n P ord w rs w')
  then show ?case
    by (intro take_sorted_rows)
      (auto simp: mem_condition_table_def Let_def mem_defs split: list.splits if_splits)
qed (auto simp: mem_condition_table_def Let_def mem_defs commits_def find_Some_iff find_None_iff
    filter_empty_conv split: list.splits if_splits option.splits)

lemma mem_auto_condition:
  assumes "gcm_ConditionID c = 0" "tbl_create mem_condition_table c w = (ares, w')"
  shows "\<exists>k. k \<noteq> 0 \<and> commits (insert_condition (c\<lparr>gcm_ConditionID := k\<rparr>)) (mw_db w) ares (mw_db w')"
  using assms
  by (intro exI [of _ "mem_next_key (map gcm_ConditionID (tb_condition (mw_db w)))"])
    (auto simp: mem_condition_table_def Let_def mem_defs commits_def insert_condition_def insert_row_def
      mem_next_key_pos split: list.splits if_splits option.splits)

interpretation mem: gorm mem_gorm mw_db
proof -
  note tables = mem_sql_table [of tb_global_mail] mem_sql_table [of tb_state]
    mem_sql_table [of tb_ledger] mem_sql_table [of tb_backpack] mem_sql_table [of tb_outbox]
    mem_sql_table [of tb_idempotency]
  show "gorm mem_gorm mw_db"
    by (intro gorm.intro gorm_axioms.intro)
      (auto simp: mem_gorm_def mem_condition_sql_table mem_auto_condition mem_clock_def mem_call_def
        intro!: tables split: list.splits if_splits)
qed

section \<open>Redis in memory\<close>

definition mem_string :: "keyspace \<Rightarrow> go_time \<Rightarrow> string \<Rightarrow> error + rbytes option" where
  "mem_string d t k = (case string_at t d k of
     None \<Rightarrow> Inl (ExternalError ''WRONGTYPE'') | Some cur \<Rightarrow> Inr cur)"

text \<open>A time to live in whole milliseconds, at least one.\<close>

definition mem_expiry :: "go_time \<Rightarrow> duration \<Rightarrow> go_time option" where
  "mem_expiry t ttl = (if ttl > 0 then Some (t + max 1 (ttl div time_millisecond) * time_millisecond)
     else None)"

definition zset_range :: "int \<Rightarrow> (string \<times> int) list \<Rightarrow> string list" where
  "zset_range lo z =
     filter (\<lambda>m. case map_of z m of None \<Rightarrow> False | Some s \<Rightarrow> lo \<le> s) (remdups (map fst z))"

lemma zset_range_members:
  "distinct (zset_range lo z)" "set (zset_range lo z) = {m. \<exists>s. map_of z m = Some s \<and> lo \<le> s}"
  by (auto simp: zset_range_def split: option.splits dest: map_of_SomeD)
    (force dest: map_of_SomeD)

definition mem_redis :: "mem_world redis_client" where
  "mem_redis = \<lparr>
     rd_get = (\<lambda>k. mem_call (\<lambda>w. case mem_string (mw_keys w) (mem_now w) k of
         Inl e \<Rightarrow> (Inl e, w) | Inr None \<Rightarrow> (Inl RedisNil, w) | Inr (Some b) \<Rightarrow> (Inr b, w))),
     rd_set = (\<lambda>k b ttl. mem_call (\<lambda>w.
         (Inr (), w\<lparr>mw_keys := (mw_keys w)(k \<mapsto> (RString b, mem_expiry (mem_now w) ttl))\<rparr>))),
     rd_setnx = (\<lambda>k b ttl. mem_call (\<lambda>w. if ks_live (mem_now w) (mw_keys w) k = None
         then (Inr True, w\<lparr>mw_keys := (mw_keys w)(k \<mapsto> (RString b, mem_expiry (mem_now w) ttl))\<rparr>)
         else (Inr False, w))),
     rd_incr = (\<lambda>k. mem_call (\<lambda>w. case mem_string (mw_keys w) (mem_now w) k of
         Inl e \<Rightarrow> (Inl e, w)
       | Inr cur \<Rightarrow> (case (case cur of None \<Rightarrow> Inr 0 | Some b \<Rightarrow> bytes_int b) of
             Inl e \<Rightarrow> (Inl e, w)
           | Inr n \<Rightarrow> (Inr (n + 1), w\<lparr>mw_keys := (mw_keys w)(k \<mapsto>
               (RString (BText (show_int (n + 1))), expiry_of (mem_now w) (mw_keys w) k))\<rparr>)))),
     rd_del = (\<lambda>k. mem_call (\<lambda>w. (Inr (), w\<lparr>mw_keys := (mw_keys w)(k := None)\<rparr>))),
     rd_eval = (\<lambda>k script. mem_call (\<lambda>w. case mem_string (mw_keys w) (mem_now w) k of
         Inl e \<Rightarrow> (Inl e, w)
       | Inr cur \<Rightarrow> (case script cur of Inl e \<Rightarrow> (Inl e, w)
           | Inr (eff, n) \<Rightarrow> (Inr n, w\<lparr>mw_keys := lua_apply k eff (mw_keys w)\<rparr>)))),
     rd_zrangebyscore = (\<lambda>k lo. mem_call (\<lambda>w. case ks_live (mem_now w) (mw_keys w) k of
         None \<Rightarrow> (Inr [], w)
       | Some (RZset z) \<Rightarrow> (Inr (zset_range lo z), w)
       | Some _ \<Rightarrow> (Inl (ExternalError ''WRONGTYPE''), w))),
     rd_smembers = (\<lambda>k. mem_call (\<lambda>w. case ks_live (mem_now w) (mw_keys w) k of
         None \<Rightarrow> (Inr [], w) | Some (RSet s) \<Rightarrow> (Inr (remdups s), w)
       | Some _ \<Rightarrow> (Inl (ExternalError ''WRONGTYPE''), w))),
     rd_hmget = (\<lambda>k fs. mem_call (\<lambda>w. case ks_live (mem_now w) (mw_keys w) k of
         None \<Rightarrow> (Inr (map (\<lambda>_. None) fs), w) | Some (RHash h) \<Rightarrow> (Inr (map (map_of h) fs), w)
       | Some _ \<Rightarrow> (Inl (ExternalError ''WRONGTYPE''), w))),
     rd_exec = (\<lambda>cmds. mem_call (\<lambda>w. case cmds_apply (mem_now w) cmds (mw_keys w) of
         (done, d) \<Rightarrow> (if done then Inr () else Inl (ExternalError ''WRONGTYPE''), w\<lparr>mw_keys := d\<rparr>))),
     rd_clock = mem_clock\<rparr>"

lemma mem_expiry_ok: "set_expiry t ttl (mem_expiry t ttl)"
proof (cases "ttl > 0")
  case True
  have "ttl - time_millisecond < ttl div time_millisecond * time_millisecond"
    "ttl div time_millisecond * time_millisecond \<le> ttl"
    by (simp_all add: time_millisecond_def minus_mod_eq_div_mult [symmetric])
  then show ?thesis using True
    by (auto simp: set_expiry_def mem_expiry_def max_def time_millisecond_def)
qed (simp add: set_expiry_def mem_expiry_def)

lemma during_now: "during rnow w w' t" if "rnow w = t" "rnow w' = t"
  using that by (simp add: during_def)

lemmas mem_redis_simps = mem_redis_def mem_call_def mem_string_def during_def commits_def

lemma mem_now_update [simp]:
  "mem_now (w\<lparr>mw_keys := d\<rparr>) = mem_now w" "mem_now (w\<lparr>mw_faults := bs\<rparr>) = mem_now w"
  "mem_now (w\<lparr>mw_db := t\<rparr>) = mem_now w"
  by (simp_all add: mem_now_def)

lemma mem_clock_now:
  "mem_clock w = (t, w') \<Longrightarrow> t = mem_now w \<and> mem_now w \<le> mem_now w' \<and> mem_now w' \<le> mem_now w + 1 \<and>
     mw_keys w' = mw_keys w \<and> mw_db w' = mw_db w"
  by (auto simp: mem_clock_def mem_now_def)

lemma mem_redis_laws: "redis mem_redis mw_keys mem_now"
proof (unfold_locales, goal_cases)
  case (1 k w gres w')
  then show ?case
    by (auto simp: mem_redis_simps mem_fault_def split: list.splits if_splits option.splits)
next
  case (2 k b ttl w ures w')
  then show ?case
    by (intro exI [of _ "mem_now w"] exI [of _ "mem_expiry (mem_now w) ttl"])
      (auto simp: mem_redis_simps mem_expiry_ok split: list.splits if_splits)
next
  case (3 k b ttl w acquired w')
  then show ?case
    by (intro exI [of _ "mem_now w"] exI [of _ "mem_expiry (mem_now w) ttl"])
      (auto simp: mem_redis_simps mem_expiry_ok split: list.splits if_splits)
next
  case (4 k b ttl w err w')
  then show ?case
    by (intro exI [of _ "mem_now w"] exI [of _ "mem_expiry (mem_now w) ttl"])
      (auto simp: mem_redis_simps mem_expiry_ok split: list.splits if_splits)
next
  case (5 k w ires w')
  then show ?case
    by (intro exI [of _ "mem_now w"])
      (auto simp: mem_redis_simps split: list.splits if_splits option.splits sum.splits)
next
  case (6 k w ures w')
  then show ?case by (auto simp: mem_redis_simps split: list.splits if_splits)
next
  case (7 k script w n w')
  then show ?case
    by (auto simp: mem_redis_simps split: list.splits if_splits option.splits sum.splits)
next
  case (8 k script w err w')
  then show ?case
    by (auto simp: mem_redis_simps split: list.splits if_splits option.splits sum.splits)
next
  case (9 k lo w lres w')
  then show ?case
    by (intro conjI exI [of _ "mem_now w"])
      (auto simp: mem_redis_simps zset_range_members split: list.splits if_splits option.splits rvalue.splits)
next
  case (10 k w lres w')
  then show ?case
    by (intro conjI exI [of _ "mem_now w"])
      (auto simp: mem_redis_simps split: list.splits if_splits option.splits rvalue.splits)
next
  case (11 k fs w hres w')
  then show ?case
    by (intro conjI exI [of _ "mem_now w"])
      (auto simp: mem_redis_simps split: list.splits if_splits option.splits rvalue.splits)
next
  case (12 cmds w ures w')
  then show ?case
    by (intro exI [of _ "mem_now w"])
      (auto simp: mem_redis_simps split: list.splits if_splits prod.splits)
next
  case (13 w now w')
  then show ?case by (auto simp: mem_redis_def dest: mem_clock_now)
qed

interpretation mem_repo: redis_repository mem_redis mw_keys mem_now p for p
proof -
  show "redis_repository mem_redis mw_keys mem_now"
    by (intro redis_repository.intro redis_clocks.intro mem_redis_laws redis_clocks_axioms.intro)
      (auto simp: mem_redis_def time_units dest!: mem_clock_now)
qed

end
