(* ===== verification/Publisher.thy ===== *)
theory Publisher
  imports Mem_World
begin

text \<open>
  The publishing service (\<^verbatim>\<open>domain/globalmail/publisher.go\<close>), the HTTP handler of the admin
  server that calls it (\<^verbatim>\<open>app/adminsrv/server.go\<close>) and its id generator
  (\<^verbatim>\<open>cmd/adminsrv/main.go\<close>). The hexadecimal SHA-256 digest of an encoded request is the
  parameter \<open>digest\<close>: no property below depends on which function it is.
\<close>

section \<open>The service\<close>

record 'w PublisherService =
  pub_repo :: "'w MailRepository"
  pub_ids :: "'w IDGenerator"
  pub_now :: "'w clock"

text \<open>The field \<^verbatim>\<open>cache\<close> of the service, which no method reads, is left out.\<close>

definition NewPublisherService :: "'w MailRepository \<Rightarrow> 'w IDGenerator \<Rightarrow> 'w clock \<Rightarrow> 'w PublisherService" where
  "NewPublisherService repo ids clock = \<lparr>pub_repo = repo, pub_ids = ids, pub_now = clock\<rparr>"

record PublishCommand =
  pc_Mail :: GlobalMail
  pc_Conditions :: "Condition list"
  pc_Action :: string
  pc_IdempotencyKey :: string

definition EventTypeGlobalMailChanged :: string where
  "EventTypeGlobalMailChanged = ''GlobalMailChanged''"

definition ErrIdempotencyConflict :: error where
  "ErrIdempotencyConflict = ErrorNew ''idempotency key reused with different request''"

definition validateMail :: "GlobalMail \<Rightarrow> error option" where
  "validateMail mail =
     (if mail_Title mail = [] then Some (ErrorNew ''global mail title is required'')
      else if mail_Content mail = [] then Some (ErrorNew ''global mail content is required'')
      else if IsZero (mail_StartTime mail) \<or> IsZero (mail_ExpireTime mail)
      then Some (ErrorNew ''global mail start and expire time are required'')
      else if \<not> mail_ExpireTime mail > mail_StartTime mail
      then Some (ErrorNew ''global mail expire time must be after start time'')
      else None)"

definition hashPublishCommand :: "(json \<Rightarrow> string) \<Rightarrow> PublishCommand \<Rightarrow> error + string" where
  "hashPublishCommand digest cmd =
     res_bind (enc_struct
       [fld ''mail'' (marshal_mail (pc_Mail cmd)),
        fld_omit_list ''conditions'' marshal_condition (pc_Conditions cmd),
        fld ''action'' (Inr (JStr (pc_Action cmd)))])
       (\<lambda>encoded. Inr (digest encoded))"

text \<open>The mail, the change event, the outbox event and the idempotency record of a publication.\<close>

definition published_mail :: "PublishCommand \<Rightarrow> go_time \<Rightarrow> int \<Rightarrow> GlobalMail" where
  "published_mail cmd now mailID = (pc_Mail cmd)
     \<lparr>mail_ID := mailID, mail_Status := MailStatusPublished, mail_Version := 1,
      mail_Conditions := pc_Conditions cmd, mail_CreateTime := now, mail_UpdateTime := now\<rparr>"

definition changed_event :: "GlobalMail \<Rightarrow> string \<Rightarrow> int \<Rightarrow> go_time \<Rightarrow> GlobalMailChangedEvent" where
  "changed_event mail action eventID now =
     \<lparr>ch_EventID = eventID, ch_GlobalMailID = mail_ID mail, ch_Version = mail_Version mail,
      ch_Action = action, ch_Timestamp = now\<rparr>"

definition outbox_event :: "GlobalMail \<Rightarrow> int \<Rightarrow> json \<Rightarrow> go_time \<Rightarrow> OutboxEvent" where
  "outbox_event mail eventID payload now =
     \<lparr>ev_ID = eventID, ev_Type = EventTypeGlobalMailChanged, ev_AggregateID = mail_ID mail,
      ev_Version = mail_Version mail, ev_Payload = RawValid payload, ev_Status = OutboxStatusPending,
      ev_RetryCount = 0, ev_NextRetryTime = None, ev_LockedBy = [], ev_LockedUntil = None,
      ev_FailureReason = [], ev_PublishedTime = None, ev_CreateTime = now, ev_UpdateTime = now\<rparr>"

definition idempotency_record ::
  "PublishCommand \<Rightarrow> string \<Rightarrow> GlobalMail \<Rightarrow> json \<Rightarrow> go_time \<Rightarrow> PublishIdempotencyRecord" where
  "idempotency_record cmd requestHash mail responseSnapshot now =
     \<lparr>idem_Key = pc_IdempotencyKey cmd, idem_Action = pc_Action cmd, idem_RequestHash = requestHash,
      idem_GlobalMailID = mail_ID mail, idem_TargetVersion = mail_Version mail,
      idem_Status = IdempotencyStatusSucceeded, idem_ResponseSnapshot = RawValid responseSnapshot,
      idem_CreateTime = now, idem_UpdateTime = now\<rparr>"

text \<open>The second half of \<^verbatim>\<open>Publish\<close>, from the reading of the clock on.\<close>

definition publish_new ::
  "'w PublisherService \<Rightarrow> PublishCommand \<Rightarrow> string \<Rightarrow> ('w, GlobalMail) io" where
  "publish_new s cmd requestHash = (\<lambda>w.
     let (now, w1) = pub_now s w;
         (mailID, w2) = (if mail_ID (pc_Mail cmd) = 0 then NextID (pub_ids s) w1
                         else (mail_ID (pc_Mail cmd), w1));
         mail = published_mail cmd now mailID;
         (eventID, w3) = NextID (pub_ids s) w2
     in case marshal_changed (changed_event mail (pc_Action cmd) eventID now) of
          Inl e \<Rightarrow> (Inl e, w3)
        | Inr payload \<Rightarrow>
            let outbox = outbox_event mail eventID payload now
            in if pc_IdempotencyKey cmd = []
               then io_bind (CreateGlobalMailWithOutbox (pub_repo s) mail outbox)
                      (\<lambda>_. io_return mail) w3
               else case marshal_mail mail of
                   Inl e \<Rightarrow> (Inl e, w3)
                 | Inr responseSnapshot \<Rightarrow>
                     io_bind (CreateGlobalMailWithOutboxAndIdempotency (pub_repo s) mail outbox
                               (idempotency_record cmd requestHash mail responseSnapshot now))
                       (\<lambda>_. io_return mail) w3)"

text \<open>\<^verbatim>\<open>if cmd.Action == "" { cmd.Action = "publish" }\<close>\<close>

definition with_action :: "PublishCommand \<Rightarrow> PublishCommand" where
  "with_action cmd = (if pc_Action cmd = [] then cmd\<lparr>pc_Action := ''publish''\<rparr> else cmd)"

text \<open>The answer to a request whose key has been used.\<close>

definition publish_again :: "PublishIdempotencyRecord \<Rightarrow> string \<Rightarrow> error + GlobalMail" where
  "publish_again record requestHash =
     (if idem_RequestHash record \<noteq> requestHash then Inl ErrIdempotencyConflict
      else Unmarshal unmarshal_mail (idem_ResponseSnapshot record))"

definition Publish ::
  "(json \<Rightarrow> string) \<Rightarrow> 'w PublisherService \<Rightarrow> PublishCommand \<Rightarrow> ('w, GlobalMail) io" where
  "Publish digest s cmd = (\<lambda>w.
     case validateMail (pc_Mail cmd) of
       Some e \<Rightarrow> (Inl e, w)
     | None \<Rightarrow>
         let cmd = with_action cmd
         in case hashPublishCommand digest cmd of
              Inl e \<Rightarrow> (Inl e, w)
            | Inr requestHash \<Rightarrow>
                if pc_IdempotencyKey cmd = [] then publish_new s cmd requestHash w
                else case GetPublishIdempotency (pub_repo s) (pc_IdempotencyKey cmd) w of
                    (Inl e, w1) \<Rightarrow> (Inl e, w1)
                  | (Inr (Some record), w1) \<Rightarrow> (publish_again record requestHash, w1)
                  | (Inr None, w1) \<Rightarrow> publish_new s cmd requestHash w1)"

section \<open>The admin server\<close>

text \<open>\<^verbatim>\<open>timeIDGenerator\<close>: the time in nanoseconds since 1970, in 64 bits.\<close>

definition timeIDGenerator :: "'w clock \<Rightarrow> 'w IDGenerator" where
  "timeIDGenerator clock = \<lparr>NextID = (\<lambda>w. let (now, w1) = clock w
     in (wrap64 (now - 62135596800 * time_second), w1))\<rparr>"

text \<open>A request as the handler reads it: the method, the body, the header \<^verbatim>\<open>Idempotency-Key\<close>.\<close>

record http_request =
  http_Method :: string
  http_Body :: raw_message
  http_IdempotencyKey :: string

datatype http_response =
    HttpError int string           \<comment> \<open>status, text\<close>
  | HttpJSON int "error + json"    \<comment> \<open>status, the encoded body; an encoding error is ignored\<close>

record publishGlobalMailRequest =
  pgr_IdempotencyKey :: string
  pgr_OperatorID :: int
  pgr_Title :: string
  pgr_Content :: string
  pgr_Sender :: string
  pgr_Category :: string
  pgr_StartTime :: go_time
  pgr_ExpireTime :: go_time
  pgr_Conditions :: "Condition list"

fun unmarshal_publish_request :: "json \<Rightarrow> error + publishGlobalMailRequest" where
  "unmarshal_publish_request JNull = Inr \<lparr>pgr_IdempotencyKey = [], pgr_OperatorID = 0,
     pgr_Title = [], pgr_Content = [], pgr_Sender = [], pgr_Category = [], pgr_StartTime = 0,
     pgr_ExpireTime = 0, pgr_Conditions = []\<rparr>"
| "unmarshal_publish_request (JObj kvs) =
    res_bind (decode_string (json_field ''idempotency_key'' kvs)) (\<lambda>key.
    res_bind (decode_int (json_field ''opr_id'' kvs)) (\<lambda>opr.
    res_bind (decode_string (json_field ''title'' kvs)) (\<lambda>title.
    res_bind (decode_string (json_field ''content'' kvs)) (\<lambda>content.
    res_bind (decode_string (json_field ''sender'' kvs)) (\<lambda>sender.
    res_bind (decode_string (json_field ''mail_category'' kvs)) (\<lambda>cat.
    res_bind (decode_time (json_field ''start_time'' kvs)) (\<lambda>st.
    res_bind (decode_time (json_field ''expire_time'' kvs)) (\<lambda>et.
    res_bind (decode_list unmarshal_condition (json_field ''conditions'' kvs)) (\<lambda>conds.
      Inr \<lparr>pgr_IdempotencyKey = key, pgr_OperatorID = opr, pgr_Title = title,
           pgr_Content = content, pgr_Sender = sender, pgr_Category = cat,
           pgr_StartTime = st, pgr_ExpireTime = et, pgr_Conditions = conds\<rparr>)))))))))"
| "unmarshal_publish_request _ = Inl json_type_error"

definition publish_command :: "publishGlobalMailRequest \<Rightarrow> string \<Rightarrow> PublishCommand" where
  "publish_command req key = \<lparr>
     pc_Mail = zero_mail\<lparr>mail_OperatorID := pgr_OperatorID req, mail_Title := pgr_Title req,
       mail_Content := pgr_Content req, mail_Sender := pgr_Sender req,
       mail_Category := pgr_Category req, mail_StartTime := pgr_StartTime req,
       mail_ExpireTime := pgr_ExpireTime req\<rparr>,
     pc_Conditions = pgr_Conditions req, pc_Action = ''publish'', pc_IdempotencyKey = key\<rparr>"

definition handlePublishGlobalMail ::
  "(json \<Rightarrow> string) \<Rightarrow> 'w PublisherService \<Rightarrow> http_request \<Rightarrow> 'w \<Rightarrow> http_response \<times> 'w" where
  "handlePublishGlobalMail digest s r w =
     (if http_Method r \<noteq> ''POST'' then (HttpError 405 ''method not allowed'', w)
      else case Unmarshal unmarshal_publish_request (http_Body r) of
        Inl e \<Rightarrow> (HttpError 400 (error_text e), w)
      | Inr req \<Rightarrow>
          let key = (if pgr_IdempotencyKey req = [] then http_IdempotencyKey r
                     else pgr_IdempotencyKey req)
          in case Publish digest s (publish_command req key) w of
               (Inl e, w1) \<Rightarrow> (HttpError 400 (error_text e), w1)
             | (Inr mail, w1) \<Rightarrow> (HttpJSON 201 (marshal_mail mail), w1))"

text \<open>The service as the admin server builds it.\<close>

definition admin_publisher :: "'w gorm_db \<Rightarrow> 'w clock \<Rightarrow> 'w PublisherService" where
  "admin_publisher D clock = NewPublisherService (mysql_MailRepository D) (timeIDGenerator clock) clock"

lemma admin_publisher_sel [simp]:
  "pub_repo (admin_publisher D clock) = mysql_MailRepository D"
  "pub_ids (admin_publisher D clock) = timeIDGenerator clock" "pub_now (admin_publisher D clock) = clock"
  by (simp_all add: admin_publisher_def NewPublisherService_def)

section \<open>What a publication is\<close>

text \<open>
  \<open>publication cmd h mail d d'\<close>: the content \<open>d'\<close> is \<open>d\<close> with the rows of the publication of
  \<open>mail\<close> for the command \<open>cmd\<close>, whose hash is \<open>h\<close>: the mail, its conditions, a pending outbox
  event that carries the change, and the idempotency record when the command has a key.
\<close>

definition publication ::
  "PublishCommand \<Rightarrow> string \<Rightarrow> GlobalMail \<Rightarrow> tables \<Rightarrow> tables \<Rightarrow> bool" where
  "publication cmd h mail d d' \<longleftrightarrow> (\<exists>now eventID payload rec mail'.
     mail = published_mail cmd now (mail_ID mail) \<and>
     (if mail_ID (pc_Mail cmd) = 0 then mail_ID mail \<noteq> 0 \<and> in_int64 (mail_ID mail)
      else mail_ID mail = mail_ID (pc_Mail cmd)) \<and>
     marshal_changed (changed_event mail (pc_Action cmd) eventID now) = Inr payload \<and>
     (if pc_IdempotencyKey cmd = [] then rec = None
      else \<exists>snap. marshal_mail mail = Inr snap \<and>
        rec = Some (toIdempotencyModel (idempotency_record cmd h mail snap now))) \<and>
     numbered mail mail' \<and>
     db_publish mail' (outbox_event mail eventID payload now) rec d = Some d')"

lemma with_action_sel [simp]:
  "pc_Mail (with_action cmd) = pc_Mail cmd" "pc_Conditions (with_action cmd) = pc_Conditions cmd"
  "pc_IdempotencyKey (with_action cmd) = pc_IdempotencyKey cmd"
  by (simp_all add: with_action_def)

lemma published_mail_sel [simp]:
  "mail_ID (published_mail cmd now i) = i" "mail_Version (published_mail cmd now i) = 1"
  "mail_Conditions (published_mail cmd now i) = pc_Conditions cmd"
  by (simp_all add: published_mail_def)

section \<open>The service over its repository\<close>

locale publisher = mail_repository "pub_repo s" db for s :: "'w PublisherService" and db +
  assumes now_frame: "pub_now s w = (t, w') \<Longrightarrow> db w' = db w"
    and id_frame: "NextID (pub_ids s) w = (i, w') \<Longrightarrow> db w' = db w"
    and id_range: "NextID (pub_ids s) w = (i, w') \<Longrightarrow> i \<noteq> 0 \<and> in_int64 i"
begin

lemma publish_new_publishes:
  assumes "publish_new s cmd h w = (res, w')"
  shows "db w' = db w \<and> isl res \<or>
    (\<exists>mail. publication cmd h mail (db w) (db w') \<and> (\<forall>m. res = Inr m \<longrightarrow> m = mail))"
proof -
  obtain now w1 where now: "pub_now s w = (now, w1)" by fastforce
  obtain mid w2 where mid: "(if mail_ID (pc_Mail cmd) = 0 then NextID (pub_ids s) w1
      else (mail_ID (pc_Mail cmd), w1)) = (mid, w2)" by fastforce
  obtain eid w3 where eid: "NextID (pub_ids s) w2 = (eid, w3)" by fastforce
  have w3: "db w3 = db w"
    using now_frame [OF now] id_frame [OF eid] id_frame mid by (auto split: if_splits)
  have eid0: "eid \<noteq> 0" using id_range [OF eid] by simp
  have mid_ok: "if mail_ID (pc_Mail cmd) = 0 then mid \<noteq> 0 \<and> in_int64 mid
      else mid = mail_ID (pc_Mail cmd)" and mid0: "mid \<noteq> 0"
    using mid id_range [of w1 mid w2] by (auto split: if_splits)
  let ?mail = "published_mail cmd now mid"
  show ?thesis
  proof (cases "marshal_changed (changed_event ?mail (pc_Action cmd) eid now)")
    case (Inl e)
    then show ?thesis
      using assms now mid eid w3 by (auto simp: publish_new_def Let_def)
  next
    case (Inr payload)
    let ?ev = "outbox_event ?mail eid payload now"
    have ok: "publishable ?mail ?ev" using mid0 eid0 by (simp add: publishable_def outbox_event_def)
    note run = assms [unfolded publish_new_def now prod.case Let_def mid eid Inr sum.case]
    show ?thesis
    proof (cases "pc_IdempotencyKey cmd = []")
      case True
      with run obtain ures where c: "CreateGlobalMailWithOutbox (pub_repo s) ?mail ?ev w3 = (ures, w')"
        and res: "isl res = isl ures" "\<And>m. res = Inr m \<Longrightarrow> m = ?mail"
        by (auto simp: io_bind_def split: prod.splits sum.splits)
      from create_mail [OF ok c] w3 res mid_ok True Inr show ?thesis
        unfolding publication_def by (metis published_mail_sel(1))
    next
      case False
      show ?thesis
      proof (cases "marshal_mail ?mail")
        case (Inl e)
        with run False w3 show ?thesis by auto
      next
        case snap: (Inr snap)
        let ?rec = "idempotency_record cmd h ?mail snap now"
        from run False snap obtain ures where
          c: "CreateGlobalMailWithOutboxAndIdempotency (pub_repo s) ?mail ?ev ?rec w3 = (ures, w')"
          and res: "isl res = isl ures" "\<And>m. res = Inr m \<Longrightarrow> m = ?mail"
          by (auto simp: io_bind_def split: prod.splits sum.splits)
        from create_mail_idem [OF ok c] w3 res mid_ok False Inr snap show ?thesis
          unfolding publication_def by (metis published_mail_sel(1))
      qed
    qed
  qed
qed

lemma Publish_valid:
  assumes "validateMail (pc_Mail cmd) = None" "hashPublishCommand digest (with_action cmd) = Inr h"
  shows "Publish digest s cmd w =
    (if pc_IdempotencyKey cmd = [] then publish_new s (with_action cmd) h w
     else case GetPublishIdempotency (pub_repo s) (pc_IdempotencyKey cmd) w of
         (Inl e, w1) \<Rightarrow> (Inl e, w1)
       | (Inr (Some record), w1) \<Rightarrow> (publish_again record h, w1)
       | (Inr None, w1) \<Rightarrow> publish_new s (with_action cmd) h w1)"
  using assms by (simp add: Publish_def Let_def)

lemma Publish_rejected:
  assumes "validateMail (pc_Mail cmd) \<noteq> None \<or> isl (hashPublishCommand digest (with_action cmd))"
  shows "\<exists>e. Publish digest s cmd w = (Inl e, w)"
  using assms
  by (auto simp: Publish_def Let_def split: option.splits sum.splits)

lemma Publish_outcome:
  assumes run: "Publish digest s cmd w = (res, w')" and wf: "tables_wf (db w)"
  shows "db w' = db w \<and> isl res \<or>
    (\<exists>h. hashPublishCommand digest (with_action cmd) = Inr h \<and>
      ((\<exists>mail. publication (with_action cmd) h mail (db w) (db w') \<and> (\<forall>m. res = Inr m \<longrightarrow> m = mail)) \<or>
       db w' = db w \<and> pc_IdempotencyKey cmd \<noteq> [] \<and>
         (\<exists>rec. db_idempotency (pc_IdempotencyKey cmd) (db w) = Some rec \<and> res = publish_again rec h)))"
proof (cases "validateMail (pc_Mail cmd) \<noteq> None \<or> isl (hashPublishCommand digest (with_action cmd))")
  case True
  from Publish_rejected [OF this] run show ?thesis by (metis prod.inject sum.disc(1))
next
  case False
  then obtain h where h: "hashPublishCommand digest (with_action cmd) = Inr h"
    and v: "validateMail (pc_Mail cmd) = None"
    by (cases "hashPublishCommand digest (with_action cmd)") auto
  show ?thesis
  proof (cases "pc_IdempotencyKey cmd = []")
    case True
    with run have "publish_new s (with_action cmd) h w = (res, w')"
      by (simp add: Publish_valid [OF v h])
    from publish_new_publishes [OF this] h show ?thesis by blast
  next
    case False
    obtain ires w1 where g: "GetPublishIdempotency (pub_repo s) (pc_IdempotencyKey cmd) w = (ires, w1)"
      by fastforce
    have w1: "db w1 = db w" using get_idem_frame [OF g] .
    show ?thesis
    proof (cases ires)
      case (Inl e)
      with run g False w1 show ?thesis by (auto simp: Publish_valid [OF v h])
    next
      case (Inr found)
      have found: "found = db_idempotency (pc_IdempotencyKey cmd) (db w)"
        using get_idem [OF wf g [unfolded Inr]] .
      show ?thesis
      proof (cases found)
        case None
        with run g False Inr have "publish_new s (with_action cmd) h w1 = (res, w')"
          by (simp add: Publish_valid [OF v h])
        from publish_new_publishes [OF this] w1 h show ?thesis by auto
      next
        case (Some rec)
        with run g False Inr have "res = publish_again rec h" "w' = w1"
          by (simp_all add: Publish_valid [OF v h])
        with Some found h w1 False show ?thesis by auto
      qed
    qed
  qed
qed

end

section \<open>The admin server over MySQL\<close>

text \<open>
  What is asked of the clock of the admin server: reading it does not touch the database, and it
  shows a time after 1970 and before 2262, when the nanoseconds leave 64 bits.
\<close>

definition clock_ok :: "'w clock \<Rightarrow> ('w \<Rightarrow> 'd) \<Rightarrow> bool" where
  "clock_ok clock db \<longleftrightarrow> (\<forall>w t w'. clock w = (t, w') \<longrightarrow> db w' = db w \<and>
     62135596800 * time_second < t \<and> t < 62135596800 * time_second + 2 ^ 63)"

locale admin_server = gorm D db for D :: "'w gorm_db" and db +
  fixes clock :: "'w clock"
  assumes clock: "clock_ok clock db"

lemma timeIDGenerator_range:
  assumes "clock_ok clock db" "NextID (timeIDGenerator clock) w = (i, w')"
  shows "db w' = db w \<and> i \<noteq> 0 \<and> in_int64 i"
proof -
  obtain t where t: "clock w = (t, w')" and i: "i = wrap64 (t - 62135596800 * time_second)"
    using assms(2) by (auto simp: timeIDGenerator_def split: prod.splits)
  with assms(1) have "db w' = db w" "0 < t - 62135596800 * time_second"
    "t - 62135596800 * time_second < 2 ^ 63" by (force simp: clock_ok_def)+
  then show ?thesis by (simp add: i in_int64_def)
qed

sublocale admin_server \<subseteq> publisher "admin_publisher D clock" db
proof -
  have "mail_repository (pub_repo (admin_publisher D clock)) db"
    by (simp add: mysql_mail.mail_repository_axioms)
  moreover have "publisher_axioms (admin_publisher D clock) db"
    using clock by unfold_locales
      (auto simp: clock_ok_def dest: timeIDGenerator_range [OF clock])
  ultimately show "publisher (admin_publisher D clock) db" by (rule publisher.intro)
qed

lemma mem_clock_ok: "clock_ok mem_clock mw_db"
  by (auto simp: clock_ok_def mem_clock_def mem_now_def time_second_def)

interpretation mem_admin: admin_server mem_gorm mw_db mem_clock
  by unfold_locales (rule mem_clock_ok)

context admin_server begin

lemma is_publisher: "publisher (admin_publisher D clock) db"
  by unfold_locales

end

lemmas admin_publisher_ok = admin_server.is_publisher [OF admin_server.intro, OF _ admin_server_axioms.intro]

section \<open>A run in memory\<close>

definition no_tables :: tables where
  "no_tables = \<lparr>tb_global_mail = [], tb_condition = [], tb_state = [], tb_ledger = [],
     tb_backpack = [], tb_outbox = [], tb_idempotency = []\<rparr>"

definition mem_start :: mem_world where
  "mem_start = \<lparr>mw_db = no_tables, mw_keys = Map.empty, mw_topic = [], mw_ticks = 7,
     mw_next_id = 1, mw_faults = []\<rparr>"

lemma tables_wf_start: "tables_wf (mw_db mem_start)"
  by (simp add: tables_wf_def mem_start_def no_tables_def keys_unique_def)

definition sample_command :: PublishCommand where
  "sample_command = \<lparr>pc_Mail = zero_mail\<lparr>mail_Title := ''maintenance'', mail_Content := ''gift'',
       mail_Loots := RawValid (JArr [JInt 5]),
       mail_StartTime := 63839664000 * time_second, mail_ExpireTime := 63839664000 * time_second + time_hour\<rparr>,
     pc_Conditions = [\<lparr>cond_ID = 0, cond_MailID = 0, cond_Type = ''vip'', cond_Operator = ''gte'',
       cond_Value = RawValid (JInt 3)\<rparr>],
     pc_Action = [], pc_IdempotencyKey = ''k1''\<rparr>"

definition sample_digest :: "json \<Rightarrow> string" where
  "sample_digest j = (case j of JObj kvs \<Rightarrow> show_nat (length kvs) | _ \<Rightarrow> ''0'')"

section \<open>Properties\<close>

lemma publication_wf: "publication cmd h mail d d' \<Longrightarrow> tables_wf d \<Longrightarrow> tables_wf d'"
  unfolding publication_def using db_publish_rows by blast

lemma publish_again_Inr:
  "publish_again rec h = Inr m \<longleftrightarrow>
     idem_RequestHash rec = h \<and> Unmarshal unmarshal_mail (idem_ResponseSnapshot rec) = Inr m"
  "Inr m = publish_again rec h \<longleftrightarrow>
     idem_RequestHash rec = h \<and> Unmarshal unmarshal_mail (idem_ResponseSnapshot rec) = Inr m"
  by (auto simp: publish_again_def)

lemma publish_outcome_wf:
  assumes "Publish digest (admin_publisher mem_gorm mem_clock) cmd w = (res, w')" "tables_wf (mw_db w)"
  shows "tables_wf (mw_db w')"
  using mem_admin.Publish_outcome [OF assms] assms(2) by (auto dest: publication_wf)

text \<open>
  C1. Publishing is all or nothing: whatever the driver reports, the database afterwards is the
  one before or has exactly the rows of the whole publication. When a mail is returned it is
  the published one, or, for a key that was used before by the same request, the stored answer.
  Primary keys stay unique.
\<close>

theorem publish_all_or_nothing:
  assumes "gorm D db" "clock_ok clock db" "tables_wf (db w)"
    and "Publish digest (admin_publisher D clock) cmd w = (res, w')"
  shows "tables_wf (db w') \<and>
    (case res of
       Inl e \<Rightarrow> db w' = db w \<or>
         (\<exists>h mail. hashPublishCommand digest (with_action cmd) = Inr h \<and>
            publication (with_action cmd) h mail (db w) (db w'))
     | Inr mail \<Rightarrow>
         (\<exists>h. hashPublishCommand digest (with_action cmd) = Inr h \<and>
            (publication (with_action cmd) h mail (db w) (db w') \<or>
             db w' = db w \<and> pc_IdempotencyKey cmd \<noteq> [] \<and>
             (\<exists>rec. db_idempotency (pc_IdempotencyKey cmd) (db w) = Some rec \<and>
                idem_RequestHash rec = h \<and>
                Unmarshal unmarshal_mail (idem_ResponseSnapshot rec) = Inr mail))))"
  using publisher.Publish_outcome [OF admin_publisher_ok [OF assms(1,2)] assms(4,3)] assms(3)
  by (cases res) (auto simp: publish_again_Inr dest: publication_wf)

theorem publish_all_or_nothing_witness:
  "\<exists>mail w'. Publish sample_digest (admin_publisher mem_gorm mem_clock) sample_command mem_start = (Inr mail, w') \<and>
     (\<exists>h. publication (with_action sample_command) h mail (mw_db mem_start) (mw_db w'))"
proof -
  obtain res w' where run:
    "Publish sample_digest (admin_publisher mem_gorm mem_clock) sample_command mem_start = (res, w')"
    by fastforce
  have "\<not> isl (fst (Publish sample_digest (admin_publisher mem_gorm mem_clock) sample_command mem_start))"
    by code_simp
  then obtain mail where res: "res = Inr mail" using run by (cases res) auto
  have "db_idempotency (pc_IdempotencyKey sample_command) (mw_db mem_start) = None"
    by (simp add: db_idempotency_def mem_start_def no_tables_def)
  with publish_all_or_nothing [OF mem.gorm_axioms mem_clock_ok tables_wf_start run] run res
  show ?thesis by auto
qed

text \<open>A key that was written by a publication is found again.\<close>

lemma publication_idempotency:
  assumes "publication cmd h mail d d'" "pc_IdempotencyKey cmd \<noteq> []" "tables_wf d"
  obtains snap now where "marshal_mail mail = Inr snap"
    and "db_idempotency (pc_IdempotencyKey cmd) d' = Some (idempotency_record cmd h mail snap now)"
proof -
  from assms obtain now eid payload snap mail' where snap: "marshal_mail mail = Inr snap" and
    pub: "db_publish mail' (outbox_event mail eid payload now)
      (Some (toIdempotencyModel (idempotency_record cmd h mail snap now))) d = Some d'"
    by (auto simp: publication_def)
  let ?row = "toIdempotencyModel (idempotency_record cmd h mail snap now)"
  note rows = db_publish_rows [OF pub]
  have "find (\<lambda>r. idm_IdempotencyKey r = pc_IdempotencyKey cmd) (tb_idempotency d') = Some ?row"
  proof (rule find_unique [where key = idm_IdempotencyKey])
    have "tables_wf d'" using rows assms(3) by blast
    then show "keys_unique idm_IdempotencyKey (tb_idempotency d')" by (simp add: tables_wf_def)
    show "?row \<in> set (tb_idempotency d')" using rows by simp
    show "idm_IdempotencyKey ?row = pc_IdempotencyKey cmd"
      by (simp add: toIdempotencyModel_def idempotency_record_def)
  qed simp
  then show thesis using snap that by (simp add: db_idempotency_def)
qed

lemma wf_published_mail:
  assumes "publication cmd h mail d d'" "wf_mail (pc_Mail cmd)" "list_all wf_condition (pc_Conditions cmd)"
  shows "wf_mail mail"
proof -
  from assms(1) obtain now where m: "mail = published_mail cmd now (mail_ID mail)"
    and i: "in_int64 (mail_ID mail)"
    using assms(2) by (auto simp: publication_def wf_mail_def split: if_splits)
  show ?thesis
    by (subst m) (use i assms(2,3) in \<open>simp add: published_mail_def wf_mail_def in_int64_def\<close>)
qed

text \<open>
  C2. Publishing is idempotent: once a request with a key has published a mail, the same
  request sent again, at any later time at which the idempotency row is still there, changes
  nothing in the database and answers with the same mail (as its JSON form reads back). The
  one call it makes is the reading of the row, and only that reading can fail.
\<close>

theorem publish_idempotent:
  assumes "gorm D db" "clock_ok clock db" "tables_wf (db w)"
    and first: "Publish digest (admin_publisher D clock) cmd w = (Inr mail, w1)"
    and key: "pc_IdempotencyKey cmd \<noteq> []" "db_idempotency (pc_IdempotencyKey cmd) (db w) = None"
    and wf: "wf_mail (pc_Mail cmd)" "list_all wf_condition (pc_Conditions cmd)"
    and later: "tables_wf (db w2)"
      "db_idempotency (pc_IdempotencyKey cmd) (db w2) = db_idempotency (pc_IdempotencyKey cmd) (db w1)"
    and read: "GetPublishIdempotency (mysql_MailRepository D) (pc_IdempotencyKey cmd) w2 = (Inr found, w3)"
  shows "db w3 = db w2 \<and>
    Publish digest (admin_publisher D clock) cmd w2 = (Inr (reread_mail mail), w3)"
proof -
  note pub = admin_publisher_ok [OF assms(1,2)]
  from publisher.Publish_outcome [OF pub first assms(3)] key(2) obtain h where
    h: "hashPublishCommand digest (with_action cmd) = Inr h" and
    p: "publication (with_action cmd) h mail (db w) (db w1)" by auto
  from publication_idempotency [OF p _ assms(3)] key(1) obtain snap now where
    snap: "marshal_mail mail = Inr snap" and
    rec: "db_idempotency (pc_IdempotencyKey cmd) (db w1) =
      Some (idempotency_record (with_action cmd) h mail snap now)" by auto
  have valid: "validateMail (pc_Mail cmd) = None"
    using first by (auto simp: Publish_def split: option.splits)
  have "wf_mail mail" using p by (rule wf_published_mail) (use wf in simp_all)
  then have json: "unmarshal_mail snap = Inr (reread_mail mail)" using snap mail_roundtrip by blast
  have R: "pub_repo (admin_publisher D clock) = mysql_MailRepository D"
    by simp
  have read': "GetPublishIdempotency (pub_repo (admin_publisher D clock)) (pc_IdempotencyKey cmd) w2 = (Inr found, w3)"
    using read R by simp
  note law = publisher.axioms(1) [OF pub]
  have found: "found = Some (idempotency_record (with_action cmd) h mail snap now)"
    using mail_repository.get_idem [OF law later(1) read'] later(2) rec by simp
  have frame: "db w3 = db w2" using mail_repository.get_idem_frame [OF law read'] .
  show ?thesis
    using frame json key(1) read' found
    by (simp add: publisher.Publish_valid [OF pub valid h] publish_again_def idempotency_record_def)
qed

definition mem_admin_after :: mem_world where
  "mem_admin_after =
     snd (Publish sample_digest (admin_publisher mem_gorm mem_clock) sample_command mem_start)"

theorem publish_idempotent_witness:
  "\<exists>mail. fst (Publish sample_digest (admin_publisher mem_gorm mem_clock) sample_command mem_start) = Inr mail \<and>
     fst (Publish sample_digest (admin_publisher mem_gorm mem_clock) sample_command mem_admin_after) = Inr (reread_mail mail)"
proof -
  let ?run = "Publish sample_digest (admin_publisher mem_gorm mem_clock) sample_command"
  have ok: "\<not> isl (fst (?run mem_start))" by code_simp
  then obtain mail where mail: "?run mem_start = (Inr mail, mem_admin_after)"
    unfolding mem_admin_after_def by (metis prod.collapse sum.collapse(2))
  have read: "\<not> isl (fst (GetPublishIdempotency (mysql_MailRepository mem_gorm) ''k1'' mem_admin_after))"
    by code_simp
  have key: "pc_IdempotencyKey sample_command = ''k1''" by (simp add: sample_command_def)
  obtain found w3 where
    "GetPublishIdempotency (mysql_MailRepository mem_gorm) (pc_IdempotencyKey sample_command) mem_admin_after = (Inr found, w3)"
    using read unfolding key by (metis prod.collapse sum.collapse(2))
  moreover have "tables_wf (mw_db mem_admin_after)"
    using publish_outcome_wf [OF mail] tables_wf_start by blast
  moreover have "db_idempotency (pc_IdempotencyKey sample_command) (mw_db mem_start) = None"
    by (simp add: db_idempotency_def mem_start_def no_tables_def)
  moreover have "wf_mail (pc_Mail sample_command)" "list_all wf_condition (pc_Conditions sample_command)"
    "pc_IdempotencyKey sample_command \<noteq> []" by code_simp+
  ultimately have "?run mem_admin_after = (Inr (reread_mail mail), w3)"
    using publish_idempotent [OF mem.gorm_axioms mem_clock_ok tables_wf_start mail, of mem_admin_after found w3]
    by blast
  with mail show ?thesis by simp
qed

text \<open>
  C3. A key that was used by another request is refused: the database does not change, no mail
  is returned, and the error is the conflict, unless the reading of the row itself failed.
\<close>

theorem publish_key_conflict:
  assumes "gorm D db" "clock_ok clock db" "tables_wf (db w)"
    and "validateMail (pc_Mail cmd) = None" "hashPublishCommand digest (with_action cmd) = Inr h"
    and "pc_IdempotencyKey cmd \<noteq> []"
    and "db_idempotency (pc_IdempotencyKey cmd) (db w) = Some rec" "idem_RequestHash rec \<noteq> h"
    and "Publish digest (admin_publisher D clock) cmd w = (res, w')"
  shows "db w' = db w \<and> (res = Inl ErrIdempotencyConflict \<or>
    (\<exists>e. res = Inl e \<and>
       fst (GetPublishIdempotency (mysql_MailRepository D) (pc_IdempotencyKey cmd) w) = Inl e))"
proof -
  note pub = admin_publisher_ok [OF assms(1,2)]
  note law = publisher.axioms(1) [OF pub]
  obtain ires w1 where g: "GetPublishIdempotency (pub_repo (admin_publisher D clock)) (pc_IdempotencyKey cmd) w = (ires, w1)"
    by fastforce
  have frame: "db w1 = db w" using mail_repository.get_idem_frame [OF law g] .
  have R: "pub_repo (admin_publisher D clock) = mysql_MailRepository D"
    by simp
  have "found = Some rec" if "ires = Inr found" for found
    using mail_repository.get_idem [OF law assms(3)] g assms(7) that by simp
  with assms(6,8,9) g frame R show ?thesis
    by (cases ires) (auto simp: publisher.Publish_valid [OF pub assms(4,5)] publish_again_def)
qed

theorem publish_key_conflict_witness:
  "\<exists>w'. Publish sample_digest (admin_publisher mem_gorm mem_clock) (sample_command\<lparr>pc_Conditions := []\<rparr>)
       mem_admin_after = (Inl ErrIdempotencyConflict, w') \<and> mw_db w' = mw_db mem_admin_after"
proof -
  let ?cmd = "sample_command\<lparr>pc_Conditions := []\<rparr>"
  obtain res w' where run:
    "Publish sample_digest (admin_publisher mem_gorm mem_clock) ?cmd mem_admin_after = (res, w')" by fastforce
  have wf: "tables_wf (mw_db mem_admin_after)"
    unfolding mem_admin_after_def
    by (rule publish_outcome_wf [OF prod.collapse [symmetric] tables_wf_start])
  have valid: "validateMail (pc_Mail ?cmd) = None" "hashPublishCommand sample_digest (with_action ?cmd) = Inr ''2''"
    "pc_IdempotencyKey ?cmd \<noteq> []" by code_simp+
  have "\<not> Option.is_none (db_idempotency (pc_IdempotencyKey ?cmd) (mw_db mem_admin_after)) \<and>
      idem_RequestHash (the (db_idempotency (pc_IdempotencyKey ?cmd) (mw_db mem_admin_after))) \<noteq> ''2''"
    by code_simp
  then obtain rec where rec: "db_idempotency (pc_IdempotencyKey ?cmd) (mw_db mem_admin_after) = Some rec"
    "idem_RequestHash rec \<noteq> ''2''" by (auto simp: Option.is_none_def)
  have read: "\<not> isl (fst (GetPublishIdempotency (mysql_MailRepository mem_gorm) (pc_IdempotencyKey ?cmd) mem_admin_after))"
    by code_simp
  from publish_key_conflict [OF mem.gorm_axioms mem_clock_ok wf valid rec run] read run
  show ?thesis by auto
qed

lemma publication_fields:
  assumes "publication cmd h mail d d'"
  shows "mail_Title mail = mail_Title (pc_Mail cmd)" "mail_ExpireTime mail = mail_ExpireTime (pc_Mail cmd)"
    "mail_Status mail = MailStatusPublished"
proof -
  from assms obtain now where m: "mail = published_mail cmd now (mail_ID mail)"
    by (auto simp: publication_def)
  show "mail_Title mail = mail_Title (pc_Mail cmd)" by (subst m) (simp add: published_mail_def)
  show "mail_ExpireTime mail = mail_ExpireTime (pc_Mail cmd)" by (subst m) (simp add: published_mail_def)
  show "mail_Status mail = MailStatusPublished" by (subst m) (simp add: published_mail_def)
qed

lemma pc_Mail_publish_command:
  "mail_Title (pc_Mail (publish_command req key)) = pgr_Title req"
  "mail_ExpireTime (pc_Mail (publish_command req key)) = pgr_ExpireTime req"
  by (simp_all add: publish_command_def)

text \<open>
  The admin server answers 201 only to a POST whose body decodes to a request with a title,
  a content, and a validity that is set and not empty; the mail in the answer carries them, is
  marked published and is the one just stored with all its rows, or it is the stored answer for
  the key of the request and the database has not changed.
\<close>

lemma publish_handler_created:
  assumes "gorm D db" "clock_ok clock db" "tables_wf (db w)"
    and "handlePublishGlobalMail digest (admin_publisher D clock) r w = (HttpJSON status body, w')"
  shows "\<exists>req key mail. status = 201 \<and> http_Method r = ''POST'' \<and>
    Unmarshal unmarshal_publish_request (http_Body r) = Inr req \<and> body = marshal_mail mail \<and>
    pgr_Title req \<noteq> [] \<and> pgr_Content req \<noteq> [] \<and> pgr_StartTime req \<noteq> 0 \<and>
    pgr_StartTime req < pgr_ExpireTime req \<and>
    key = (if pgr_IdempotencyKey req = [] then http_IdempotencyKey r else pgr_IdempotencyKey req) \<and>
    ((\<exists>h. publication (publish_command req key) h mail (db w) (db w') \<and>
         mail_Title mail = pgr_Title req \<and> mail_ExpireTime mail = pgr_ExpireTime req \<and>
         mail_Status mail = MailStatusPublished) \<or>
     db w' = db w \<and> key \<noteq> [] \<and>
       (\<exists>rec. db_idempotency key (db w) = Some rec \<and>
          Unmarshal unmarshal_mail (idem_ResponseSnapshot rec) = Inr mail))"
proof -
  from assms(4) obtain req mail where req: "http_Method r = ''POST''" "status = 201" "body = marshal_mail mail"
      "Unmarshal unmarshal_publish_request (http_Body r) = Inr req" and
    pub: "Publish digest (admin_publisher D clock) (publish_command req
      (if pgr_IdempotencyKey req = [] then http_IdempotencyKey r else pgr_IdempotencyKey req)) w = (Inr mail, w')"
    by (auto simp: handlePublishGlobalMail_def Let_def split: if_splits sum.splits prod.splits)
  define key where "key = (if pgr_IdempotencyKey req = [] then http_IdempotencyKey r else pgr_IdempotencyKey req)"
  have valid: "validateMail (pc_Mail (publish_command req key)) = None"
    using pub by (auto simp: Publish_def key_def split: option.splits)
  then have "pgr_Title req \<noteq> []" "pgr_Content req \<noteq> []" "pgr_StartTime req \<noteq> 0"
    "pgr_StartTime req < pgr_ExpireTime req"
    by (auto simp: validateMail_def publish_command_def IsZero_def split: if_splits)
  moreover have act: "with_action (publish_command req key) = publish_command req key"
    by (simp add: with_action_def publish_command_def)
  moreover have "(\<exists>h. publication (publish_command req key) h mail (db w) (db w')) \<or>
     db w' = db w \<and> key \<noteq> [] \<and> (\<exists>rec. db_idempotency key (db w) = Some rec \<and>
          Unmarshal unmarshal_mail (idem_ResponseSnapshot rec) = Inr mail)"
    using publisher.Publish_outcome [OF admin_publisher_ok [OF assms(1,2)] pub assms(3)]
    unfolding key_def [symmetric] act
    by (auto simp: publish_again_Inr) (simp_all add: publish_command_def)
  ultimately show ?thesis
    using req publication_fields [of "publish_command req key" _ mail "db w" "db w'"] key_def
    unfolding pc_Mail_publish_command by blast
qed

definition sample_request :: http_request where
  "sample_request = \<lparr>http_Method = ''POST'', http_Body = RawValid (JObj
     [(''title'', JStr ''maintenance''), (''content'', JStr ''gift''), (''opr_id'', JInt 9),
      (''start_time'', JTime (63839664000 * time_second)),
      (''expire_time'', JTime (63839664000 * time_second + time_hour)),
      (''conditions'', JArr [JObj [(''condition_type'', JStr ''server''), (''condition_value'', JInt 2)]])]),
     http_IdempotencyKey = []\<rparr>"

end
