(* ===== verification/Metrics.thy ===== *)
theory Metrics
  imports Prelude "HOL-Library.List_Lexorder" "HOL-Library.Char_ord"
begin

text \<open>
  The metrics interface of the domain (\<^verbatim>\<open>domain/globalmail/metrics.go\<close>) and its implementation on
  \<^verbatim>\<open>expvar\<close> maps (\<^verbatim>\<open>infra/metrics/expvar.go\<close>). A Go map of labels is an association list whose
  keys differ; two lists with the same entries stand for the same map.
\<close>

type_synonym labels = "(string \<times> string) list"

record 'w ConsistencyMetrics =
  IncCounter :: "string \<Rightarrow> labels \<Rightarrow> 'w \<Rightarrow> 'w"
  ObserveDuration :: "string \<Rightarrow> duration \<Rightarrow> labels \<Rightarrow> 'w \<Rightarrow> 'w"

text \<open>\<^verbatim>\<open>if metrics != nil { metrics.IncCounter(...) }\<close>\<close>

definition inc_counter :: "'w ConsistencyMetrics option \<Rightarrow> string \<Rightarrow> labels \<Rightarrow> 'w \<Rightarrow> 'w" where
  "inc_counter metrics name labels w =
     (case metrics of None \<Rightarrow> w | Some m \<Rightarrow> IncCounter m name labels w)"

definition observe_duration ::
  "'w ConsistencyMetrics option \<Rightarrow> string \<Rightarrow> duration \<Rightarrow> labels \<Rightarrow> 'w \<Rightarrow> 'w" where
  "observe_duration metrics name d labels w =
     (case metrics of None \<Rightarrow> w | Some m \<Rightarrow> ObserveDuration m name d labels w)"

definition metrics_keep :: "('w \<Rightarrow> 'v) \<Rightarrow> 'w ConsistencyMetrics option \<Rightarrow> bool" where
  "metrics_keep v metrics \<longleftrightarrow> (\<forall>name labels w. v (inc_counter metrics name labels w) = v w) \<and>
     (\<forall>name d labels w. v (observe_duration metrics name d labels w) = v w)"

lemma metrics_keep_None [simp]: "metrics_keep v None"
  by (simp add: metrics_keep_def inc_counter_def observe_duration_def)

section \<open>The expvar implementation\<close>

text \<open>\<^verbatim>\<open>strings.Join\<close>\<close>

fun Join :: "string \<Rightarrow> string list \<Rightarrow> string" where
  "Join sep [] = []"
| "Join sep [s] = s"
| "Join sep (s # t # ss) = s @ sep @ Join sep (t # ss)"

definition metricKey :: "string \<Rightarrow> labels \<Rightarrow> string" where
  "metricKey name labels =
     (if labels = [] then name
      else Join ''|'' (name # map (\<lambda>k. k @ ''='' @ the (map_of labels k)) (sort (map fst labels))))"

text \<open>An \<^verbatim>\<open>expvar.Map\<close> of integers; \<^verbatim>\<open>Add\<close> makes a missing entry from 0.\<close>

record ExpvarMetrics =
  em_counters :: "string \<Rightarrow> int"
  em_durations :: "string \<Rightarrow> int"

text \<open>
  \<^verbatim>\<open>expvar.NewMap\<close> enters a name in the table of the process and panics (\<open>None\<close>) when the name is there.
\<close>

definition expvar_NewMap :: "string \<Rightarrow> string list \<Rightarrow> string list option" where
  "expvar_NewMap name registered = (if name \<in> set registered then None else Some (registered @ [name]))"

definition NewExpvarMetrics :: "string \<Rightarrow> string list \<Rightarrow> (ExpvarMetrics \<times> string list) option" where
  "NewExpvarMetrics namespace registered =
     (let namespace = (if namespace = [] then ''globalmail'' else namespace)
      in case expvar_NewMap (namespace @ ''_counters'') registered of
           None \<Rightarrow> None
         | Some registered1 \<Rightarrow> (case expvar_NewMap (namespace @ ''_durations'') registered1 of
             None \<Rightarrow> None
           | Some registered2 \<Rightarrow> Some (\<lparr>em_counters = (\<lambda>_. 0), em_durations = (\<lambda>_. 0)\<rparr>, registered2)))"

definition expvar_add :: "string \<Rightarrow> int \<Rightarrow> (string \<Rightarrow> int) \<Rightarrow> string \<Rightarrow> int" where
  "expvar_add key n m = m(key := wrap64 (m key + n))"

definition expvar_IncCounter :: "string \<Rightarrow> labels \<Rightarrow> ExpvarMetrics \<Rightarrow> ExpvarMetrics" where
  "expvar_IncCounter name labels m =
     m\<lparr>em_counters := expvar_add (metricKey name labels) 1 (em_counters m)\<rparr>"

text \<open>\<^verbatim>\<open>Duration.Milliseconds\<close> truncates toward zero.\<close>

definition Milliseconds :: "duration \<Rightarrow> int" where
  "Milliseconds d = sgn d * (\<bar>d\<bar> div time_millisecond)"

definition expvar_ObserveDuration ::
  "string \<Rightarrow> duration \<Rightarrow> labels \<Rightarrow> ExpvarMetrics \<Rightarrow> ExpvarMetrics" where
  "expvar_ObserveDuration name d labels m = (let key = metricKey name labels
     in m\<lparr>em_durations := expvar_add (key @ ''_sum_milliseconds'') (Milliseconds d)
            (expvar_add (key @ ''_count'') 1 (em_durations m))\<rparr>)"

text \<open>Metrics can be made once for a namespace: in a process without expvar maps the first call succeeds, and a second panics.\<close>

lemma NewExpvarMetrics_once:
  "\<exists>m registered. NewExpvarMetrics namespace [] = Some (m, registered) \<and> NewExpvarMetrics namespace registered = None"
  by (simp add: NewExpvarMetrics_def expvar_NewMap_def Let_def)

text \<open>
  The name of a metric depends on the labels as a map only, not on the order in which the
  Go map is traversed: equal maps of labels give the same counter.
\<close>

lemma metricKey_order_independent:
  assumes "distinct (map fst labels)" "mset labels' = mset labels"
  shows "metricKey name labels' = metricKey name labels"
proof -
  have "distinct (map fst labels')" using assms distinct_map_mset_eq by blast
  then have "map_of labels' = map_of labels"
    using assms by (metis map_of_inject_set mset_eq_setD)
  moreover have "sort (map fst labels') = sort (map fst labels)"
    using assms(2) by (intro properties_for_sort) simp_all
  moreover have "labels' = [] \<longleftrightarrow> labels = []" using assms(2) by (metis mset_zero_iff)
  ultimately show ?thesis by (simp add: metricKey_def)
qed

end
