(* ===== verification/Outbox_Relay.thy ===== *)
theory Outbox_Relay
  imports Mem_World Metrics
begin

text \<open>
  The outbox relay (\<^verbatim>\<open>domain/globalmail/outbox.go\<close>), the worker that runs it
  (\<^verbatim>\<open>app/mailrelaysrv/worker.go\<close>) and the Kafka producer and consumer (\<^verbatim>\<open>infra/kafka\<close>). The
  Kafka client is a parameter: a function that writes a message and one that reads the next.
\<close>

section \<open>Kafka\<close>


definition kafka_PublishGlobalMailChanged ::
  "'w clock \<Rightarrow> (kafka_message \<Rightarrow> ('w, unit) io) \<Rightarrow> GlobalMailChangedEvent \<Rightarrow> ('w, unit) io" where
  "kafka_PublishGlobalMailChanged clock write event = (\<lambda>w.
     case marshal_changed event of
       Inl e \<Rightarrow> (Inl e, w)
     | Inr payload \<Rightarrow>
         let (now, w1) = clock w
         in write \<lparr>km_Key = show_int (ch_GlobalMailID event), km_Value = RawValid payload, km_Time = now,
                   km_Headers = [(''event_type'', ''GlobalMailChanged''),
                                 (''version'', show_int (ch_Version event))]\<rparr> w1)"

definition kafka_EventPublisher ::
  "'w clock \<Rightarrow> (kafka_message \<Rightarrow> ('w, unit) io) \<Rightarrow> 'w EventPublisher" where
  "kafka_EventPublisher clock write =
     \<lparr>PublishGlobalMailChanged = kafka_PublishGlobalMailChanged clock write\<rparr>"

definition kafka_ReadGlobalMailChanged ::
  "('w, kafka_message) io \<Rightarrow> ('w, GlobalMailChangedEvent) io" where
  "kafka_ReadGlobalMailChanged read =
     io_bind read (\<lambda>message w. (Unmarshal unmarshal_changed (km_Value message), w))"

section \<open>The relay\<close>

record 'w OutboxRelay =
  or_outbox :: "'w OutboxRepository"
  or_mails :: "'w MailRepository"
  or_cache :: "'w CacheRepository"
  or_publisher :: "'w EventPublisher"
  or_metrics :: "'w ConsistencyMetrics option"
  or_now :: "'w clock"
  or_workerID :: string
  or_lockTTL :: duration
  or_maxRetries :: int

type_synonym 'w OutboxRelayOption = "'w OutboxRelay \<Rightarrow> 'w OutboxRelay"

definition WithOutboxRelayWorkerID :: "string \<Rightarrow> 'w OutboxRelayOption" where
  "WithOutboxRelayWorkerID workerID r = (if workerID \<noteq> [] then r\<lparr>or_workerID := workerID\<rparr> else r)"

definition WithOutboxRelayLockTTL :: "duration \<Rightarrow> 'w OutboxRelayOption" where
  "WithOutboxRelayLockTTL lockTTL r = (if lockTTL > 0 then r\<lparr>or_lockTTL := lockTTL\<rparr> else r)"

definition WithOutboxRelayMaxRetries :: "int \<Rightarrow> 'w OutboxRelayOption" where
  "WithOutboxRelayMaxRetries maxRetries r = (if maxRetries > 0 then r\<lparr>or_maxRetries := maxRetries\<rparr> else r)"

definition WithOutboxRelayMetrics :: "'w ConsistencyMetrics option \<Rightarrow> 'w OutboxRelayOption" where
  "WithOutboxRelayMetrics metrics r = r\<lparr>or_metrics := metrics\<rparr>"

definition NewOutboxRelay ::
  "'w OutboxRepository \<Rightarrow> 'w MailRepository \<Rightarrow> 'w CacheRepository \<Rightarrow> 'w EventPublisher \<Rightarrow>
   'w clock \<Rightarrow> 'w OutboxRelayOption list \<Rightarrow> 'w OutboxRelay" where
  "NewOutboxRelay outbox mails cache publisher clock opts = fold (\<lambda>opt r. opt r) opts
     \<lparr>or_outbox = outbox, or_mails = mails, or_cache = cache, or_publisher = publisher,
      or_metrics = None, or_now = clock, or_workerID = ''outbox-relay'',
      or_lockTTL = 5 * time_minute, or_maxRetries = 5\<rparr>"

definition nextRetryTime :: "'w OutboxRelay \<Rightarrow> int \<Rightarrow> 'w \<Rightarrow> go_time \<times> 'w" where
  "nextRetryTime r retryCount w =
     (let backoff = wrap64 (wrap64 (retryCount + 1) * time_minute);
          backoff = (if backoff > 30 * time_minute then 30 * time_minute else backoff);
          (now, w1) = or_now r w
      in (now + backoff, w1))"

text \<open>
  The handling of one event. A failed stage is counted and the event is marked failed, whose own
  error is ignored; \<open>Inr b\<close> says whether the event was published, \<open>Inl\<close> is the error that ends
  the flush.
\<close>

definition fail_event ::
  "'w OutboxRelay \<Rightarrow> OutboxEvent \<Rightarrow> string \<Rightarrow> error \<Rightarrow> 'w \<Rightarrow> (error + bool) \<times> 'w" where
  "fail_event r event stage cause w =
     (let w1 = inc_counter (or_metrics r) ''globalmail_outbox_failures_total'' [(''stage'', stage)] w;
          (next, w2) = nextRetryTime r (ev_RetryCount event) w1;
          (_, w3) = MarkFailed (or_outbox r) (ev_ID event) next (Some cause) (or_maxRetries r) w2
      in (Inr False, w3))"

definition flush_event :: "'w OutboxRelay \<Rightarrow> OutboxEvent \<Rightarrow> ('w, bool) io" where
  "flush_event r event = (\<lambda>w.
     let (start, w0) = or_now r w
     in case Unmarshal unmarshal_changed (ev_Payload event) of
       Inl e \<Rightarrow> fail_event r event ''decode'' e w0
     | Inr changed \<Rightarrow> (case GetGlobalMailByID (or_mails r) (ev_AggregateID event) w0 of
       (Inl e, w1) \<Rightarrow> fail_event r event ''load_mail'' e w1
     | (Inr None, w1) \<Rightarrow> fail_event r event ''load_mail''
         (ErrorNew (''global mail '' @ show_int (ev_AggregateID event) @ '' not found'')) w1
     | (Inr (Some mail), w1) \<Rightarrow> (case SetGlobalMail (or_cache r) mail w1 of
       (Inl e, w2) \<Rightarrow> fail_event r event ''redis_projection'' e w2
     | (Inr _, w2) \<Rightarrow> (case AddGlobalMailToIndexes (or_cache r) mail w2 of
       (Inl e, w3) \<Rightarrow> fail_event r event ''redis_index'' e w3
     | (Inr _, w3) \<Rightarrow> (case AdvanceGlobalMailVersion (or_cache r) (ev_Version event) w3 of
       (Inl e, w4) \<Rightarrow> fail_event r event ''version'' e w4
     | (Inr _, w4) \<Rightarrow> (case PublishGlobalMailChanged (or_publisher r) changed w4 of
       (Inl e, w5) \<Rightarrow> fail_event r event ''publish'' e w5
     | (Inr _, w5) \<Rightarrow>
         let (publishedAt, w6) = or_now r w5
         in (case MarkPublished (or_outbox r) (ev_ID event) publishedAt w6 of
               (Inl e, w7) \<Rightarrow> (Inl e, inc_counter (or_metrics r) ''globalmail_outbox_failures_total''
                                     [(''stage'', ''mark_published'')] w7)
             | (Inr _, w7) \<Rightarrow>
                 let w8 = inc_counter (or_metrics r) ''globalmail_outbox_published_total''
                            [(''event_type'', ev_Type event)] w7;
                     (t, w9) = or_now r w8
                 in (Inr True, observe_duration (or_metrics r) ''globalmail_outbox_event_seconds''
                       (time_sub t start) [(''event_type'', ev_Type event)] w9))))))))"

fun flush_events :: "'w OutboxRelay \<Rightarrow> OutboxEvent list \<Rightarrow> int \<Rightarrow> 'w \<Rightarrow> (int \<times> error option) \<times> 'w" where
  "flush_events r [] published w = ((published, None), w)"
| "flush_events r (event # events) published w = (case flush_event r event w of
       (Inl e, w1) \<Rightarrow> ((published, Some e), w1)
     | (Inr done, w1) \<Rightarrow> flush_events r events (if done then published + 1 else published) w1)"

definition Flush :: "'w OutboxRelay \<Rightarrow> int \<Rightarrow> 'w \<Rightarrow> (int \<times> error option) \<times> 'w" where
  "Flush r limit = (\<lambda>w.
     let limit = (if limit \<le> 0 then 100 else limit);
         (now, w1) = or_now r w
     in case FetchPending (or_outbox r) limit (or_workerID r) (now + or_lockTTL r) w1 of
          (Inl e, w2) \<Rightarrow> ((0, Some e), w2)
        | (Inr events, w2) \<Rightarrow> flush_events r events 0 w2)"

section \<open>The worker\<close>

record 'w Worker =
  wk_relay :: "'w OutboxRelay"
  wk_limit :: int
  wk_interval :: duration

definition NewWorker :: "'w OutboxRelay \<Rightarrow> int \<Rightarrow> duration \<Rightarrow> 'w Worker" where
  "NewWorker relay limit interval = \<lparr>wk_relay = relay,
     wk_limit = (if limit \<le> 0 then 100 else limit),
     wk_interval = (if interval \<le> 0 then time_second else interval)\<rparr>"

text \<open>The log lines are not part of the state.\<close>

definition worker_flush :: "'w Worker \<Rightarrow> 'w \<Rightarrow> error option \<times> 'w" where
  "worker_flush k w = (case Flush (wk_relay k) (wk_limit k) w of ((published, err), w1) \<Rightarrow> (err, w1))"

text \<open>
  The loop of \<^verbatim>\<open>Run\<close> over the choices of its \<^verbatim>\<open>select\<close>: \<open>Some e\<close> when the context is done with the
  error \<open>e\<close>, \<open>None\<close> for a tick. It has not returned (\<open>None\<close>) when the choices run out.
\<close>

fun worker_Run :: "'w Worker \<Rightarrow> error option list \<Rightarrow> 'w \<Rightarrow> (error \<times> 'w) option" where
  "worker_Run k [] w = None"
| "worker_Run k (Some e # choices) w = Some (e, snd (worker_flush k w))"
| "worker_Run k (None # choices) w = worker_Run k choices (snd (worker_flush k w))"

section \<open>Retries\<close>

text \<open>
  A failed event is retried no earlier than one minute and no later than thirty minutes
  after the failure, and the wait is one minute longer after each attempt up to that bound.
\<close>

lemma retry_backoff:
  assumes "0 \<le> retryCount" "retryCount < 2 ^ 27" "or_now r w = (now, w1)"
  shows "nextRetryTime r retryCount w = (now + min (retryCount + 1) 30 * time_minute, w1)"
proof -
  have "wrap64 (retryCount + 1) = retryCount + 1"
    "wrap64 ((retryCount + 1) * time_minute) = (retryCount + 1) * time_minute"
    using assms(1,2) by (simp_all add: in_int64_def time_units)
  then show ?thesis
    using assms by (auto simp: nextRetryTime_def Let_def time_units min_def)
qed

section \<open>What the outbox promises\<close>

lemma decode_int_range: "decode_int j = Inr n \<Longrightarrow> in_int64 n"
  by (cases j) (auto simp: in_int64_def split: if_splits)

lemma decoded_changed_wf:
  assumes "Unmarshal unmarshal_changed raw = Inr c"
  shows "wf_changed c"
proof -
  from assms obtain j where "unmarshal_changed j = Inr c" by (cases raw) auto
  then show ?thesis
    by (cases j) (auto simp: res_bind_eq_Inr wf_changed_def in_int64_def dest!: decode_int_range)
qed

text \<open>The row behind an event that was handed out: the relay never changes these columns.\<close>

definition event_row :: "OutboxEvent \<Rightarrow> GlobalMailOutboxEventModel \<Rightarrow> bool" where
  "event_row ev row \<longleftrightarrow> obm_EventID row = ev_ID ev \<and> obm_Payload row = ev_Payload ev \<and>
     obm_AggregateID row = ev_AggregateID ev \<and> obm_Version row = ev_Version ev"

text \<open>
  The change of an outbox row has reached the shared cache (the mail, the index of active mails,
  the version) and the topic.
\<close>

definition projected :: "shared \<Rightarrow> GlobalMailChangedEvent list \<Rightarrow> GlobalMailOutboxEventModel \<Rightarrow> bool" where
  "projected s topic row \<longleftrightarrow>
     (\<exists>changed\<in>set topic. Unmarshal unmarshal_changed (obm_Payload row) = Inr changed) \<and>
     obm_Version row \<le> sc_version s \<and> obm_AggregateID row \<in> dom (sc_mail s) \<and>
     obm_AggregateID row \<in> dom (sc_active s)"

definition outbox_honest :: "tables \<Rightarrow> shared \<Rightarrow> GlobalMailChangedEvent list \<Rightarrow> bool" where
  "outbox_honest d s topic \<longleftrightarrow>
     (\<forall>row\<in>set (tb_outbox d). obm_Status row = OutboxStatusPublished \<longrightarrow> projected s topic row)"

text \<open>The integers of the stored mails and events are in the range of their columns.\<close>

definition rows_in_range :: "tables \<Rightarrow> bool" where
  "rows_in_range d \<longleftrightarrow> (\<forall>row\<in>set (tb_global_mail d). \<forall>m. db_row_mail d row m \<longrightarrow> wf_mail m) \<and>
     (\<forall>row\<in>set (tb_outbox d). in_int64 (obm_Version row))"

definition shared_grows :: "shared \<Rightarrow> shared \<Rightarrow> bool" where
  "shared_grows s s' \<longleftrightarrow> sc_version s \<le> sc_version s' \<and> dom (sc_mail s) \<subseteq> dom (sc_mail s') \<and>
     dom (sc_active s) \<subseteq> dom (sc_active s')"

lemma projected_mono:
  "projected s t row \<Longrightarrow> shared_grows s s' \<Longrightarrow> set t \<subseteq> set t' \<Longrightarrow> projected s' t' row"
  unfolding projected_def shared_grows_def by (meson order_trans subsetD)

lemma outbox_honest_mono:
  "outbox_honest d s t \<Longrightarrow> shared_grows s s' \<Longrightarrow> set t \<subseteq> set t' \<Longrightarrow> outbox_honest d s' t'"
  unfolding outbox_honest_def using projected_mono by blast

lemma shared_grows_refl [simp]: "shared_grows s s"
  by (simp add: shared_grows_def)

text \<open>What an update of the outbox leaves alone.\<close>

lemma rows_update_outbox:
  assumes "d' = d\<lparr>tb_outbox := rows_update P f (tb_outbox d)\<rparr>"
    and "\<And>r. obm_EventID (f r) = obm_EventID r" "\<And>r. obm_Payload (f r) = obm_Payload r"
      "\<And>r. obm_AggregateID (f r) = obm_AggregateID r" "\<And>r. obm_Version (f r) = obm_Version r"
  shows "tables_wf d \<Longrightarrow> tables_wf d'" "rows_in_range d' = rows_in_range d"
    "(\<exists>row\<in>set (tb_outbox d). event_row ev row) \<Longrightarrow> (\<exists>row\<in>set (tb_outbox d'). event_row ev row)"
proof -
  show "tables_wf d \<Longrightarrow> tables_wf d'"
    using assms(1,2) by (simp add: tables_wf_def keys_unique_update)
  have "map obm_Version (tb_outbox d') = map obm_Version (tb_outbox d)"
    using assms(1,5) by (simp add: map_rows_update)
  then have "(\<forall>v\<in>set (map obm_Version (tb_outbox d')). in_int64 v) =
      (\<forall>v\<in>set (map obm_Version (tb_outbox d)). in_int64 v)" by (simp only:)
  then show "rows_in_range d' = rows_in_range d"
    using assms(1) by (simp add: rows_in_range_def db_row_mail_def)
  show "(\<exists>row\<in>set (tb_outbox d). event_row ev row) \<Longrightarrow> (\<exists>row\<in>set (tb_outbox d'). event_row ev row)"
  proof (elim bexE)
    fix row assume "row \<in> set (tb_outbox d)" "event_row ev row"
    then show "\<exists>row\<in>set (tb_outbox d'). event_row ev row"
      using assms by (intro bexI [of _ "if P row then f row else row"]) (auto simp: event_row_def rows_update_def)
  qed
qed

lemmas failed_row_sel = failed_row_def retry_status_def

locale relay = outbox_store "or_outbox r" db now_of + mail_repository "or_mails r" db +
  shared_cache "or_cache r" sc ok rnow
  for r :: "'w OutboxRelay" and db now_of sc ok rnow +
  fixes topic :: "'w \<Rightarrow> GlobalMailChangedEvent list"
  assumes outbox_keeps: "keeps (\<lambda>w. (sc w, ok w, topic w)) (FetchPending (or_outbox r) limit who until)"
      "keeps (\<lambda>w. (sc w, ok w, topic w)) (MarkPublished (or_outbox r) eid t)"
      "keeps (\<lambda>w. (sc w, ok w, topic w)) (MarkFailed (or_outbox r) eid t cause n)"
      "keeps (\<lambda>w. (sc w, ok w, topic w)) (GetGlobalMailByID (or_mails r) i)"
    and cache_keeps: "keeps (\<lambda>w. (db w, topic w)) (SetGlobalMail (or_cache r) m)"
      "keeps (\<lambda>w. (db w, topic w)) (AddGlobalMailToIndexes (or_cache r) m)"
      "keeps (\<lambda>w. (db w, topic w)) (AdvanceGlobalMailVersion (or_cache r) n)"
    and clock_keeps: "keeps (\<lambda>w. (db w, sc w, ok w, topic w)) (or_now r)"
    and metrics_keeps: "metrics_keep (\<lambda>w. (db w, sc w, ok w, topic w)) (or_metrics r)"
    and publish_keeps: "keeps (\<lambda>w. (db w, sc w, ok w)) (PublishGlobalMailChanged (or_publisher r) changed)"
    and publish: "wf_changed changed \<Longrightarrow> PublishGlobalMailChanged (or_publisher r) changed w = (ures, w') \<Longrightarrow>
      commits (\<lambda>t. Some (t @ [changed])) (topic w) ures (topic w')"
begin

definition relay_inv :: "OutboxEvent list \<Rightarrow> 'w \<Rightarrow> bool" where
  "relay_inv evs w \<longleftrightarrow> ok w \<and> tables_wf (db w) \<and> rows_in_range (db w) \<and>
     outbox_honest (db w) (sc w) (topic w) \<and>
     (\<forall>ev\<in>set evs. (\<exists>row\<in>set (tb_outbox (db w)). event_row ev row) \<and> in_int64 (ev_Version ev))"

lemma inv_frame:
  assumes "relay_inv evs w" "db w' = db w" "sc w' = sc w" "ok w' = ok w" "topic w' = topic w"
  shows "relay_inv evs w'"
  using assms by (simp add: relay_inv_def)

lemma inv_grows:
  assumes "relay_inv evs w" "db w' = db w" "ok w'" "shared_grows (sc w) (sc w')" "set (topic w) \<subseteq> set (topic w')"
  shows "relay_inv evs w'"
  using assms outbox_honest_mono by (simp add: relay_inv_def) blast

lemma inv_now: "relay_inv evs w \<Longrightarrow> or_now r w = (t, w') \<Longrightarrow> relay_inv evs w'"
  using clock_keeps by (auto dest!: keepsD intro: inv_frame)

lemma inv_inc: "relay_inv evs w \<Longrightarrow> relay_inv evs (inc_counter (or_metrics r) n l w)"
  using metrics_keeps by (auto simp: metrics_keep_def intro: inv_frame)

lemma inv_observe: "relay_inv evs w \<Longrightarrow> relay_inv evs (observe_duration (or_metrics r) n d l w)"
  using metrics_keeps by (auto simp: metrics_keep_def intro: inv_frame)

lemma inv_get: "relay_inv evs w \<Longrightarrow> GetGlobalMailByID (or_mails r) i w = (x, w') \<Longrightarrow> relay_inv evs w' \<and> db w' = db w"
  by (frule get_mail_frame, drule keepsD [OF outbox_keeps(4)]) (auto intro: inv_frame)

lemma inv_mark_failed:
  assumes i: "relay_inv evs w" and m: "MarkFailed (or_outbox r) eid next cause n w = (ures, w')"
  shows "relay_inv evs w'"
proof -
  have wf: "tables_wf (db w)" using i by (simp add: relay_inv_def)
  have k: "sc w' = sc w" "ok w' = ok w" "topic w' = topic w"
    using keepsD [OF outbox_keeps(3) m] by auto
  from mark_failed [OF wf m] have "db w' = db w \<or> db_mark_failed eid next cause n (now_of w) (db w) = Some (db w')"
    by (auto simp: commits_def split: sum.splits)
  then show ?thesis
  proof
    assume "db w' = db w" with i k show ?thesis by (auto intro: inv_frame)
  next
    assume f: "db_mark_failed eid next cause n (now_of w) (db w) = Some (db w')"
    then obtain row where "row \<in> set (tb_outbox (db w))" "obm_EventID row = eid" and f: "db w' = (db w)\<lparr>tb_outbox := rows_update (\<lambda>r. obm_EventID r = eid)
        (failed_row next (failure_text cause) (now_of w) (retry_status n (obm_RetryCount row))) (tb_outbox (db w))\<rparr>"
      by (rule db_mark_failed_Some)
    have st: "obm_Status (failed_row next ft t (retry_status n c) x) \<noteq> OutboxStatusPublished" for ft t c x
      by (simp add: failed_row_def retry_status_def status_defs)
    have "outbox_honest (db w') (sc w) (topic w)"
      using i st by (auto simp: relay_inv_def f outbox_honest_def in_rows_update)
    with rows_update_outbox [OF f] i k show ?thesis
      by (simp add: relay_inv_def failed_row_def)
  qed
qed

lemma inv_fail:
  assumes "relay_inv evs w" "fail_event r ev stage cause w = (x, w')"
  shows "relay_inv evs w' \<and> x = Inr False"
proof -
  let ?w1 = "inc_counter (or_metrics r) ''globalmail_outbox_failures_total'' [(''stage'', stage)] w"
  obtain t w2 where t: "or_now r ?w1 = (t, w2)" by fastforce
  obtain n where n: "nextRetryTime r (ev_RetryCount ev) ?w1 = (n, w2)"
    by (simp add: nextRetryTime_def t Let_def)
  obtain y w3 where m: "MarkFailed (or_outbox r) (ev_ID ev) n (Some cause) (or_maxRetries r) w2 = (y, w3)"
    by fastforce
  have "relay_inv evs w3" using inv_mark_failed [OF inv_now [OF inv_inc [OF assms(1)] t] m] .
  moreover have "x = Inr False" "w' = w3"
    using assms(2) by (simp_all add: fail_event_def n m)
  ultimately show ?thesis by simp
qed

lemma inv_set:
  assumes "relay_inv evs w" "wf_mail m" "SetGlobalMail (or_cache r) m w = (x, w')"
  shows "relay_inv evs w' \<and> (x = Inr u \<longrightarrow> mail_ID m \<in> dom (sc_mail (sc w')))"
  using set_mail [of w m x w'] assms keepsD [OF cache_keeps(1) assms(3)]
  by (auto simp: relay_inv_def shared_grows_def intro: outbox_honest_mono)

lemma inv_index:
  assumes "relay_inv evs w" "wf_mail m" "AddGlobalMailToIndexes (or_cache r) m w = (x, w')"
  shows "relay_inv evs w' \<and> sc_mail (sc w') = sc_mail (sc w) \<and>
    (x = Inr u \<longrightarrow> mail_ID m \<in> dom (sc_active (sc w')))"
  using add_index [of w m x w'] assms keepsD [OF cache_keeps(2) assms(3)]
  by (auto simp: relay_inv_def shared_grows_def wf_mail_def intro: outbox_honest_mono)

lemma inv_advance:
  assumes "relay_inv evs w" "in_int64 n" "AdvanceGlobalMailVersion (or_cache r) n w = (x, w')"
  shows "relay_inv evs w' \<and> sc_mail (sc w') = sc_mail (sc w) \<and> sc_active (sc w') = sc_active (sc w) \<and>
    (x = Inr u \<longrightarrow> n \<le> sc_version (sc w'))"
  using advance [of w n x w'] assms keepsD [OF cache_keeps(3) assms(3)]
  by (auto simp: relay_inv_def shared_grows_def commits_total intro: outbox_honest_mono split: sum.splits)

lemma inv_publish:
  assumes "relay_inv evs w" "PublishGlobalMailChanged (or_publisher r) changed w = (x, w')" "wf_changed changed"
  shows "relay_inv evs w' \<and> sc w' = sc w \<and> db w' = db w \<and> (x = Inr u \<longrightarrow> changed \<in> set (topic w'))"
  using publish [OF assms(3,2)] keepsD [OF publish_keeps assms(2)] assms(1)
  by (auto simp: relay_inv_def commits_total intro: outbox_honest_mono split: sum.splits)

end

context relay begin

lemma inv_mark_published:
  assumes i: "relay_inv evs w" and m: "MarkPublished (or_outbox r) eid t w = (x, w')"
    and p: "\<And>row. row \<in> set (tb_outbox (db w)) \<Longrightarrow> obm_EventID row = eid \<Longrightarrow> projected (sc w) (topic w) row"
  shows "relay_inv evs w'"
proof -
  have k: "sc w' = sc w" "ok w' = ok w" "topic w' = topic w"
    using keepsD [OF outbox_keeps(2) m] by auto
  from mark_published [OF m] have "db w' = db w \<or> db w' = db_mark_published eid t (db w)"
    by (auto simp: commits_total split: sum.splits)
  then show ?thesis
  proof
    assume "db w' = db w" with i k show ?thesis by (auto intro: inv_frame)
  next
    assume d: "db w' = db_mark_published eid t (db w)"
    have "outbox_honest (db w') (sc w) (topic w)"
      unfolding outbox_honest_def
    proof (intro ballI impI)
      fix row assume "row \<in> set (tb_outbox (db w'))" and st: "obm_Status row = OutboxStatusPublished"
      then obtain x where x: "x \<in> set (tb_outbox (db w))" "row = (if obm_EventID x = eid
          then x\<lparr>obm_Status := OutboxStatusPublished, obm_LockedBy := '''', obm_LockedUntil := None,
            obm_FailureReason := '''', obm_PublishedTime := Some t, obm_UpdateTime := t\<rparr> else x)"
        by (auto simp: d db_mark_published_def in_rows_update)
      have "projected (sc w) (topic w) x"
      proof (cases "obm_EventID x = eid")
        case False
        with x st i show ?thesis by (auto simp: relay_inv_def outbox_honest_def)
      qed (use p x in blast)
      with x(2) show "projected (sc w) (topic w) row" by (simp add: projected_def)
    qed
    with rows_update_outbox [OF d [unfolded db_mark_published_def]] i k show ?thesis
      by (simp add: relay_inv_def)
  qed
qed

lemma event_projected:
  assumes "relay_inv evs w" "ev \<in> set evs" "Unmarshal unmarshal_changed (ev_Payload ev) = Inr changed"
    and "changed \<in> set (topic w)" "ev_Version ev \<le> sc_version (sc w)"
    and "ev_AggregateID ev \<in> dom (sc_mail (sc w))" "ev_AggregateID ev \<in> dom (sc_active (sc w))"
    and "row \<in> set (tb_outbox (db w))" "obm_EventID row = ev_ID ev"
  shows "projected (sc w) (topic w) row"
proof -
  from assms(1,2) obtain row' where row': "row' \<in> set (tb_outbox (db w))" "event_row ev row'"
    and "keys_unique obm_EventID (tb_outbox (db w))" by (auto simp: relay_inv_def tables_wf_def)
  then have "row = row'"
    using keys_uniqueD [of obm_EventID "tb_outbox (db w)" row row'] assms(8,9) by (simp add: event_row_def)
  with row' assms(3-7) show ?thesis by (auto simp: projected_def event_row_def)
qed

lemma flush_event_inv:
  assumes i: "relay_inv evs w" and ev: "ev \<in> set evs" and run: "flush_event r ev w = (x, w')"
  shows "relay_inv evs w'"
proof -
  obtain start w0 where w0: "or_now r w = (start, w0)" by fastforce
  note i0 = inv_now [OF i w0]
  note run = run [unfolded flush_event_def w0 prod.case Let_def]
  show ?thesis
  proof (cases "Unmarshal unmarshal_changed (ev_Payload ev)")
    case (Inl e)
    with run inv_fail [OF i0] show ?thesis by auto
  next
    case changed: (Inr changed)
    obtain mres w1 where g: "GetGlobalMailByID (or_mails r) (ev_AggregateID ev) w0 = (mres, w1)" by fastforce
    note i1 = inv_get [OF i0 g, THEN conjunct1]
    note run = run [unfolded changed sum.case g prod.case]
    show ?thesis
    proof (cases "\<exists>mail. mres = Inr (Some mail)")
      case False
      with run inv_fail [OF i1] show ?thesis by (auto split: sum.splits option.splits)
    next
      case True
      then obtain mail where mail: "mres = Inr (Some mail)" by blast
      obtain row where row: "row \<in> set (tb_global_mail (db w0))" "gmm_GlobalMailID row = ev_AggregateID ev"
        "db_row_mail (db w0) row mail" using get_mail_Some [OF g [unfolded mail]] by blast
      have wf: "wf_mail mail" using i0 row by (auto simp: relay_inv_def rows_in_range_def)
      have mid: "mail_ID mail = ev_AggregateID ev"
        using row(2,3) by (auto simp: db_row_mail_def toGlobalMail_def)
      have n: "in_int64 (ev_Version ev)" using i ev by (simp add: relay_inv_def)
      have wfc: "wf_changed changed" using changed by (rule decoded_changed_wf)
      obtain x2 w2 where s: "SetGlobalMail (or_cache r) mail w1 = (x2, w2)" by fastforce
      obtain x3 w3 where a: "AddGlobalMailToIndexes (or_cache r) mail w2 = (x3, w3)" by fastforce
      obtain x4 w4 where v: "AdvanceGlobalMailVersion (or_cache r) (ev_Version ev) w3 = (x4, w4)" by fastforce
      obtain x5 w5 where q: "PublishGlobalMailChanged (or_publisher r) changed w4 = (x5, w5)" by fastforce
      obtain t w6 where t: "or_now r w5 = (t, w6)" by fastforce
      obtain x7 w7 where m: "MarkPublished (or_outbox r) (ev_ID ev) t w6 = (x7, w7)" by fastforce
      note i2 = inv_set [OF i1 wf s] note i3 = inv_index [OF conjunct1 [OF i2] wf a]
      note i4 = inv_advance [OF conjunct1 [OF i3] n v] note i5 = inv_publish [OF conjunct1 [OF i4] q wfc]
      note i6 = inv_now [OF conjunct1 [OF i5] t]
      note run = run [unfolded mail sum.case option.case s prod.case]
      show ?thesis
      proof (cases "isl x2 \<or> isl x3 \<or> isl x4 \<or> isl x5")
        case True
        with run a v q i2 i3 i4 i5 show ?thesis
          by (auto simp: isl_def split: sum.splits dest: inv_fail)
      next
        case False
        then obtain u2 u3 u4 u5 where ok: "x2 = Inr u2" "x3 = Inr u3" "x4 = Inr u4" "x5 = Inr u5"
          by (cases x2; cases x3; cases x4; cases x5) auto
        have w6: "sc w6 = sc w5" "topic w6 = topic w5" using keepsD [OF clock_keeps t] by auto
        have "relay_inv evs w7"
        proof (rule inv_mark_published [OF i6 m])
          fix row assume "row \<in> set (tb_outbox (db w6))" "obm_EventID row = ev_ID ev"
          then show "projected (sc w6) (topic w6) row"
            using i2 i3 i4 i5 ok mid w6 by (intro event_projected [OF i6 ev changed]) auto
        qed
        moreover obtain t9 w9 where "or_now r (inc_counter (or_metrics r) ''globalmail_outbox_published_total''
            [(''event_type'', ev_Type ev)] w7) = (t9, w9)" by fastforce
        ultimately show ?thesis
          using run a v q t m ok by (auto split: sum.splits intro: inv_inc inv_observe inv_now)
      qed
    qed
  qed
qed

lemma fetch_inv:
  assumes i: "relay_inv [] w" and f: "FetchPending (or_outbox r) limit who until w = (x, w')"
  shows "relay_inv [] w' \<and> (\<forall>evs. x = Inr evs \<longrightarrow> relay_inv evs w' \<and>
    int (length evs) \<le> (if limit \<le> 0 then 100 else limit))"
proof -
  have k: "sc w' = sc w" "ok w' = ok w" "topic w' = topic w"
    using keepsD [OF outbox_keeps(1) f] by auto
  have claim: "relay_inv [] w' \<and> relay_inv (map (claimed_event who' until) models) w'"
    if fd: "fetched limit who until (now_of w) models (db w) (db w')" for who' models
  proof -
    have d: "db w' = (db w)\<lparr>tb_outbox := rows_update (\<lambda>r. obm_EventID r \<in> set (map obm_EventID models))
        (claim_row (if who = [] then ''outbox-relay'' else who) until (now_of w)) (tb_outbox (db w))\<rparr>"
      using fd by (simp add: fetched_def db_claim_def)
    have sub: "set models \<subseteq> set (tb_outbox (db w))"
      using fd by (auto simp: fetched_def dest!: set_mset_mono)
    have "outbox_honest (db w') (sc w) (topic w)"
      using i by (auto simp: relay_inv_def outbox_honest_def d in_rows_update claim_row_def status_defs)
    moreover note upd = rows_update_outbox [OF d]
    moreover have "(\<exists>row\<in>set (tb_outbox (db w')). event_row (claimed_event who' until m) row) \<and>
        in_int64 (ev_Version (claimed_event who' until m))" if "m \<in> set models" for m
    proof
      have "event_row (claimed_event who' until m) m"
        by (simp add: event_row_def claimed_event_def toOutboxEvent_def)
      with sub that have "\<exists>row\<in>set (tb_outbox (db w)). event_row (claimed_event who' until m) row" by blast
      then show "\<exists>row\<in>set (tb_outbox (db w')). event_row (claimed_event who' until m) row"
        by (rule upd(3) [rotated 4]) (simp_all add: claim_row_def)
      show "in_int64 (ev_Version (claimed_event who' until m))"
        using i sub that by (auto simp: relay_inv_def rows_in_range_def claimed_event_def toOutboxEvent_def)
    qed
    ultimately show ?thesis using i k by (simp add: relay_inv_def claim_row_def)
  qed
  show ?thesis
  proof (cases x)
    case (Inl e)
    from fetch_Inl [OF f [unfolded Inl]] claim i k Inl show ?thesis by (auto intro: inv_frame)
  next
    case (Inr evs)
    from fetch_Inr [OF f [unfolded Inr]] obtain models where
      fd: "fetched limit who until (now_of w) models (db w) (db w')" and
      evs: "evs = map (claimed_event (if who = [] then ''outbox-relay'' else who) until) models" by blast
    from claim [OF fd] fd evs Inr show ?thesis by (auto simp: fetched_def)
  qed
qed

lemma flush_events_inv:
  assumes "relay_inv evs w" "set todo \<subseteq> set evs" "flush_events r todo n w = (res, w')"
  shows "relay_inv evs w'"
  using assms
proof (induction todo arbitrary: n w)
  case (Cons ev todo)
  obtain x w1 where f: "flush_event r ev w = (x, w1)" by fastforce
  then have "relay_inv evs w1" using Cons.prems by (intro flush_event_inv [OF Cons.prems(1)]) auto
  with Cons f show ?case by (auto split: sum.splits)
qed simp

lemma flush_events_count:
  "flush_events r todo n w = ((m, err), w') \<Longrightarrow> n \<le> m \<and> m \<le> n + int (length todo)"
proof (induction todo arbitrary: n w)
  case (Cons ev todo)
  then show ?case by (fastforce split: prod.splits sum.splits if_splits)
qed simp

lemma Flush_inv:
  assumes "relay_inv [] w" "Flush r limit w = ((n, err), w')"
  shows "relay_inv [] w' \<and> 0 \<le> n \<and> n \<le> (if limit \<le> 0 then 100 else limit)"
proof -
  let ?limit = "if limit \<le> 0 then 100 else limit"
  obtain t w1 where t: "or_now r w = (t, w1)" by fastforce
  obtain x w2 where f: "FetchPending (or_outbox r) ?limit (or_workerID r) (t + or_lockTTL r) w1 = (x, w2)"
    by fastforce
  note fi = fetch_inv [OF inv_now [OF assms(1) t] f]
  note run = assms(2) [unfolded Flush_def Let_def t prod.case f]
  show ?thesis
  proof (cases x)
    case (Inl e)
    with run fi show ?thesis by auto
  next
    case (Inr evs)
    with run have fe: "flush_events r evs 0 w2 = ((n, err), w')" by simp
    have "relay_inv evs w'" using fi Inr by (intro flush_events_inv [OF _ _ fe]) auto
    with flush_events_count [OF fe] fi Inr show ?thesis by (auto simp: relay_inv_def split: if_splits)
  qed
qed

end

context relay begin

lemma Flush_honest:
  assumes "ok w" "tables_wf (db w)" "rows_in_range (db w)" "outbox_honest (db w) (sc w) (topic w)"
    and "Flush r limit w = ((n, err), w')"
  shows "ok w' \<and> tables_wf (db w') \<and> rows_in_range (db w') \<and> outbox_honest (db w') (sc w') (topic w') \<and>
    0 \<le> n \<and> n \<le> (if limit \<le> 0 then 100 else limit)"
proof -
  have "relay_inv [] w" using assms(1-4) by (simp add: relay_inv_def)
  from Flush_inv [OF this assms(5)] show ?thesis by (simp add: relay_inv_def)
qed

end

section \<open>The relay server\<close>

text \<open>The relay as \<^verbatim>\<open>cmd/mailrelaysrv/main.go\<close> builds it.\<close>

definition relay_server ::
  "'w gorm_db \<Rightarrow> 'w redis_client \<Rightarrow> string \<Rightarrow> 'w clock \<Rightarrow> (kafka_message \<Rightarrow> ('w, unit) io) \<Rightarrow>
   string \<Rightarrow> duration \<Rightarrow> int \<Rightarrow> 'w ConsistencyMetrics option \<Rightarrow> 'w OutboxRelay" where
  "relay_server D C prefix clock write instanceID lockTTL maxRetries metrics =
     NewOutboxRelay (mysql_Outbox D) (mysql_MailRepository D)
       (redis_CacheRepository \<lparr>rr_client = C, rr_prefix = prefix\<rparr>) (kafka_EventPublisher clock write) clock
       [WithOutboxRelayWorkerID instanceID, WithOutboxRelayLockTTL lockTTL,
        WithOutboxRelayMaxRetries maxRetries, WithOutboxRelayMetrics metrics]"

text \<open>The changes that a consumer of the topic can read.\<close>

definition announced :: "kafka_message list \<Rightarrow> GlobalMailChangedEvent list" where
  "announced messages = List.map_filter (\<lambda>m. case Unmarshal unmarshal_changed (km_Value m) of
     Inl _ \<Rightarrow> None | Inr changed \<Rightarrow> Some changed) messages"

text \<open>
  The drivers of the relay server do not touch each other's servers, and a write to Kafka that
  succeeds appends the message to the topic.
\<close>

locale relay_drivers =
  gorm D db + redis_repository C ks rnow p
  for D :: "'w gorm_db" and db and C :: "'w redis_client" and ks and rnow and p +
  fixes messages :: "'w \<Rightarrow> kafka_message list" and clock :: "'w clock"
    and "write" :: "kafka_message \<Rightarrow> ('w, unit) io" and metrics :: "'w ConsistencyMetrics option"
  assumes db_alone: "gorm_keeps (\<lambda>w. (ks w, messages w)) D"
    and redis_alone: "redis_keeps (\<lambda>w. (db w, messages w)) C"
    and clock_alone: "keeps (\<lambda>w. (db w, ks w, messages w)) clock"
    and metrics_alone: "metrics_keep (\<lambda>w. (db w, ks w, messages w)) metrics"
    and write_alone: "keeps (\<lambda>w. (db w, ks w)) (write m)"
    and write_message: "write m w = (ures, w') \<Longrightarrow>
      commits (\<lambda>ms. Some (ms @ [m])) (messages w) ures (messages w')"

lemma relay_server_sel [simp]:
  "or_outbox (relay_server D C p clock write i l n metrics) = mysql_Outbox D"
  "or_mails (relay_server D C p clock write i l n metrics) = mysql_MailRepository D"
  "or_cache (relay_server D C p clock write i l n metrics) =
     redis_CacheRepository \<lparr>rr_client = C, rr_prefix = p\<rparr>"
  "or_publisher (relay_server D C p clock write i l n metrics) = kafka_EventPublisher clock write"
  "or_now (relay_server D C p clock write i l n metrics) = clock"
  "or_metrics (relay_server D C p clock write i l n metrics) = metrics"
  by (simp_all add: relay_server_def NewOutboxRelay_def WithOutboxRelayWorkerID_def
      WithOutboxRelayLockTTL_def WithOutboxRelayMaxRetries_def WithOutboxRelayMetrics_def)

lemma keeps_mono: "keeps v m \<Longrightarrow> (\<And>w w'. v w' = v w \<Longrightarrow> u w' = u w) \<Longrightarrow> keeps u m"
  unfolding keeps_def by blast

lemma metrics_keep_mono: "metrics_keep v m \<Longrightarrow> (\<And>w w'. v w' = v w \<Longrightarrow> u w' = u w) \<Longrightarrow> metrics_keep u m"
  unfolding metrics_keep_def by blast

lemma announced_snoc:
  "Unmarshal unmarshal_changed (km_Value m) = Inr changed \<Longrightarrow> announced (ms @ [m]) = announced ms @ [changed]"
  by (simp add: announced_def map_filter_def)

context relay_drivers begin

lemma repo_alone: "redis_keeps (\<lambda>w. (db w, messages w)) (rr_client \<lparr>rr_client = C, rr_prefix = p\<rparr>)"
  by (simp add: redis_alone)

lemma kafka_announces:
  assumes "wf_changed changed" "kafka_PublishGlobalMailChanged clock write changed w = (ures, w')"
  shows "db w' = db w \<and> ks w' = ks w \<and>
    commits (\<lambda>t. Some (t @ [changed])) (announced (messages w)) ures (announced (messages w'))"
proof (cases "marshal_changed changed")
  case (Inl e)
  with assms(2) show ?thesis by (auto simp: kafka_PublishGlobalMailChanged_def commits_total)
next
  case (Inr payload)
  obtain now w1 where now: "clock w = (now, w1)" by fastforce
  define m where "m = \<lparr>km_Key = show_int (ch_GlobalMailID changed), km_Value = RawValid payload, km_Time = now,
                   km_Headers = [(''event_type'', ''GlobalMailChanged''),
                                 (''version'', show_int (ch_Version changed))]\<rparr>"
  have wr: "write m w1 = (ures, w')"
    using assms(2) by (simp add: kafka_PublishGlobalMailChanged_def Inr now m_def)
  have "Unmarshal unmarshal_changed (km_Value m) = Inr changed"
    using changed_roundtrip [OF Inr assms(1)] by (simp add: m_def)
  from announced_snoc [OF this] write_message [OF wr] keepsD [OF write_alone wr] keepsD [OF clock_alone now]
  show ?thesis by (auto simp: commits_total split: sum.splits)
qed

end

sublocale relay_drivers \<subseteq> server: relay "relay_server D C p clock write inst ttl n metrics" db
  "\<lambda>w. fst (db_now D w)" "\<lambda>w. view p (ks w)" "\<lambda>w. cache_ok p (ks w)" rnow "\<lambda>w. announced (messages w)"
  for inst ttl n
proof (intro relay.intro relay_axioms.intro, goal_cases)
  case 1 then show ?case using mysql_outbox.outbox_store_axioms by simp
next
  case 2 then show ?case using mysql_mail.mail_repository_axioms by simp
next
  case 3 then show ?case using cache.shared_cache_axioms by simp
next
  case 11
  then show ?case using clock_alone by (auto elim!: keeps_mono)
next
  case 12
  then show ?case using metrics_alone by (auto elim!: metrics_keep_mono)
next
  case (13 changed)
  have "keeps (\<lambda>w. (db w, ks w)) (kafka_PublishGlobalMailChanged clock write changed)"
  proof (rule keepsI)
    fix w x w'
    assume "kafka_PublishGlobalMailChanged clock write changed w = (x, w')"
    then show "(db w', ks w') = (db w, ks w)"
      by (auto simp: kafka_PublishGlobalMailChanged_def Let_def split: sum.splits prod.splits
          dest!: keepsD [OF write_alone] keepsD [OF clock_alone])
  qed
  then show ?case by (auto simp: kafka_EventPublisher_def elim!: keeps_mono)
next
  case (14 changed w ures w')
  then show ?case using kafka_announces by (simp add: kafka_EventPublisher_def)
qed (auto simp: mysql_Outbox_def mysql_MailRepository_def
    intro!: keeps_mono [OF keeps_mysql_relay(1) [OF db_alone]] keeps_mono [OF keeps_mysql_relay(2) [OF db_alone]]
      keeps_mono [OF keeps_mysql_relay(3) [OF db_alone]] keeps_mono [OF keeps_mysql_relay(4) [OF db_alone]]
      keeps_mono [OF keeps_redis_relay(1) [OF repo_alone]]
      keeps_mono [OF keeps_redis_relay(2) [OF repo_alone]]
      keeps_mono [OF keeps_redis_relay(3) [OF repo_alone]])

context relay_drivers begin

lemma server_is_relay:
  "relay (relay_server D C p clock write inst ttl n metrics) db (\<lambda>w. fst (db_now D w))
     (\<lambda>w. view p (ks w)) (\<lambda>w. cache_ok p (ks w)) rnow (\<lambda>w. announced (messages w))"
  by (rule server.relay_axioms)

end

text \<open>The relay over the drivers in memory.\<close>

definition mem_write :: "kafka_message \<Rightarrow> (mem_world, unit) io" where
  "mem_write m = mem_call (\<lambda>w. (Inr (), w\<lparr>mw_topic := mw_topic w @ [m]\<rparr>))"

lemma mem_table_keeps: "table_keeps (\<lambda>w. (mw_keys w, mw_topic w)) (mem_table get put key)"
  by (auto simp: table_keeps_def keeps_def mem_defs split: list.splits if_splits option.splits)

lemma mem_gorm_keeps: "gorm_keeps (\<lambda>w. (mw_keys w, mw_topic w)) mem_gorm"
proof -
  have "table_keeps (\<lambda>w. (mw_keys w, mw_topic w)) mem_condition_table"
    by (auto simp: mem_condition_table_def Let_def table_keeps_def keeps_def mem_defs
        split: list.splits if_splits option.splits)
  then show ?thesis
    by (simp add: gorm_keeps_def mem_gorm_def mem_table_keeps)
      (auto simp: keeps_def mem_call_def mem_clock_def split: list.splits if_splits)
qed

lemma mem_redis_keeps: "redis_keeps (\<lambda>w. (mw_db w, mw_topic w)) mem_redis"
  by (simp add: redis_keeps_def mem_redis_def)
    (auto simp: keeps_def mem_call_def mem_clock_def
      split: list.splits if_splits option.splits sum.splits prod.splits rvalue.splits)

interpretation mem_relay: relay_drivers mem_gorm mw_db mem_redis mw_keys mem_now p mw_topic mem_clock mem_write None
  for p
proof (intro relay_drivers.intro relay_drivers_axioms.intro)
  show "gorm mem_gorm mw_db" by (rule mem.gorm_axioms)
  show "redis_repository mem_redis mw_keys mem_now" by (rule mem_repo.redis_repository_axioms)
  show "gorm_keeps (\<lambda>w. (mw_keys w, mw_topic w)) mem_gorm" by (rule mem_gorm_keeps)
  show "redis_keeps (\<lambda>w. (mw_db w, mw_topic w)) mem_redis" by (rule mem_redis_keeps)
qed (auto simp: mem_write_def mem_call_def mem_clock_def keeps_def commits_total split: list.splits if_splits)

section \<open>Properties of the relay server\<close>


text \<open>
  C4. An outbox row is marked published only after its change has reached every reader: the mail
  and its index entry are in the shared cache, the shared version is at least the version of
  the event, and the change is on the topic. Every flush keeps this, for every batch of
  events and whatever calls fail, and it publishes at most as many events as its limit.
\<close>

theorem published_means_projected:
  assumes "relay_drivers D db C ks rnow messages clock write metrics"
    and "cache_ok p (ks w)" "tables_wf (db w)" "rows_in_range (db w)"
    and "outbox_honest (db w) (view p (ks w)) (announced (messages w))"
    and "Flush (relay_server D C p clock write inst ttl n metrics) limit w = ((published, err), w')"
  shows "outbox_honest (db w') (view p (ks w')) (announced (messages w')) \<and>
    tables_wf (db w') \<and> cache_ok p (ks w') \<and>
    0 \<le> published \<and> published \<le> (if limit \<le> 0 then 100 else limit)"
  using relay.Flush_honest [OF relay_drivers.server_is_relay [OF assms(1)] assms(2-6)] by simp

definition sample_row :: "int \<Rightarrow> GlobalMailOutboxEventModel" where
  "sample_row i = \<lparr>obm_EventID = i, obm_EventType = ''GlobalMailChanged'', obm_AggregateID = 7, obm_Version = 1,
     obm_Payload = RawValid (JObj [(''event_id'', JInt i), (''global_mail_id'', JInt 7), (''version'', JInt 1),
       (''action'', JStr ''publish''), (''timestamp'', JTime 5)]),
     obm_Status = OutboxStatusPending, obm_RetryCount = 0, obm_NextRetryTime = None, obm_LockedBy = [],
     obm_LockedUntil = None, obm_FailureReason = [], obm_PublishedTime = None, obm_CreateTime = 5, obm_UpdateTime = 5\<rparr>"

definition sample_tables :: tables where
  "sample_tables = \<lparr>tb_global_mail = [toGlobalMailModel (zero_mail\<lparr>mail_ID := 7, mail_Version := 1,
       mail_ExpireTime := 63839664000 * time_second + time_hour\<rparr>)],
     tb_condition = [], tb_state = [], tb_ledger = [], tb_backpack = [],
     tb_outbox = [sample_row 11], tb_idempotency = []\<rparr>"

definition sample_world :: "bool list \<Rightarrow> mem_world" where
  "sample_world faults = \<lparr>mw_db = sample_tables, mw_keys = Map.empty, mw_topic = [], mw_ticks = 0,
     mw_next_id = 1, mw_faults = faults\<rparr>"

lemma sample_world_ok:
  "cache_ok p (mw_keys (sample_world faults))" "tables_wf (mw_db (sample_world faults))"
  "rows_in_range (mw_db (sample_world faults))"
  "outbox_honest (mw_db (sample_world faults)) s t"
  by (auto simp: sample_world_def sample_tables_def sample_row_def cache_ok_def tables_wf_def keys_unique_def
      rows_in_range_def db_row_mail_def outbox_honest_def status_defs toGlobalMail_def toGlobalMailModel_def
      zero_mail_def wf_mail_def in_int64_def)

abbreviation mem_relay_server :: "mem_world OutboxRelay" where
  "mem_relay_server \<equiv> relay_server mem_gorm mem_redis ''p:'' mem_clock mem_write ''r1'' 0 0 None"


theorem published_means_projected_witness:
  "\<exists>w'. Flush mem_relay_server 10 (sample_world []) = ((1, None), w') \<and>
     map obm_Status (tb_outbox (mw_db w')) = [OutboxStatusPublished] \<and>
     outbox_honest (mw_db w') (view ''p:'' (mw_keys w')) (announced (mw_topic w'))"
proof -
  let ?w = "sample_world []"
  obtain published err w' where run: "Flush mem_relay_server 10 ?w = ((published, err), w')" by (metis surj_pair)
  have "(case Flush mem_relay_server 10 ?w of ((c, e), w1) \<Rightarrow> c = 1 \<and> e = None \<and>
      map obm_Status (tb_outbox (mw_db w1)) = [OutboxStatusPublished])"
    by code_simp
  with published_means_projected [OF mem_relay.relay_drivers_axioms sample_world_ok(1-4) run] run
  show ?thesis by auto
qed

text \<open>
  C6. Two relays do not work on the same event at the same time: an event that one fetch has
  claimed until a time is not handed out by any other fetch before that time, as long as its
  row has not been changed meanwhile.
\<close>

theorem claims_exclusive:
  assumes "gorm D db" "tables_wf (db w2)"
    and "mysql_FetchPending D limit who until w = (Inr evs, w1)"
    and "\<And>row. row \<in> set (tb_outbox (db w2)) \<Longrightarrow> obm_EventID row \<in> ev_ID ` set evs \<Longrightarrow>
      row \<in> set (tb_outbox (db w1))"
    and "fst (db_now D w2) < until"
    and "mysql_FetchPending D limit' who' until' w2 = (Inr evs', w3)"
  shows "ev_ID ` set evs \<inter> ev_ID ` set evs' = {}"
proof -
  from gorm.Fetch_Inr [OF assms(1,3)] obtain models where
    f: "fetched limit who until (fst (db_now D w)) models (db w) (db w1)"
    "evs = map (claimed_event (if who = [] then ''outbox-relay'' else who) until) models" by blast
  from gorm.Fetch_Inr [OF assms(1,6)] obtain models' where
    f': "fetched limit' who' until' (fst (db_now D w2)) models' (db w2) (db w3)"
    "evs' = map (claimed_event (if who' = [] then ''outbox-relay'' else who') until') models'" by blast
  have ids: "ev_ID ` set evs = obm_EventID ` set models" "ev_ID ` set evs' = obm_EventID ` set models'"
    using f(2) f'(2) by (auto simp: claimed_event_def toOutboxEvent_def image_image)
  have busy: "\<not> claimable (fst (db_now D w2)) row"
    if "row \<in> set (tb_outbox (db w1))" "obm_EventID row \<in> obm_EventID ` set models" for row
  proof -
    from that(1) f(1) obtain x where
      x: "row = (if obm_EventID x \<in> set (map obm_EventID models)
        then claim_row (if who = [] then ''outbox-relay'' else who) until (fst (db_now D w)) x else x)"
      unfolding fetched_def db_claim_def by (auto simp: in_rows_update)
    with that(2) have "obm_EventID x \<in> set (map obm_EventID models)"
      by (auto simp: claim_row_def split: if_splits)
    with x have "obm_Status row = OutboxStatusProcessing" "obm_LockedUntil row = Some until"
      by (simp_all add: claim_row_def)
    with assms(5) show ?thesis by (auto simp: claimable_def status_defs)
  qed
  have free: "set models' \<subseteq> {row \<in> set (tb_outbox (db w2)). claimable (fst (db_now D w2)) row}"
    using f'(1) by (auto simp: fetched_def dest!: set_mset_mono)
  have "obm_EventID row \<notin> obm_EventID ` set models" if "row \<in> set models'" for row
  proof
    assume i: "obm_EventID row \<in> obm_EventID ` set models"
    from that free have "row \<in> set (tb_outbox (db w2))" "claimable (fst (db_now D w2)) row" by auto
    with busy [OF assms(4) i] i show False by (simp add: ids(1))
  qed
  then have "\<forall>i\<in>obm_EventID ` set models'. i \<notin> obm_EventID ` set models" by simp
  then show ?thesis unfolding ids by blast
qed

theorem claims_exclusive_witness:
  "\<exists>evs w1 evs' w3. mysql_FetchPending mem_gorm 10 ''a'' (63839664000 * time_second + time_hour) (sample_world []) = (Inr evs, w1) \<and>
     map ev_ID evs = [11] \<and>
     mysql_FetchPending mem_gorm 10 ''b'' (63839664000 * time_second + time_hour) w1 = (Inr evs', w3) \<and>
     ev_ID ` set evs \<inter> ev_ID ` set evs' = {}"
proof -
  let ?until = "63839664000 * time_second + time_hour"
  let ?first = "mysql_FetchPending mem_gorm 10 ''a'' ?until (sample_world [])"
  let ?second = "mysql_FetchPending mem_gorm 10 ''b'' ?until (snd ?first)"
  have 1: "case fst ?first of Inr evs \<Rightarrow> map ev_ID evs = [11] | Inl _ \<Rightarrow> False" by code_simp
  have 2: "\<not> isl (fst ?second)" by code_simp
  have 3: "fst (db_now mem_gorm (snd ?first)) < ?until \<and>
      keys_unique obm_EventID (tb_outbox (mw_db (snd ?first)))" by code_simp
  obtain evs w1 where f: "?first = (Inr evs, w1)"
    using 1 by (cases "fst ?first") (auto simp: prod_eq_iff)
  obtain evs' w3 where s: "mysql_FetchPending mem_gorm 10 ''b'' ?until w1 = (Inr evs', w3)"
    using 2 f by (metis prod.collapse snd_conv sum.collapse(2))
  have "tables_wf (mw_db w1)"
    using mem.Fetch_Inr [OF f] sample_world_ok(2) by (auto simp: fetched_def db_claim_def tables_wf_def
        claim_row_def intro!: keys_unique_update)
  from claims_exclusive [OF mem.gorm_axioms this f _ _ s] 1 3 f s show ?thesis by auto
qed

text \<open>
  A failed event is counted, released and scheduled: the retry count grows by one, the lock
  is gone, the reason is at most 1024 characters, and the event is due again at the given
  time, unless this was its last attempt, when it is failed for good and never claimed again.
\<close>

lemma mark_failed_effect:
  assumes "gorm D db" "tables_wf (db w)" "row \<in> set (tb_outbox (db w))" "maxRetries > 0"
    and "mysql_MarkFailed D (obm_EventID row) nextRetryAt cause maxRetries w = (Inr u, w')"
  shows "\<exists>row'\<in>set (tb_outbox (db w')). obm_EventID row' = obm_EventID row \<and>
    obm_RetryCount row' = obm_RetryCount row + 1 \<and> obm_LockedUntil row' = None \<and>
    length (obm_FailureReason row') \<le> 1024 \<and>
    (if wrap64 (obm_RetryCount row + 1) < maxRetries
     then obm_Status row' = OutboxStatusPending \<and>
       (\<forall>now. claimable now row' \<longleftrightarrow> nextRetryAt \<le> now)
     else obm_Status row' = OutboxStatusFailed \<and> (\<forall>now. \<not> claimable now row'))"
proof -
  let ?st = "retry_status maxRetries (obm_RetryCount row)"
  let ?row = "failed_row nextRetryAt (failure_text cause) (fst (db_now D w)) ?st row"
  have find: "find (\<lambda>r. obm_EventID r = obm_EventID row) (tb_outbox (db w)) = Some row"
    using assms(2,3) by (intro find_unique [where key = obm_EventID]) (auto simp: tables_wf_def)
  have "db_mark_failed (obm_EventID row) nextRetryAt cause maxRetries (fst (db_now D w)) (db w) = Some (db w')"
    using gorm.MarkFailed_commits [OF assms(1,2,5)] by simp
  then have "?row \<in> set (tb_outbox (db w'))"
    using find assms(3) by (auto simp: db_mark_failed_def in_rows_update dest!: sym [of _ "db w'"])
  then show ?thesis
    using assms(4) length_failure_text [of cause] by (intro bexI [of _ ?row])
      (auto simp: failed_row_def retry_status_def claimable_def status_defs)
qed

end
