(* ===== verification/Local_Cache.thy ===== *)
theory Local_Cache
  imports Mem_World Metrics
begin

text \<open>
  The local cache of a player server (\<^verbatim>\<open>domain/globalmail/cache.go\<close>, with the metrics hooks of
  \<^verbatim>\<open>metrics.go\<close>). The configuration of a cache is a record; its one mutable field, the
  snapshot, is passed beside the world. Two things come from other goroutines and are
  arguments: the call in flight that \<^verbatim>\<open>singleflight\<close> joins, a field of the configuration, and
  the sequence of wake-ups of the \<^verbatim>\<open>select\<close> in \<^verbatim>\<open>waitForSharedCache\<close>. That loop returns nothing
  (\<open>None\<close>) when the wake-ups run out, which models that it is still waiting.
\<close>

section \<open>Conditions\<close>

record CompiledCondition =
  cc_Type :: string
  cc_Operator :: string
  cc_Value :: raw_message

definition compileConditions :: "Condition list \<Rightarrow> CompiledCondition list" where
  "compileConditions conditions =
     map (\<lambda>c. \<lparr>cc_Type = cond_Type c, cc_Operator = cond_Operator c, cc_Value = cond_Value c\<rparr>) conditions"

definition compareInt64 :: "int \<Rightarrow> int \<Rightarrow> string \<Rightarrow> bool" where
  "compareInt64 actual expected operator =
     (if operator = '''' \<or> operator = ''eq'' then actual = expected
      else if operator = ''ne'' then actual \<noteq> expected
      else if operator = ''gt'' then actual > expected
      else if operator = ''gte'' then actual \<ge> expected
      else if operator = ''lt'' then actual < expected
      else if operator = ''lte'' then actual \<le> expected
      else False)"

definition matchInt :: "CompiledCondition \<Rightarrow> int \<Rightarrow> bool" where
  "matchInt condition actual = (case Unmarshal decode_int (cc_Value condition) of
       Inr expected \<Rightarrow> compareInt64 actual expected (cc_Operator condition)
     | Inl _ \<Rightarrow> (case Unmarshal (decode_list decode_int) (cc_Value condition) of
           Inr xs \<Rightarrow> List.member xs actual
         | Inl _ \<Rightarrow> False))"

definition matchInt64 :: "CompiledCondition \<Rightarrow> int \<Rightarrow> bool" where
  "matchInt64 condition actual = (case Unmarshal decode_int (cc_Value condition) of
       Inr expected \<Rightarrow> compareInt64 actual expected (cc_Operator condition)
     | Inl _ \<Rightarrow> (case Unmarshal decode_string (cc_Value condition) of
           Inr encoded \<Rightarrow> (case parse_int encoded of
               None \<Rightarrow> False
             | Some parsed \<Rightarrow> compareInt64 actual parsed (cc_Operator condition))
         | Inl _ \<Rightarrow> False))"

definition matchString :: "CompiledCondition \<Rightarrow> string \<Rightarrow> bool" where
  "matchString condition actual = (case Unmarshal decode_string (cc_Value condition) of
       Inr expected \<Rightarrow> actual = expected
     | Inl _ \<Rightarrow> (case Unmarshal (decode_list decode_string) (cc_Value condition) of
           Inr xs \<Rightarrow> List.member xs actual
         | Inl _ \<Rightarrow> False))"

text \<open>One arm of the \<^verbatim>\<open>switch\<close>; a type that no arm names is passed over.\<close>

definition conditionMatches :: "CompiledCondition \<Rightarrow> UserProfile \<Rightarrow> bool" where
  "conditionMatches c profile =
     (if cc_Type c = ''server'' \<or> cc_Type c = ''server_id'' then matchInt c (prof_ServerID profile)
      else if cc_Type c = ''vip'' \<or> cc_Type c = ''vip_level'' then matchInt c (prof_VIPLevel profile)
      else if cc_Type c = ''recharge'' \<or> cc_Type c = ''total_recharge''
      then matchInt64 c (prof_TotalRecharge profile)
      else if cc_Type c = ''corps_level'' then matchInt c (prof_CorpsLevel profile)
      else if cc_Type c = ''country'' then matchString c (prof_Country profile)
      else True)"

fun conditionsMatch :: "CompiledCondition list \<Rightarrow> UserProfile \<Rightarrow> bool" where
  "conditionsMatch [] profile = True"
| "conditionsMatch (c # cs) profile =
     (if \<not> conditionMatches c profile then False else conditionsMatch cs profile)"

section \<open>The snapshot\<close>

text \<open>A Go map of slices reads as nil for a missing key.\<close>

record CacheSnapshot =
  cs_Version :: int
  cs_MaxGlobalMailID :: int
  cs_MailsByID :: "int \<rightharpoonup> GlobalMail"
  cs_ActiveMailIDs :: "int list"
  cs_MailIDsByServer :: "int \<Rightarrow> int list"
  cs_CompiledConditions :: "int \<Rightarrow> CompiledCondition list"
  cs_LastRefreshTime :: go_time

definition empty_snapshot :: "int \<Rightarrow> go_time \<Rightarrow> CacheSnapshot" where
  "empty_snapshot version now = \<lparr>cs_Version = version, cs_MaxGlobalMailID = 0,
     cs_MailsByID = Map.empty, cs_ActiveMailIDs = [], cs_MailIDsByServer = (\<lambda>_. []),
     cs_CompiledConditions = (\<lambda>_. []), cs_LastRefreshTime = now\<rparr>"

definition add_server :: "int \<Rightarrow> int \<Rightarrow> (int \<Rightarrow> int list) \<Rightarrow> int \<Rightarrow> int list" where
  "add_server mailID serverID m = m(serverID := m serverID @ [mailID])"

text \<open>The package has its own copy of the function that the Redis repository uses for its indexes.\<close>

fun cache_serverIDsFromConditions :: "Condition list \<Rightarrow> int list" where
  "cache_serverIDsFromConditions [] = []"
| "cache_serverIDsFromConditions (c # cs) =
     (if cond_Type c \<noteq> ''server'' \<and> cond_Type c \<noteq> ''server_id'' then cache_serverIDsFromConditions cs
      else case Unmarshal (decode_list decode_int) (cond_Value c) of
        Inr ids \<Rightarrow> ids @ cache_serverIDsFromConditions cs
      | Inl _ \<Rightarrow> (case Unmarshal decode_int (cond_Value c) of
            Inr i \<Rightarrow> i # cache_serverIDsFromConditions cs
          | Inl _ \<Rightarrow> cache_serverIDsFromConditions cs))"

text \<open>The snapshot and Redis file a mail under the same servers.\<close>

lemma cache_serverIDs_same [simp]: "cache_serverIDsFromConditions cs = serverIDsFromConditions cs"
  by (induction cs) (simp_all split: sum.splits)

definition add_mail :: "GlobalMail \<Rightarrow> CacheSnapshot \<Rightarrow> CacheSnapshot" where
  "add_mail mail next = next
     \<lparr>cs_MailsByID := (cs_MailsByID next)(mail_ID mail \<mapsto> mail),
      cs_ActiveMailIDs := cs_ActiveMailIDs next @ [mail_ID mail],
      cs_MaxGlobalMailID := (if mail_ID mail > cs_MaxGlobalMailID next then mail_ID mail
                             else cs_MaxGlobalMailID next),
      cs_CompiledConditions :=
        (cs_CompiledConditions next)(mail_ID mail := compileConditions (mail_Conditions mail)),
      cs_MailIDsByServer := fold (add_server (mail_ID mail))
        (cache_serverIDsFromConditions (mail_Conditions mail)) (cs_MailIDsByServer next)\<rparr>"

definition build_snapshot :: "int \<Rightarrow> go_time \<Rightarrow> GlobalMail list \<Rightarrow> CacheSnapshot" where
  "build_snapshot version now mails = fold add_mail mails (empty_snapshot version now)"

section \<open>The cache\<close>

text \<open>
  \<open>lc_locker\<close> is the cache repository again when it has the locking interface; \<open>lc_join key\<close> is
  what waiting for a rebuild in flight under that key gives, when there is one.
\<close>

record 'w LocalCache =
  lc_repo :: "'w MailRepository"
  lc_cache :: "'w CacheRepository"
  lc_locker :: "'w CacheRebuildLocker option"
  lc_metrics :: "'w ConsistencyMetrics option"
  lc_now :: "'w clock"
  lc_rebuildLockTTL :: duration
  lc_rebuildWaitInterval :: duration
  lc_join :: "string \<Rightarrow> 'w \<Rightarrow> ((error + GlobalMail list) \<times> 'w) option"

definition globalMailRebuildLockTTL :: duration where
  "globalMailRebuildLockTTL = 30 * time_second"

definition globalMailRebuildWaitInterval :: duration where
  "globalMailRebuildWaitInterval = 100 * time_millisecond"

text \<open>The new cache and its first snapshot, whose refresh time is the zero time.\<close>

definition NewLocalCache ::
  "'w MailRepository \<Rightarrow> 'w CacheRepository \<Rightarrow> 'w CacheRebuildLocker option \<Rightarrow> 'w clock \<Rightarrow>
   (string \<Rightarrow> 'w \<Rightarrow> ((error + GlobalMail list) \<times> 'w) option) \<Rightarrow> 'w LocalCache \<times> CacheSnapshot" where
  "NewLocalCache repo cache locker clock join =
     (\<lparr>lc_repo = repo, lc_cache = cache, lc_locker = locker, lc_metrics = None, lc_now = clock,
       lc_rebuildLockTTL = globalMailRebuildLockTTL,
       lc_rebuildWaitInterval = globalMailRebuildWaitInterval, lc_join = join\<rparr>,
      empty_snapshot 0 0)"

definition SetRebuildLockOptions :: "duration \<Rightarrow> duration \<Rightarrow> 'w LocalCache \<Rightarrow> 'w LocalCache" where
  "SetRebuildLockOptions lockTTL waitInterval c =
     (let c = (if lockTTL > 0 then c\<lparr>lc_rebuildLockTTL := lockTTL\<rparr> else c)
      in if waitInterval > 0 then c\<lparr>lc_rebuildWaitInterval := waitInterval\<rparr> else c)"

definition SetMetrics :: "'w ConsistencyMetrics option \<Rightarrow> 'w LocalCache \<Rightarrow> 'w LocalCache" where
  "SetMetrics metrics c = c\<lparr>lc_metrics := metrics\<rparr>"

definition incCounter :: "'w LocalCache \<Rightarrow> string \<Rightarrow> labels \<Rightarrow> 'w \<Rightarrow> 'w" where
  "incCounter c = inc_counter (lc_metrics c)"

definition observeDuration :: "'w LocalCache \<Rightarrow> string \<Rightarrow> duration \<Rightarrow> labels \<Rightarrow> 'w \<Rightarrow> 'w" where
  "observeDuration c = observe_duration (lc_metrics c)"

section \<open>Loading\<close>

fun load_mails :: "'w CacheRepository \<Rightarrow> int list \<Rightarrow> ('w, GlobalMail list option) io" where
  "load_mails K [] = io_return (Some [])"
| "load_mails K (mailID # mailIDs) = io_bind (GetGlobalMail K mailID) (\<lambda>found.
     case found of
       None \<Rightarrow> io_return None
     | Some mail \<Rightarrow> io_bind (load_mails K mailIDs) (\<lambda>rest.
         io_return (map_option (\<lambda>mails. mail # mails) rest)))"

definition loadFromSharedCache :: "'w LocalCache \<Rightarrow> go_time \<Rightarrow> ('w, GlobalMail list option) io" where
  "loadFromSharedCache c now = io_bind (GetActiveGlobalMailIDs (lc_cache c) now) (\<lambda>mailIDs.
     if mailIDs = [] then io_return None else load_mails (lc_cache c) mailIDs)"

definition loadPublishedFromMySQLAndRefill :: "'w LocalCache \<Rightarrow> go_time \<Rightarrow> ('w, GlobalMail list) io" where
  "loadPublishedFromMySQLAndRefill c now =
     io_bind (GetPublishedGlobalMails (lc_repo c) now) (\<lambda>mails.
     io_bind (io_each (\<lambda>mail. io_bind (SetGlobalMail (lc_cache c) mail) (\<lambda>_.
                AddGlobalMailToIndexes (lc_cache c) mail)) mails) (\<lambda>_.
     io_return mails))"

datatype wake = CtxDone error | TimerFired | Tick

fun waitForSharedCache ::
  "'w LocalCache \<Rightarrow> go_time \<Rightarrow> wake list \<Rightarrow> 'w \<Rightarrow> ((error + GlobalMail list option) \<times> 'w) option" where
  "waitForSharedCache c now [] w = None"
| "waitForSharedCache c now (CtxDone e # wakes) w = Some (Inl e, w)"
| "waitForSharedCache c now (TimerFired # wakes) w = Some (Inr None, w)"
| "waitForSharedCache c now (Tick # wakes) w = (case loadFromSharedCache c now w of
       (Inl e, w1) \<Rightarrow> Some (Inl e, w1)
     | (Inr (Some mails), w1) \<Rightarrow> Some (Inr (Some mails), w1)
     | (Inr None, w1) \<Rightarrow> waitForSharedCache c now wakes w1)"

text \<open>The function that \<^verbatim>\<open>rebuildSharedCache\<close> hands to \<^verbatim>\<open>singleflight\<close>.\<close>

definition rebuild_once ::
  "'w LocalCache \<Rightarrow> int \<Rightarrow> go_time \<Rightarrow> wake list \<Rightarrow> 'w \<Rightarrow> ((error + GlobalMail list) \<times> 'w) option" where
  "rebuild_once c version now wakes w = (case lc_locker c of
       None \<Rightarrow> Some (loadPublishedFromMySQLAndRefill c now w)
     | Some locker \<Rightarrow>
         (case TryAcquireGlobalMailRebuildLock locker version (lc_rebuildLockTTL c) w of
            (Inl e, w1) \<Rightarrow> Some (Inl e, w1)
          | (Inr (release, acquired), w1) \<Rightarrow>
              if acquired then
                (let w2 = incCounter c ''globalmail_cache_rebuild_lock_acquired_total'' [] w1;
                     (result, w3) = loadPublishedFromMySQLAndRefill c now w2;
                     (_, w4) = release w3
                 in Some (result, w4))
              else (case waitForSharedCache c now wakes
                          (incCounter c ''globalmail_cache_rebuild_lock_wait_total'' [] w1) of
                  None \<Rightarrow> None
                | Some (Inl e, w2) \<Rightarrow> Some (Inl e, w2)
                | Some (Inr (Some mails), w2) \<Rightarrow> Some (Inr mails, w2)
                | Some (Inr None, w2) \<Rightarrow> Some (loadPublishedFromMySQLAndRefill c now
                    (incCounter c ''globalmail_cache_rebuild_lock_timeout_total'' [] w2)))))"

definition rebuildSharedCache ::
  "'w LocalCache \<Rightarrow> int \<Rightarrow> go_time \<Rightarrow> wake list \<Rightarrow> 'w \<Rightarrow> ((error + GlobalMail list) \<times> 'w) option" where
  "rebuildSharedCache c version now wakes w = (case lc_join c (show_int version) w of
       Some (result, w1) \<Rightarrow>
         Some (result, incCounter c ''globalmail_cache_rebuild_shared_total'' [] w1)
     | None \<Rightarrow> rebuild_once c version now wakes w)"

section \<open>Refreshing\<close>

text \<open>The deferred observation at the end of \<^verbatim>\<open>refresh\<close>: the clock is read again.\<close>

definition observe_refresh :: "'w LocalCache \<Rightarrow> go_time \<Rightarrow> string \<Rightarrow> 'w \<Rightarrow> 'w" where
  "observe_refresh c start source w = (let (t, w1) = lc_now c w
     in observeDuration c ''globalmail_cache_refresh_seconds'' (time_sub t start) [(''source'', source)] w1)"

definition cache_refresh ::
  "'w LocalCache \<Rightarrow> int \<Rightarrow> wake list \<Rightarrow> 'w \<times> CacheSnapshot \<Rightarrow>
   ((error + unit) \<times> 'w \<times> CacheSnapshot) option" where
  "cache_refresh c version wakes = (\<lambda>(w, snapshot).
     let (now, w1) = lc_now c w
     in case loadFromSharedCache c now w1 of
          (Inl e, w2) \<Rightarrow> Some (Inl e, observe_refresh c now ''redis''
             (incCounter c ''globalmail_cache_refresh_errors_total'' [(''stage'', ''redis'')] w2), snapshot)
        | (Inr (Some mails), w2) \<Rightarrow>
             Some (Inr (), observe_refresh c now ''redis'' w2, build_snapshot version now mails)
        | (Inr None, w2) \<Rightarrow>
            (case rebuildSharedCache c version now wakes (incCounter c ''globalmail_cache_l2_miss_total'' [] w2) of
               None \<Rightarrow> None
             | Some (Inl e, w3) \<Rightarrow> Some (Inl e, observe_refresh c now ''mysql''
                 (incCounter c ''globalmail_cache_refresh_errors_total'' [(''stage'', ''mysql'')] w3), snapshot)
             | Some (Inr mails, w3) \<Rightarrow>
                 Some (Inr (), observe_refresh c now ''mysql'' w3, build_snapshot version now mails)))"

text \<open>
  The second test of \<^verbatim>\<open>RefreshIfStale\<close>, under the mutex, sees the snapshot \<open>locked\<close> that another
  goroutine may have stored meanwhile.
\<close>

definition RefreshIfStale ::
  "'w LocalCache \<Rightarrow> (CacheSnapshot \<Rightarrow> CacheSnapshot) \<Rightarrow> wake list \<Rightarrow> 'w \<times> CacheSnapshot \<Rightarrow>
   ((error + unit) \<times> 'w \<times> CacheSnapshot) option" where
  "RefreshIfStale c locked wakes = (\<lambda>(w, snapshot).
     case GetGlobalMailVersion (lc_cache c) w of
       (Inl e, w1) \<Rightarrow> Some (Inl e, w1, snapshot)
     | (Inr remoteVersion, w1) \<Rightarrow>
         if cs_Version snapshot \<ge> remoteVersion then Some (Inr (), w1, snapshot)
         else if cs_Version (locked snapshot) \<ge> remoteVersion then Some (Inr (), w1, locked snapshot)
         else cache_refresh c remoteVersion wakes (w1, locked snapshot))"

definition ForceRefresh ::
  "'w LocalCache \<Rightarrow> (CacheSnapshot \<Rightarrow> CacheSnapshot) \<Rightarrow> wake list \<Rightarrow> 'w \<times> CacheSnapshot \<Rightarrow>
   ((error + unit) \<times> 'w \<times> CacheSnapshot) option" where
  "ForceRefresh c locked wakes = (\<lambda>(w, snapshot).
     case GetGlobalMailVersion (lc_cache c) w of
       (Inl e, w1) \<Rightarrow> Some (Inl e, w1, snapshot)
     | (Inr remoteVersion, w1) \<Rightarrow> cache_refresh c remoteVersion wakes (w1, locked snapshot))"

section \<open>Reading\<close>

definition visible_at :: "CacheSnapshot \<Rightarrow> UserProfile \<Rightarrow> go_time \<Rightarrow> int \<Rightarrow> GlobalMail option" where
  "visible_at snapshot profile now mailID = (case cs_MailsByID snapshot mailID of
       None \<Rightarrow> None
     | Some mail \<Rightarrow>
         if mail_Status mail \<noteq> MailStatusPublished then None
         else if now < mail_StartTime mail \<or> \<not> now < mail_ExpireTime mail then None
         else if \<not> conditionsMatch (cs_CompiledConditions snapshot mailID) profile then None
         else Some mail)"

definition candidateIDs :: "CacheSnapshot \<Rightarrow> UserProfile \<Rightarrow> int list" where
  "candidateIDs snapshot profile =
     (if cs_MailIDsByServer snapshot (prof_ServerID profile) = [] then cs_ActiveMailIDs snapshot
      else cs_MailIDsByServer snapshot (prof_ServerID profile))"

definition VisibleMails ::
  "'w LocalCache \<Rightarrow> UserProfile \<Rightarrow> 'w \<times> CacheSnapshot \<Rightarrow> GlobalMail list \<times> 'w" where
  "VisibleMails c profile = (\<lambda>(w, snapshot).
     let (now, w1) = lc_now c w
     in (List.map_filter (visible_at snapshot profile now) (candidateIDs snapshot profile), w1))"

section \<open>What a snapshot holds\<close>

lemma conditionsMatch_all: "conditionsMatch cs profile \<longleftrightarrow> list_all (\<lambda>c. conditionMatches c profile) cs"
  by (induction cs) auto

lemma fold_add_server:
  "fold (add_server i) ss m s = m s @ replicate (count_list ss s) i"
  by (induction ss arbitrary: m) (auto simp: add_server_def replicate_append_same)

lemma fold_add_mail_keeps:
  "cs_Version (fold add_mail mails s) = cs_Version s"
  "cs_LastRefreshTime (fold add_mail mails s) = cs_LastRefreshTime s"
  "cs_ActiveMailIDs (fold add_mail mails s) = cs_ActiveMailIDs s @ map mail_ID mails"
  "i \<notin> mail_ID ` set mails \<Longrightarrow> cs_MailsByID (fold add_mail mails s) i = cs_MailsByID s i"
  "i \<notin> mail_ID ` set mails \<Longrightarrow> cs_CompiledConditions (fold add_mail mails s) i = cs_CompiledConditions s i"
  by (induction mails arbitrary: s) (auto simp: add_mail_def)

lemma fold_add_mail_maps:
  assumes "distinct (map mail_ID mails)" "m \<in> set mails"
  shows "cs_MailsByID (fold add_mail mails s) (mail_ID m) = Some m"
    "cs_CompiledConditions (fold add_mail mails s) (mail_ID m) = compileConditions (mail_Conditions m)"
  using assms
proof (induction mails arbitrary: s)
  case (Cons x mails)
  { case 1 then show ?case
      using Cons.IH(1) by (auto simp: fold_add_mail_keeps) (simp add: add_mail_def)
  next
    case 2 then show ?case
      using Cons.IH(2) by (auto simp: fold_add_mail_keeps) (simp add: add_mail_def) }
qed auto

lemma fold_add_mail_max:
  "cs_MaxGlobalMailID (fold add_mail mails s) = fold max (map mail_ID mails) (cs_MaxGlobalMailID s)"
  by (induction mails arbitrary: s) (auto simp: add_mail_def max_def)

lemma fold_add_mail_servers:
  "cs_MailIDsByServer (fold add_mail mails s) server = cs_MailIDsByServer s server @
     concat (map (\<lambda>m. replicate (count_list (serverIDsFromConditions (mail_Conditions m)) server) (mail_ID m)) mails)"
  by (induction mails arbitrary: s) (auto simp: add_mail_def fold_add_server)

lemma fold_max_bound: "fold max xs (b::int) = Max (insert b (set xs))"
proof (induction xs arbitrary: b)
  case (Cons x xs)
  then show ?case by (cases "xs = []") (auto simp: max.assoc max.commute max.left_commute)
qed simp

lemma snapshot_mails:
  assumes "distinct (map mail_ID mails)"
  shows "cs_MailsByID (build_snapshot version now mails) i = Some m \<longleftrightarrow> m \<in> set mails \<and> mail_ID m = i"
proof (cases "i \<in> mail_ID ` set mails")
  case True
  then obtain m' where "m' \<in> set mails" "mail_ID m' = i" by blast
  with fold_add_mail_maps(1) [OF assms this(1)] assms show ?thesis
    by (auto simp: build_snapshot_def distinct_map dest: inj_onD)
next
  case False
  then show ?thesis by (auto simp: build_snapshot_def fold_add_mail_keeps(4) empty_snapshot_def)
qed

lemma count_list_pos: "count_list xs x > 0 \<longleftrightarrow> x \<in> set xs"
  by (metis count_list_0_iff gr0I less_numeral_extra(3))

text \<open>
  The snapshot that a refresh builds from mails with different ids: every mail is found
  under its id with its conditions, the ids are listed in order, the largest id is recorded,
  and the index of a server lists a mail once for every time its conditions name the server.
\<close>

lemma build_snapshot_content:
  assumes "distinct (map mail_ID mails)"
  shows "let s = build_snapshot version now mails in
     cs_Version s = version \<and> cs_LastRefreshTime s = now \<and>
     cs_ActiveMailIDs s = map mail_ID mails \<and>
     dom (cs_MailsByID s) = mail_ID ` set mails \<and>
     (\<forall>m\<in>set mails. cs_MailsByID s (mail_ID m) = Some m \<and>
        cs_CompiledConditions s (mail_ID m) = compileConditions (mail_Conditions m)) \<and>
     cs_MaxGlobalMailID s = Max (insert 0 (mail_ID ` set mails)) \<and>
     (\<forall>server. cs_MailIDsByServer s server =
        concat (map (\<lambda>m. replicate (count_list (serverIDsFromConditions (mail_Conditions m)) server)
                           (mail_ID m)) mails))"
proof -
  have dom: "dom (cs_MailsByID (build_snapshot version now mails)) = mail_ID ` set mails"
    by (auto simp: dom_def snapshot_mails [OF assms])
  show ?thesis
    unfolding Let_def
  proof (intro conjI ballI allI)
    show "cs_MaxGlobalMailID (build_snapshot version now mails) = Max (insert 0 (mail_ID ` set mails))"
      by (simp add: build_snapshot_def fold_add_mail_max fold_max_bound empty_snapshot_def)
  qed (simp_all add: dom, simp_all add: build_snapshot_def fold_add_mail_keeps fold_add_mail_maps [OF assms]
      fold_add_mail_servers empty_snapshot_def)
qed

section \<open>What a player sees\<close>

text \<open>What the requirements mean by a mail that a player may see at a time.\<close>

definition eligible :: "UserProfile \<Rightarrow> go_time \<Rightarrow> GlobalMail \<Rightarrow> bool" where
  "eligible profile now m \<longleftrightarrow> mail_Status m = MailStatusPublished \<and>
     mail_StartTime m \<le> now \<and> now < mail_ExpireTime m \<and>
     (\<forall>c\<in>set (compileConditions (mail_Conditions m)). conditionMatches c profile)"

definition names_server :: "int \<Rightarrow> GlobalMail \<Rightarrow> bool" where
  "names_server server m \<longleftrightarrow> server \<in> set (serverIDsFromConditions (mail_Conditions m))"

lemma visible_at_build:
  assumes "distinct (map mail_ID mails)" "m \<in> set mails"
  shows "visible_at (build_snapshot version t mails) profile now (mail_ID m) =
    (if eligible profile now m then Some m else None)"
  using fold_add_mail_maps [OF assms, of "empty_snapshot version t"]
  by (auto simp: visible_at_def build_snapshot_def eligible_def conditionsMatch_all list_all_iff)

lemma map_filter_ids:
  assumes "\<And>m. m \<in> set ms \<Longrightarrow> f (mail_ID m) = (if P m then Some m else None)"
  shows "List.map_filter f (map mail_ID ms) = filter P ms"
  using assms by (induction ms) (auto simp: map_filter_simps)

lemma map_filter_ids_set:
  assumes "set ids = mail_ID ` M" "\<And>m. m \<in> M \<Longrightarrow> f (mail_ID m) = (if P m then Some m else None)"
  shows "set (List.map_filter f ids) = {m \<in> M. P m}"
proof -
  have "set (List.map_filter f ids) = {m. \<exists>i\<in>mail_ID ` M. f i = Some m}"
    unfolding assms(1) [symmetric] by (force simp: map_filter_def)
  also have "\<dots> = {m \<in> M. P m}" using assms(2) by (auto split: if_splits)
  finally show ?thesis .
qed

lemma candidateIDs_build:
  assumes "distinct (map mail_ID mails)"
  shows "(\<forall>m\<in>set mails. \<not> names_server (prof_ServerID profile) m) \<Longrightarrow>
      candidateIDs (build_snapshot version t mails) profile = map mail_ID mails"
    and "(\<exists>m\<in>set mails. names_server (prof_ServerID profile) m) \<Longrightarrow>
      set (candidateIDs (build_snapshot version t mails) profile) =
        mail_ID ` {m \<in> set mails. names_server (prof_ServerID profile) m}"
  by (auto simp: candidateIDs_def build_snapshot_def fold_add_mail_servers fold_add_mail_keeps
      empty_snapshot_def names_server_def count_list_0_iff count_list_pos)

lemma mail_shown:
  assumes "distinct (map mail_ID mails)" "m \<in> set mails" "eligible profile (fst (lc_now c w)) m"
    and "names_server (prof_ServerID profile) m \<or>
      cs_MailIDsByServer (build_snapshot version t mails) (prof_ServerID profile) = []"
  shows "m \<in> set (fst (VisibleMails c profile (w, build_snapshot version t mails)))"
proof -
  let ?s = "build_snapshot version t mails"
  have "cs_ActiveMailIDs ?s = map mail_ID mails" by (simp add: build_snapshot_def fold_add_mail_keeps empty_snapshot_def)
  then have "mail_ID m \<in> set (candidateIDs ?s profile)" if "cs_MailIDsByServer ?s (prof_ServerID profile) = []"
    using assms(2) that by (simp add: candidateIDs_def)
  moreover have "mail_ID m \<in> set (candidateIDs ?s profile)" if "names_server (prof_ServerID profile) m"
    using candidateIDs_build(2) [OF assms(1), of profile version t] assms(2) that by blast
  ultimately have "mail_ID m \<in> set (candidateIDs ?s profile)" using assms(4) by blast
  with visible_at_build [OF assms(1,2), of version t profile "fst (lc_now c w)"] assms(3)
  show ?thesis by (auto simp: VisibleMails_def map_filter_def split: prod.splits intro!: image_eqI [of _ _ "mail_ID m"])
qed


text \<open>
  C37. A mail for everyone is hidden by a mail for one server: as soon as some mail of the
  snapshot names the server of a player, valid or not, the player does not see any mail that
  names no server, though it is published, valid and the player meets its conditions.
\<close>

theorem server_mail_hides_others:
  assumes "distinct (map mail_ID mails)" "m' \<in> set mails" "names_server (prof_ServerID profile) m'"
    and "m \<in> set mails" "eligible profile now m" "serverIDsFromConditions (mail_Conditions m) = []"
    and "lc_now c w = (now, w1)"
  shows "m \<notin> set (fst (VisibleMails c profile (w, build_snapshot version t mails)))"
proof -
  let ?s = "build_snapshot version t mails"
  have ids: "set (candidateIDs ?s profile) = mail_ID ` {m \<in> set mails. names_server (prof_ServerID profile) m}"
    using assms(2,3) by (intro candidateIDs_build(2) [OF assms(1)]) blast
  have "set (List.map_filter (visible_at ?s profile now) (candidateIDs ?s profile)) =
      {m \<in> {m \<in> set mails. names_server (prof_ServerID profile) m}. eligible profile now m}"
    by (rule map_filter_ids_set [OF ids]) (simp add: visible_at_build [OF assms(1)])
  then show ?thesis using assms(6,7) by (simp add: VisibleMails_def names_server_def)
qed

section \<open>Refreshing\<close>

lemma cache_refresh_result:
  assumes "cache_refresh c version wakes (w, s) = Some (res, w', s')"
  shows "case res of Inl e \<Rightarrow> s' = s | Inr u \<Rightarrow> \<exists>now mails. s' = build_snapshot version now mails"
  using assms by (fastforce simp: cache_refresh_def Let_def split: prod.splits sum.splits option.splits)


text \<open>The wait ends when the timer fires or the context is done.\<close>

lemma wait_returns:
  assumes "\<exists>wake\<in>set wakes. wake \<noteq> Tick"
  shows "waitForSharedCache c now wakes w \<noteq> None"
  using assms
proof (induction wakes arbitrary: w)
  case (Cons wake wakes)
  then show ?case
    by (cases wake) (auto split: prod.splits sum.splits option.splits)
qed simp


section \<open>What a refresh leaves alone\<close>

definition cache_keeps :: "('w \<Rightarrow> 'v) \<Rightarrow> 'w LocalCache \<Rightarrow> bool" where
  "cache_keeps v c \<longleftrightarrow> keeps v (GetGlobalMailVersion (lc_cache c)) \<and>
     (\<forall>i. keeps v (GetGlobalMail (lc_cache c) i)) \<and> (\<forall>m. keeps v (SetGlobalMail (lc_cache c) m)) \<and>
     (\<forall>t. keeps v (GetActiveGlobalMailIDs (lc_cache c) t)) \<and>
     (\<forall>m. keeps v (AddGlobalMailToIndexes (lc_cache c) m)) \<and>
     (\<forall>t. keeps v (GetPublishedGlobalMails (lc_repo c) t)) \<and>
     (\<forall>locker n ttl w lres w'. lc_locker c = Some locker \<longrightarrow>
        TryAcquireGlobalMailRebuildLock locker n ttl w = (lres, w') \<longrightarrow>
        v w' = v w \<and> (\<forall>release b. lres = Inr (release, b) \<longrightarrow> keeps v release)) \<and>
     metrics_keep v (lc_metrics c) \<and> keeps v (lc_now c) \<and>
     (\<forall>key w r w'. lc_join c key w = Some (r, w') \<longrightarrow> v w' = v w)"

lemma keeps_load_mails: "(\<And>i. keeps v (GetGlobalMail K i)) \<Longrightarrow> keeps v (load_mails K ids)"
  by (induction ids) (auto intro!: keeps_bind split: option.splits)

lemma keeps_inc: "metrics_keep v (lc_metrics c) \<Longrightarrow> v (incCounter c name ls w) = v w"
  by (simp add: incCounter_def metrics_keep_def)

lemma load_keeps:
  assumes "cache_keeps v c"
  shows "keeps v (loadFromSharedCache c now)" "keeps v (loadPublishedFromMySQLAndRefill c now)"
  using assms unfolding loadFromSharedCache_def loadPublishedFromMySQLAndRefill_def cache_keeps_def
  by (auto intro!: keeps_bind keeps_each keeps_load_mails)

lemma wait_keeps:
  assumes "cache_keeps v c" "waitForSharedCache c now wakes w = Some (r, w')"
  shows "v w' = v w"
  using assms(2)
proof (induction wakes arbitrary: w)
  case (Cons wake wakes)
  then show ?case
    by (cases wake) (auto split: prod.splits sum.splits option.splits
        dest!: keepsD [OF load_keeps(1) [OF assms(1)]])
qed simp

lemma rebuild_once_keeps:
  assumes ck: "cache_keeps v c" and run: "rebuild_once c version now wakes w = Some (r, w')"
  shows "v w' = v w"
proof (cases "lc_locker c")
  case None
  with run keepsD [OF load_keeps(2) [OF ck]] show ?thesis by (auto simp: rebuild_once_def)
next
  case (Some locker)
  obtain lres w1 where l: "TryAcquireGlobalMailRebuildLock locker version (lc_rebuildLockTTL c) w = (lres, w1)"
    by fastforce
  have law: "v w1 = v w" "\<And>release b. lres = Inr (release, b) \<Longrightarrow> keeps v release"
    using ck Some l unfolding cache_keeps_def by blast+
  have inc: "v (incCounter c n ls u) = v u" for n ls u using ck by (simp add: cache_keeps_def keeps_inc)
  show ?thesis
  proof (cases lres)
    case (Inl e)
    with run Some l law show ?thesis by (auto simp: rebuild_once_def)
  next
    case (Inr rb)
    then obtain release b where lr: "lres = Inr (release, b)" by (cases rb) auto
    show ?thesis
      using run Some l lr law(1) keepsD [OF law(2) [OF lr]] inc
      by (auto simp: rebuild_once_def Let_def split: if_splits prod.splits option.splits sum.splits
          dest!: keepsD [OF load_keeps(2) [OF ck]] wait_keeps [OF ck])
  qed
qed

lemma cache_refresh_keeps:
  assumes ck: "cache_keeps v c" and run: "cache_refresh c version wakes (w, s) = Some (r, w', s')"
  shows "v w' = v w"
proof -
  have inc: "v (incCounter c n ls u) = v u" for n ls u using ck by (simp add: cache_keeps_def keeps_inc)
  have now: "lc_now c u = (t, u') \<Longrightarrow> v u' = v u" for t u u' using ck by (auto simp: cache_keeps_def dest: keepsD)
  have obs: "v (observe_refresh c n src u) = v u" for n src u
    using ck now [of u] by (auto simp: observe_refresh_def observeDuration_def cache_keeps_def metrics_keep_def
        split: prod.splits)
  have join: "lc_join c k u = Some (jr, u') \<Longrightarrow> v u' = v u" for k u jr u'
    using ck unfolding cache_keeps_def by blast
  have rebuild: "rebuildSharedCache c version t wakes u = Some (br, u') \<Longrightarrow> v u' = v u" for t u br u'
    by (auto simp: rebuildSharedCache_def inc split: option.splits dest: join rebuild_once_keeps [OF ck])
  show ?thesis
    using run by (auto simp: cache_refresh_def inc obs split: prod.splits sum.splits option.splits
        dest!: now rebuild keepsD [OF load_keeps(1) [OF ck]])
qed

lemma RefreshIfStale_keeps:
  assumes ck: "cache_keeps v c" and run: "RefreshIfStale c locked wakes (w, s) = Some (r, w', s')"
  shows "v w' = v w"
proof -
  have "keeps v (GetGlobalMailVersion (lc_cache c))" using ck by (simp add: cache_keeps_def)
  with run show ?thesis
    by (auto simp: RefreshIfStale_def split: prod.splits sum.splits if_splits
        dest!: keepsD cache_refresh_keeps [OF ck])
qed

text \<open>The cache over a repository that keeps the contract of the shared cache.\<close>

locale cache_reader = shared_cache "lc_cache c" sc ok rnow
  for c :: "'w LocalCache" and sc ok rnow +
  assumes now_keeps: "lc_now c w = (t, w') \<Longrightarrow> sc w' = sc w \<and> (ok w' \<longleftrightarrow> ok w) \<and> rnow w \<le> rnow w'"
    and observe_keeps: "sc (observeDuration c name d labels w) = sc w"
      "ok (observeDuration c name d labels w) = ok w"
      "rnow w \<le> rnow (observeDuration c name d labels w)"
begin

lemma observe_refresh_keeps:
  "sc (observe_refresh c n src w) = sc w" "ok (observe_refresh c n src w) = ok w"
  "rnow w \<le> rnow (observe_refresh c n src w)"
proof -
  obtain t w1 where t: "lc_now c w = (t, w1)" by fastforce
  show "sc (observe_refresh c n src w) = sc w" "ok (observe_refresh c n src w) = ok w"
    "rnow w \<le> rnow (observe_refresh c n src w)"
    using now_keeps [OF t] observe_keeps(1,2)
      order_trans [OF _ observe_keeps(3), of "rnow w" w1]
    by (auto simp: observe_refresh_def t)
qed

lemma load_mails_found:
  assumes "ok w" "load_mails (lc_cache c) ids w = (Inr (Some mails), w')"
  shows "map mail_ID mails = ids \<and>
    (\<forall>m\<in>set mails. \<exists>e. sc_mail (sc w) (mail_ID m) = Some (m, e))"
  using assms
proof (induction ids arbitrary: w mails)
  case (Cons i ids)
  from Cons.prems(2) obtain m w1 rest where
    g: "GetGlobalMail (lc_cache c) i w = (Inr (Some m), w1)" and
    rest: "load_mails (lc_cache c) ids w1 = (Inr (Some rest), w')" and mails: "mails = m # rest"
    by (auto elim!: io_bind_InrE split: option.splits)
  note law = get_mail [OF Cons.prems(1) g]
  from law obtain e where e: "sc_mail (sc w) i = Some (m, e)"
    by (auto simp: shared_mail_def split: option.splits if_splits)
  with mail_key [OF Cons.prems(1)] have "mail_ID m = i" by blast
  with Cons.IH [OF _ rest] law e mails show ?case by auto
qed auto

lemma load_mails_keeps:
  assumes "ok w" "load_mails (lc_cache c) ids w = (r, w')"
  shows "ok w' \<and> sc w' = sc w \<and> rnow w \<le> rnow w'"
  using assms
proof (induction ids arbitrary: w r w')
  case (Cons i ids)
  obtain mres w1 where g: "GetGlobalMail (lc_cache c) i w = (mres, w1)" by fastforce
  have law: "ok w1" "sc w1 = sc w" "rnow w \<le> rnow w1"
    using get_mail [OF Cons.prems(1) g] by (auto simp: during_def)
  obtain lres w2 where l: "load_mails (lc_cache c) ids w1 = (lres, w2)" by fastforce
  have "w' = w1 \<or> w' = w2"
    using Cons.prems(2) g l by (auto simp: io_bind_def split: sum.splits option.splits)
  with law Cons.IH [OF law(1) l] show ?case by auto
qed simp

lemma load_mails_complete:
  assumes "ok w" "load_mails (lc_cache c) ids w = (Inr r, w')"
    and "\<And>i. i \<in> set ids \<Longrightarrow> \<exists>m e. sc_mail (sc w) i = Some (m, e) \<and> (\<forall>x. e = Some x \<longrightarrow> rnow w' < x)"
  shows "r \<noteq> None"
  using assms
proof (induction ids arbitrary: w r)
  case (Cons i ids)
  obtain found w1 where g: "GetGlobalMail (lc_cache c) i w = (Inr found, w1)"
    using Cons.prems(2) by (auto elim!: io_bind_InrE)
  from get_mail [OF Cons.prems(1) g] obtain t where
    law: "ok w1" "sc w1 = sc w" "during rnow w w1 t" "found = shared_mail t (sc w) i" by blast
  obtain lres w2 where l: "load_mails (lc_cache c) ids w1 = (lres, w2)" by fastforce
  have w': "rnow w1 \<le> rnow w'"
    using Cons.prems(2) g l load_mails_keeps [OF law(1) l]
    by (auto simp: io_bind_def split: sum.splits option.splits)
  obtain m where m: "found = Some m"
    using Cons.prems(3) [of i] law w' by (fastforce simp: shared_mail_def during_def split: option.splits)
  with Cons.prems(2) g obtain r' where r': "load_mails (lc_cache c) ids w1 = (Inr r', w')"
    "r = map_option (\<lambda>mails. m # mails) r'" by (auto elim!: io_bind_InrE)
  have "r' \<noteq> None"
    using Cons.prems(3) law(2) by (intro Cons.IH [OF law(1) r'(1)]) auto
  with r' show ?case by simp
qed simp

lemma shared_load:
  assumes "ok w" "loadFromSharedCache c now w = (Inr r, w')"
  shows "ok w' \<and> sc w' = sc w \<and> rnow w \<le> rnow w' \<and>
    (\<forall>mails. r = Some mails \<longrightarrow> distinct (map mail_ID mails) \<and>
       mail_ID ` set mails = {i. \<exists>x. sc_active (sc w) i = Some x \<and> Unix now \<le> x} \<and>
       (\<forall>m\<in>set mails. \<exists>e. sc_mail (sc w) (mail_ID m) = Some (m, e))) \<and>
    ((\<exists>i x. sc_active (sc w) i = Some x \<and> Unix now \<le> x) \<longrightarrow>
     (\<forall>i x. sc_active (sc w) i = Some x \<longrightarrow> Unix now \<le> x \<longrightarrow>
        (\<exists>m e. sc_mail (sc w) i = Some (m, e) \<and> (\<forall>x. e = Some x \<longrightarrow> rnow w' < x))) \<longrightarrow> r \<noteq> None)"
proof -
  from assms(2) obtain ids w1 where a: "GetActiveGlobalMailIDs (lc_cache c) now w = (Inr ids, w1)"
    and l: "(if ids = [] then io_return None else load_mails (lc_cache c) ids) w1 = (Inr r, w')"
    by (auto simp: loadFromSharedCache_def elim!: io_bind_InrE)
  from active [OF assms(1) a] have law: "ok w1" "sc w1 = sc w" "rnow w \<le> rnow w1" "distinct ids"
    "set ids = {i. \<exists>x. sc_active (sc w) i = Some x \<and> Unix now \<le> x}" by auto
  show ?thesis
  proof (cases "ids = []")
    case True
    with l law show ?thesis by auto
  next
    case False
    with l have run: "load_mails (lc_cache c) ids w1 = (Inr r, w')" by simp
    note keeps = load_mails_keeps [OF law(1) run]
    have found: "map mail_ID mails = ids \<and> (\<forall>m\<in>set mails. \<exists>e. sc_mail (sc w) (mail_ID m) = Some (m, e))"
      if "r = Some mails" for mails
      using load_mails_found [OF law(1)] run law(2) that by simp
    have complete: "r \<noteq> None" if "\<forall>i\<in>set ids. \<exists>m e. sc_mail (sc w) i = Some (m, e) \<and> (\<forall>x. e = Some x \<longrightarrow> rnow w' < x)"
      using that law(2) by (intro load_mails_complete [OF law(1) run]) auto
    show ?thesis
    proof (intro conjI allI impI)
      fix mails assume "r = Some mails"
      from found [OF this] law(4,5) show "distinct (map mail_ID mails)"
        "mail_ID ` set mails = {i. \<exists>x. sc_active (sc w) i = Some x \<and> Unix now \<le> x}"
        "\<forall>m\<in>set mails. \<exists>e. sc_mail (sc w) (mail_ID m) = Some (m, e)"
        by (simp_all flip: set_map)
    next
      assume "\<forall>i x. sc_active (sc w) i = Some x \<longrightarrow> Unix now \<le> x \<longrightarrow>
        (\<exists>m e. sc_mail (sc w) i = Some (m, e) \<and> (\<forall>x. e = Some x \<longrightarrow> rnow w' < x))"
      then show "r \<noteq> None" by (intro complete) (simp add: law(5), blast)
    qed (use keeps law in auto)
  qed
qed

text \<open>A refresh that finds all active mails in the shared cache serves exactly these mails.\<close>

lemma refresh_serves_shared:
  assumes ok: "ok w" and now: "lc_now c w = (now, w1)"
    and load0: "loadFromSharedCache c now w1 = (lres, w2)"
    and run: "cache_refresh c version wakes (w, s) = Some (Inr (), w', s')"
    and some: "sc_active (sc w) i0 = Some x0" "Unix now \<le> x0"
    and live: "\<And>i x. sc_active (sc w) i = Some x \<Longrightarrow> Unix now \<le> x \<Longrightarrow>
        \<exists>m e. sc_mail (sc w) i = Some (m, e) \<and> (\<forall>x. e = Some x \<longrightarrow> rnow w2 < x)"
  shows "\<exists>mails. s' = build_snapshot version now mails \<and>
    ok w' \<and> sc w' = sc w \<and> distinct (map mail_ID mails) \<and>
    (\<forall>m. m \<in> set mails \<longleftrightarrow> (\<exists>x e. sc_active (sc w) (mail_ID m) = Some x \<and> Unix now \<le> x \<and>
          sc_mail (sc w) (mail_ID m) = Some (m, e)))"
proof -
  have k1: "sc w1 = sc w" "ok w1" using now_keeps [OF now] ok by auto
  from run now load0 obtain r where load: "loadFromSharedCache c now w1 = (Inr r, w2)"
    by (cases lres) (auto simp: cache_refresh_def)
  note law = shared_load [OF k1(2) load]
  have "r \<noteq> None" using law some live k1(1) by auto
  then obtain mails where r: "r = Some mails" by auto
  have res: "w' = observe_refresh c now ''redis'' w2" "s' = build_snapshot version now mails"
    using run by (simp_all add: cache_refresh_def now load r)
  have mails: "distinct (map mail_ID mails)"
    "mail_ID ` set mails = {i. \<exists>x. sc_active (sc w) i = Some x \<and> Unix now \<le> x}"
    "\<And>m. m \<in> set mails \<Longrightarrow> \<exists>e. sc_mail (sc w) (mail_ID m) = Some (m, e)"
    using law r k1(1) by auto
  have "m \<in> set mails \<longleftrightarrow> (\<exists>x e. sc_active (sc w) (mail_ID m) = Some x \<and> Unix now \<le> x \<and>
      sc_mail (sc w) (mail_ID m) = Some (m, e))" for m
  proof
    assume "m \<in> set mails"
    moreover then have "mail_ID m \<in> mail_ID ` set mails" by blast
    ultimately show "\<exists>x e. sc_active (sc w) (mail_ID m) = Some x \<and> Unix now \<le> x \<and>
      sc_mail (sc w) (mail_ID m) = Some (m, e)" using mails(2,3) by auto
  next
    assume act: "\<exists>x e. sc_active (sc w) (mail_ID m) = Some x \<and> Unix now \<le> x \<and>
      sc_mail (sc w) (mail_ID m) = Some (m, e)"
    then have "mail_ID m \<in> mail_ID ` set mails" unfolding mails(2) by blast
    then obtain m' where m': "m' \<in> set mails" "mail_ID m' = mail_ID m" by auto
    from mails(3) [OF m'(1)] obtain e where "sc_mail (sc w) (mail_ID m) = Some (m', e)"
      unfolding m'(2) by blast
    with act have "m' = m" by fastforce
    with m'(1) show "m \<in> set mails" by blast
  qed
  moreover have "ok w'" "sc w' = sc w"
    using law k1 by (auto simp: res observe_refresh_keeps)
  ultimately show ?thesis using res mails(1) by blast
qed

end

text \<open>The cache of a player server, over the Redis repository.\<close>

locale redis_player = redis_repository C ks rnow p for C :: "'w redis_client" and ks rnow p +
  fixes c :: "'w LocalCache"
  assumes reads_redis: "lc_cache c = redis_CacheRepository \<lparr>rr_client = C, rr_prefix = p\<rparr>"
    and clock_keeps: "lc_now c w = (t, w') \<Longrightarrow> ks w' = ks w \<and> rnow w \<le> rnow w'"
    and metrics_keep: "metrics_keep ks (lc_metrics c)" "metrics_keep rnow (lc_metrics c)"

sublocale redis_player \<subseteq> reader: cache_reader c "\<lambda>w. view p (ks w)" "\<lambda>w. cache_ok p (ks w)" rnow
proof -
  have "shared_cache (lc_cache c) (\<lambda>w. view p (ks w)) (\<lambda>w. cache_ok p (ks w)) rnow"
    unfolding reads_redis by (rule cache.shared_cache_axioms)
  then show "cache_reader c (\<lambda>w. view p (ks w)) (\<lambda>w. cache_ok p (ks w)) rnow"
    using clock_keeps metrics_keep
    by (intro cache_reader.intro cache_reader_axioms.intro)
      (auto simp: metrics_keep_def observeDuration_def)
qed

context redis_player begin

lemmas serves_redis = reader.refresh_serves_shared
  and found_key = reader.mail_key

end

definition mem_cache :: "mem_world LocalCache" where
  "mem_cache = fst (NewLocalCache (mysql_MailRepository mem_gorm)
     (redis_CacheRepository \<lparr>rr_client = mem_redis, rr_prefix = ''p:''\<rparr>) None mem_clock (\<lambda>_ _. None))"

lemma mem_cache_sel [simp]:
  "lc_cache mem_cache = redis_CacheRepository \<lparr>rr_client = mem_redis, rr_prefix = ''p:''\<rparr>"
  "lc_now mem_cache = mem_clock" "lc_metrics mem_cache = None"
  by (simp_all add: mem_cache_def NewLocalCache_def)

interpretation mem_player: redis_player mem_redis mw_keys mem_now "''p:''" mem_cache
  by unfold_locales (auto dest: mem_clock_now)


section \<open>Examples\<close>

definition sample_mail :: "int \<Rightarrow> Condition list \<Rightarrow> GlobalMail" where
  "sample_mail i conds = zero_mail\<lparr>mail_ID := i, mail_Status := MailStatusPublished, mail_Version := 1,
     mail_ExpireTime := 64000000000 * time_second, mail_Conditions := conds\<rparr>"

definition sample_server :: "int \<Rightarrow> Condition" where
  "sample_server s = \<lparr>cond_ID = 0, cond_MailID = 0, cond_Type = ''server'', cond_Operator = ''eq'',
     cond_Value = RawValid (JInt s)\<rparr>"

definition sample_mails :: "GlobalMail list" where
  "sample_mails = [sample_mail 5 [], sample_mail 9 [sample_server 3], sample_mail 2 []]"

definition sample_profile :: "int \<Rightarrow> UserProfile" where
  "sample_profile server = \<lparr>prof_RoleID = 1, prof_UID = 1, prof_ServerID = server, prof_RegisterTime = 0,
     prof_VIPLevel = 0, prof_TotalRecharge = 0, prof_CorpsLevel = 0, prof_OpenDays = 0,
     prof_PackageType = '''', prof_Country = ''''\<rparr>"

definition cache_start :: mem_world where
  "cache_start = \<lparr>mw_db = \<lparr>tb_global_mail = [], tb_condition = [], tb_state = [], tb_ledger = [],
     tb_backpack = [], tb_outbox = [], tb_idempotency = []\<rparr>, mw_keys = Map.empty, mw_topic = [],
     mw_ticks = 0, mw_next_id = 1, mw_faults = []\<rparr>"

text \<open>A world whose Redis holds one published mail.\<close>

definition cache_filled :: mem_world where
  "cache_filled = (let r = \<lparr>rr_client = mem_redis, rr_prefix = ''p:''\<rparr> in
     snd (redis_AddGlobalMailToIndexes r (sample_mail 5 [])
       (snd (redis_SetGlobalMail r (sample_mail 5 []) cache_start))))"


theorem server_mail_hides_others_witness:
  "eligible (sample_profile 3) (63839664000 * time_second) (sample_mail 5 []) \<and> sample_mail 5 [] \<in> set sample_mails \<and>
   sample_mail 5 [] \<notin> set (fst (VisibleMails mem_cache (sample_profile 3) (cache_start, build_snapshot 1 0 sample_mails)))"
proof -
  have d: "distinct (map mail_ID sample_mails)" by code_simp
  have now: "lc_now mem_cache cache_start = (63839664000 * time_second, cache_start\<lparr>mw_ticks := 1\<rparr>)"
    by (simp add: mem_clock_def mem_now_def cache_start_def)
  have m: "sample_mail 5 [] \<in> set sample_mails" "sample_mail 9 [sample_server 3] \<in> set sample_mails"
    by (simp_all add: sample_mails_def)
  have e: "eligible (sample_profile 3) (63839664000 * time_second) (sample_mail 5 [])"
    "names_server (prof_ServerID (sample_profile 3)) (sample_mail 9 [sample_server 3])"
    "serverIDsFromConditions (mail_Conditions (sample_mail 5 [])) = []" by code_simp+
  from server_mail_hides_others [OF d m(2) e(2) m(1) e(1,3) now] e m show ?thesis by blast
qed



lemma cache_filled_view:
  "cache_ok ''p:'' (mw_keys cache_filled)"
  "sc_active (view ''p:'' (mw_keys cache_filled)) = [5 \<mapsto> Unix (64000000000 * time_second)]"
  "\<exists>m e. sc_mail (view ''p:'' (mw_keys cache_filled)) 5 = Some (m, e) \<and>
     (\<forall>x. e = Some x \<longrightarrow> 64000000000 * time_second < x) \<and> mail_ID m = 5"
proof -
  let ?r = "\<lparr>rr_client = mem_redis, rr_prefix = ''p:''\<rparr>" and ?m = "sample_mail 5 []"
  let ?v = "\<lambda>w. view ''p:'' (mw_keys w)"
  obtain sres w1 where s: "redis_SetGlobalMail ?r ?m cache_start = (sres, w1)" by fastforce
  obtain ares w2 where a: "redis_AddGlobalMailToIndexes ?r ?m w1 = (ares, w2)" by fastforce
  have w2: "w2 = cache_filled" by (simp add: cache_filled_def Let_def s a)
  have "case redis_SetGlobalMail ?r ?m cache_start of (sres, w1) \<Rightarrow>
      \<not> isl sres \<and> \<not> isl (fst (redis_AddGlobalMailToIndexes ?r ?m w1))" by code_simp
  then have fin: "\<not> isl sres" "\<not> isl ares" by (simp_all add: s a)
  have start: "cache_ok ''p:'' (mw_keys cache_start)" "sc_active (?v cache_start) = Map.empty"
    by (simp_all add: cache_start_def cache_ok_def view_def view_active_def fun_eq_iff)
  have m: "wf_mail ?m" "in_int64 (mail_ID ?m)" "mail_ID ?m = 5" "mail_ExpireTime ?m = 64000000000 * time_second"
    by code_simp+
  from mem_repo.set_mail_view [OF start(1) m(1) s] fin(1) obtain e where
    set: "cache_ok ''p:'' (mw_keys w1)"
      "?v w1 = (?v cache_start)\<lparr>sc_mail := (sc_mail (?v cache_start))(mail_ID ?m \<mapsto> (reread_mail ?m, e))\<rparr>"
      "case e of None \<Rightarrow> True | Some x \<Rightarrow> mail_ExpireTime ?m < x" by blast
  from mem_repo.add_index_view [OF set(1) m(2) a] fin(2) have
    add: "cache_ok ''p:'' (mw_keys w2)"
      "?v w2 = (?v w1)\<lparr>sc_active := (sc_active (?v w1))(mail_ID ?m \<mapsto> Unix (mail_ExpireTime ?m))\<rparr>" by blast+
  show "cache_ok ''p:'' (mw_keys cache_filled)"
    "sc_active (?v cache_filled) = [5 \<mapsto> Unix (64000000000 * time_second)]"
    "\<exists>m e. sc_mail (?v cache_filled) 5 = Some (m, e) \<and>
     (\<forall>x. e = Some x \<longrightarrow> 64000000000 * time_second < x) \<and> mail_ID m = 5"
    using add set start m by (auto simp: w2 reread_mail_def)
qed


end
