(* ===== verification/Player_Mail.thy ===== *)
theory Player_Mail
  imports Local_Cache
begin

text \<open>
  The mails of one player (\<^verbatim>\<open>app/playersrv/mail_service.go\<close>) and the delivery of rewards to the
  backpack (\<^verbatim>\<open>app/playersrv/backpack_service.go\<close>): listing, reading, claiming and deleting a
  global mail. A handler runs on the world and on the snapshot of the local cache. It starts
  with \<^verbatim>\<open>RefreshIfStale\<close> and so takes the same two arguments for what other goroutines do, and
  gives \<open>None\<close> only when that refresh is still waiting.
\<close>

section \<open>Delivering rewards\<close>

record 'w BackpackRewardService =
  brs_ledger :: "'w RewardLedgerRepository option"
  brs_backpack :: "'w BackpackRepository option"
  brs_now :: "'w clock"

definition NewBackpackRewardService ::
  "'w RewardLedgerRepository option \<Rightarrow> 'w BackpackRepository option \<Rightarrow> 'w clock \<Rightarrow> 'w BackpackRewardService" where
  "NewBackpackRewardService ledger backpack clock =
     \<lparr>brs_ledger = ledger, brs_backpack = backpack, brs_now = clock\<rparr>"

definition ErrBackpackRepositories :: error where
  "ErrBackpackRepositories = ErrorNew ''backpack reward service requires ledger and backpack repositories''"

definition pending_grant :: "go_time \<Rightarrow> RewardGrant \<Rightarrow> RewardGrant" where
  "pending_grant now grant =
     (if IsZero (rg_CreateTime grant) then grant\<lparr>rg_CreateTime := now\<rparr> else grant)
       \<lparr>rg_UpdateTime := now, rg_Status := ''pending''\<rparr>"

definition backpack_grant :: "go_time \<Rightarrow> RewardGrant \<Rightarrow> BackpackGrant" where
  "backpack_grant now grant = \<lparr>bg_RoleID = rg_RoleID grant, bg_ServerID = rg_ServerID grant,
     bg_GrantKey = rg_GrantKey grant, bg_LootIndex = rg_LootIndex grant, bg_Loot = rg_Loot grant,
     bg_CreateTime = now\<rparr>"

text \<open>The reservation is made; the result of \<^verbatim>\<open>MarkGlobalMailRewardFailed\<close> is dropped.\<close>

definition deliver ::
  "'w RewardLedgerRepository \<Rightarrow> 'w BackpackRepository \<Rightarrow> go_time \<Rightarrow> RewardGrant \<Rightarrow> ('w, bool) io" where
  "deliver ledger backpack now grant = (\<lambda>w.
     case GrantBackpackReward backpack (backpack_grant now grant) w of
       (Inl e, w1) \<Rightarrow>
         (Inl e, snd (MarkGlobalMailRewardFailed ledger (rg_GrantKey grant) (Some e) now w1))
     | (Inr (externalRewardID, _), w1) \<Rightarrow>
         io_bind (MarkGlobalMailRewardSucceeded ledger (rg_GrantKey grant) externalRewardID now)
           (\<lambda>_. io_return True) w1)"

definition backpack_GrantGlobalMailReward :: "'w BackpackRewardService \<Rightarrow> RewardGrant \<Rightarrow> ('w, bool) io" where
  "backpack_GrantGlobalMailReward s grant = (case (brs_ledger s, brs_backpack s) of
       (Some ledger, Some backpack) \<Rightarrow> (\<lambda>w.
         let (now, w1) = brs_now s w; grant = pending_grant now grant
         in io_bind (ReserveGlobalMailReward ledger grant)
              (\<lambda>reserved. if \<not> reserved then io_return reserved else deliver ledger backpack now grant) w1)
     | _ \<Rightarrow> io_fail ErrBackpackRepositories)"

definition backpack_RewardRepository :: "'w BackpackRewardService \<Rightarrow> 'w RewardRepository" where
  "backpack_RewardRepository s = \<lparr>GrantGlobalMailReward = backpack_GrantGlobalMailReward s\<rparr>"

section \<open>The service\<close>

record MailItem =
  mi_Mail :: GlobalMail
  mi_Status :: UserMailStatus
  mi_ClaimedLootIndexes :: "int list"
  mi_State :: "UserGlobalMailState option"

record 'w PlayerMailService =
  pms_repo :: "'w MailRepository"
  pms_rewards :: "'w RewardRepository option"
  pms_cache :: "'w LocalCache"
  pms_now :: "'w clock"

definition ErrMailNotVisible :: error where
  "ErrMailNotVisible = ErrorNew ''global mail is not visible to user''"

text \<open>The repository is the reward repository too when it has that interface (the type assertion).\<close>

definition NewPlayerMailService ::
  "'w MailRepository \<Rightarrow> 'w RewardRepository option \<Rightarrow> 'w LocalCache \<Rightarrow> 'w clock \<Rightarrow> 'w PlayerMailService" where
  "NewPlayerMailService repo as_rewards cache clock =
     \<lparr>pms_repo = repo, pms_rewards = as_rewards, pms_cache = cache, pms_now = clock\<rparr>"

definition SetRewardRepository :: "'w RewardRepository option \<Rightarrow> 'w PlayerMailService \<Rightarrow> 'w PlayerMailService" where
  "SetRewardRepository rewards s = s\<lparr>pms_rewards := rewards\<rparr>"

type_synonym 'w player_state = "'w \<times> CacheSnapshot"
type_synonym ('w, 'a) player_io = "'w player_state \<Rightarrow> ((error + 'a) \<times> 'w player_state) option"

text \<open>What other goroutines do while the refresh runs: a snapshot they store, and wake-ups.\<close>

type_synonym others = "(CacheSnapshot \<Rightarrow> CacheSnapshot) \<times> wake list"

definition RefreshCache :: "'w PlayerMailService \<Rightarrow> others \<Rightarrow> ('w, unit) player_io" where
  "RefreshCache s oth = RefreshIfStale (pms_cache s) (fst oth) (snd oth)"

definition ForceRefreshCache :: "'w PlayerMailService \<Rightarrow> others \<Rightarrow> ('w, unit) player_io" where
  "ForceRefreshCache s oth = ForceRefresh (pms_cache s) (fst oth) (snd oth)"

definition CacheVersion :: "'w player_state \<Rightarrow> int" where
  "CacheVersion st = cs_Version (snd st)"

text \<open>\<^verbatim>\<open>if err := s.cache.RefreshIfStale(ctx); err != nil { return err }\<close>, then the rest on the snapshot.\<close>

definition after_refresh ::
  "'w PlayerMailService \<Rightarrow> others \<Rightarrow> (CacheSnapshot \<Rightarrow> ('w, 'a) io) \<Rightarrow> ('w, 'a) player_io" where
  "after_refresh s oth rest st = (case RefreshCache s oth st of
       None \<Rightarrow> None
     | Some (Inl e, st1) \<Rightarrow> Some (Inl e, st1)
     | Some (Inr _, w1, snapshot) \<Rightarrow> (let (res, w2) = rest snapshot w1 in Some (res, w2, snapshot)))"

section \<open>Listing\<close>

definition mail_item :: "(int \<rightharpoonup> UserGlobalMailState) \<Rightarrow> GlobalMail \<Rightarrow> MailItem option" where
  "mail_item states mail = (case states (mail_ID mail) of
       None \<Rightarrow> Some \<lparr>mi_Mail = mail, mi_Status = UserMailStatusUnread, mi_ClaimedLootIndexes = [],
                    mi_State = None\<rparr>
     | Some state \<Rightarrow>
         if ums_Status state = UserMailStatusDeleted then None
         else Some \<lparr>mi_Mail = mail, mi_Status = ums_Status state,
                   mi_ClaimedLootIndexes = ums_ClaimedLootIndexes state, mi_State = Some state\<rparr>)"

text \<open>
  \<^verbatim>\<open>sort.Slice\<close> with \<^verbatim>\<open>items[i].Mail.ID > items[j].Mail.ID\<close>. Items of one id come from one map
  entry and one state, so they are equal and the instability of the sort does not show.
\<close>

definition sort_items :: "MailItem list \<Rightarrow> MailItem list" where
  "sort_items items = sort_key (\<lambda>item. - mail_ID (mi_Mail item)) items"

definition list_loaded :: "'w PlayerMailService \<Rightarrow> UserProfile \<Rightarrow> CacheSnapshot \<Rightarrow> ('w, MailItem list) io" where
  "list_loaded s profile snapshot w =
     (let (mails, w1) = VisibleMails (pms_cache s) profile (w, snapshot)
      in io_bind (GetUserStates (pms_repo s) (prof_RoleID profile) (map mail_ID mails)) (\<lambda>states.
           io_return (sort_items (List.map_filter (mail_item states) mails))) w1)"

definition ListGlobalMails ::
  "'w PlayerMailService \<Rightarrow> UserProfile \<Rightarrow> others \<Rightarrow> ('w, MailItem list) player_io" where
  "ListGlobalMails s profile oth = after_refresh s oth (list_loaded s profile)"

section \<open>Loot indexes\<close>

text \<open>The loop with the set \<^verbatim>\<open>seen\<close>: indexes that were seen are skipped.\<close>

fun unseen :: "int set \<Rightarrow> int list \<Rightarrow> int list" where
  "unseen seen [] = []"
| "unseen seen (idx # rest) =
     (if idx \<in> seen then unseen seen rest else idx # unseen (insert idx seen) rest)"

definition mergeLootIndexes :: "int list \<Rightarrow> int list \<Rightarrow> int list" where
  "mergeLootIndexes existing next = sort (unseen {} (existing @ next))"

definition newLootIndexes :: "int list \<Rightarrow> int list \<Rightarrow> int list" where
  "newLootIndexes existing next = sort (unseen (set existing) next)"

definition loot_invalid :: "int \<Rightarrow> error" where
  "loot_invalid index = ErrorNew (''loot index '' @ show_int index @ '' is invalid'')"

definition loot_out_of_range :: "int \<Rightarrow> error" where
  "loot_out_of_range index = ErrorNew (''loot index '' @ show_int index @ '' out of range'')"

definition lootAtIndex :: "raw_message \<Rightarrow> int \<Rightarrow> error + raw_message" where
  "lootAtIndex loots index =
     (if index < 0 then Inl (loot_invalid index)
      else if loots = RawEmpty then Inr RawEmpty
      else (case Unmarshal (decode_list (\<lambda>j. Inr (RawValid j))) loots of
          Inl e \<Rightarrow> Inl e
        | Inr items \<Rightarrow>
            if index \<ge> int (length items) then Inl (loot_out_of_range index)
            else Inr (items ! nat index)))"

section \<open>Changing the state of a mail\<close>

definition visibleMail ::
  "'w PlayerMailService \<Rightarrow> UserProfile \<Rightarrow> int \<Rightarrow> CacheSnapshot \<Rightarrow> 'w \<Rightarrow> GlobalMail option \<times> 'w" where
  "visibleMail s profile mailID snapshot w =
     (let (mails, w1) = VisibleMails (pms_cache s) profile (w, snapshot)
      in (find (\<lambda>mail. mail_ID mail = mailID) mails, w1))"

definition new_state :: "UserProfile \<Rightarrow> int \<Rightarrow> go_time \<Rightarrow> UserGlobalMailState" where
  "new_state profile mailID now = \<lparr>ums_RoleID = prof_RoleID profile, ums_ServerID = prof_ServerID profile,
     ums_GlobalMailID = mailID, ums_Status = UserMailStatusUnread, ums_ClaimedLootIndexes = [],
     ums_ClaimTime = None, ums_DeleteTime = None, ums_Version = 0, ums_CreateTime = now, ums_UpdateTime = 0\<rparr>"

definition next_version :: "UserGlobalMailState \<Rightarrow> UserGlobalMailState" where
  "next_version state = state\<lparr>ums_Version := wrap64 (ums_Version state + 1)\<rparr>"

definition set_update_time :: "go_time \<Rightarrow> UserGlobalMailState \<Rightarrow> UserGlobalMailState" where
  "set_update_time now state =
     (if IsZero (ums_UpdateTime state) then state\<lparr>ums_UpdateTime := now\<rparr> else state)"

type_synonym 'w state_change =
  "UserGlobalMailState \<Rightarrow> GlobalMail \<Rightarrow> go_time \<Rightarrow> ('w, UserGlobalMailState) io"

definition update_loaded ::
  "'w PlayerMailService \<Rightarrow> UserProfile \<Rightarrow> int \<Rightarrow> 'w state_change \<Rightarrow> CacheSnapshot \<Rightarrow> ('w, UserGlobalMailState) io" where
  "update_loaded s profile mailID apply_change snapshot w =
     (case visibleMail s profile mailID snapshot w of
        (None, w1) \<Rightarrow> (Inl ErrMailNotVisible, w1)
      | (Some mail, w1) \<Rightarrow>
          io_bind (GetUserStates (pms_repo s) (prof_RoleID profile) [mailID]) (\<lambda>states w2.
            let (now, w3) = pms_now s w2;
                state = (case states mailID of None \<Rightarrow> new_state profile mailID now | Some state \<Rightarrow> state)
            in io_bind (apply_change (next_version state) mail now) (\<lambda>state.
                 let state = set_update_time now state
                 in io_bind (SaveUserState (pms_repo s) state) (\<lambda>_. io_return state)) w3) w1)"

definition updateGlobalMailState ::
  "'w PlayerMailService \<Rightarrow> UserProfile \<Rightarrow> int \<Rightarrow> 'w state_change \<Rightarrow> others \<Rightarrow> ('w, UserGlobalMailState) player_io" where
  "updateGlobalMailState s profile mailID apply_change oth =
     after_refresh s oth (update_loaded s profile mailID apply_change)"

definition read_change :: "'w state_change" where
  "read_change state mail now =
     (if ums_Status state = UserMailStatusDeleted then io_return state
      else io_return
        (if ums_Status state = '''' \<or> ums_Status state = UserMailStatusUnread
         then state\<lparr>ums_Status := UserMailStatusRead, ums_UpdateTime := now\<rparr>
         else state\<lparr>ums_UpdateTime := now\<rparr>))"

definition MarkGlobalMailRead ::
  "'w PlayerMailService \<Rightarrow> UserProfile \<Rightarrow> int \<Rightarrow> others \<Rightarrow> ('w, UserGlobalMailState) player_io" where
  "MarkGlobalMailRead s profile mailID = updateGlobalMailState s profile mailID read_change"

definition grant_key :: "int \<Rightarrow> int \<Rightarrow> int \<Rightarrow> string" where
  "grant_key role mailID lootIndex = show_int role @ '':'' @ show_int mailID @ '':'' @ show_int lootIndex"

definition reward_grant :: "UserProfile \<Rightarrow> int \<Rightarrow> int \<Rightarrow> raw_message \<Rightarrow> go_time \<Rightarrow> RewardGrant" where
  "reward_grant profile mailID lootIndex loot now = \<lparr>rg_RoleID = prof_RoleID profile,
     rg_ServerID = prof_ServerID profile, rg_GlobalMailID = mailID, rg_LootIndex = lootIndex, rg_Loot = loot,
     rg_GrantKey = grant_key (prof_RoleID profile) mailID lootIndex, rg_Status = ''succeeded'',
     rg_ExternalRewardID = '''', rg_FailureReason = '''', rg_CreateTime = now, rg_UpdateTime = now\<rparr>"

definition grantReward ::
  "'w PlayerMailService \<Rightarrow> UserProfile \<Rightarrow> int \<Rightarrow> int \<Rightarrow> raw_message \<Rightarrow> go_time \<Rightarrow> ('w, unit) io" where
  "grantReward s profile mailID lootIndex loot now = (case pms_rewards s of
       None \<Rightarrow> io_return ()
     | Some rewards \<Rightarrow>
         io_bind (GrantGlobalMailReward rewards (reward_grant profile mailID lootIndex loot now))
           (\<lambda>_. io_return ()))"

definition claim_loot ::
  "'w PlayerMailService \<Rightarrow> UserProfile \<Rightarrow> int \<Rightarrow> GlobalMail \<Rightarrow> go_time \<Rightarrow> int \<Rightarrow> ('w, unit) io" where
  "claim_loot s profile mailID mail now lootIndex = (case lootAtIndex (mail_Loots mail) lootIndex of
       Inl e \<Rightarrow> io_fail e
     | Inr loot \<Rightarrow> grantReward s profile mailID lootIndex loot now)"

definition claimed_state :: "int list \<Rightarrow> go_time \<Rightarrow> UserGlobalMailState \<Rightarrow> UserGlobalMailState" where
  "claimed_state lootIndexes now state =
     state\<lparr>ums_Status := UserMailStatusClaimed,
           ums_ClaimedLootIndexes := mergeLootIndexes (ums_ClaimedLootIndexes state) lootIndexes,
           ums_ClaimTime := (case ums_ClaimTime state of None \<Rightarrow> Some now | Some t \<Rightarrow> Some t),
           ums_UpdateTime := now\<rparr>"

definition claim_change :: "'w PlayerMailService \<Rightarrow> UserProfile \<Rightarrow> int \<Rightarrow> int list \<Rightarrow> 'w state_change" where
  "claim_change s profile mailID lootIndexes state mail now =
     (if ums_Status state = UserMailStatusDeleted then io_return state
      else io_bind (io_each (claim_loot s profile mailID mail now)
                      (newLootIndexes (ums_ClaimedLootIndexes state) lootIndexes)) (\<lambda>_.
        io_return (claimed_state lootIndexes now state)))"

definition ClaimGlobalMail ::
  "'w PlayerMailService \<Rightarrow> UserProfile \<Rightarrow> int \<Rightarrow> int list \<Rightarrow> others \<Rightarrow> ('w, UserGlobalMailState) player_io" where
  "ClaimGlobalMail s profile mailID lootIndexes =
     updateGlobalMailState s profile mailID (claim_change s profile mailID lootIndexes)"

definition deleted_state :: "go_time \<Rightarrow> UserGlobalMailState \<Rightarrow> UserGlobalMailState" where
  "deleted_state now state =
     state\<lparr>ums_Status := UserMailStatusDeleted,
           ums_DeleteTime := (case ums_DeleteTime state of None \<Rightarrow> Some now | Some t \<Rightarrow> Some t),
           ums_UpdateTime := now\<rparr>"

definition delete_change :: "'w state_change" where
  "delete_change state mail now = io_return (deleted_state now state)"

definition DeleteGlobalMail ::
  "'w PlayerMailService \<Rightarrow> UserProfile \<Rightarrow> int \<Rightarrow> others \<Rightarrow> ('w, UserGlobalMailState) player_io" where
  "DeleteGlobalMail s profile mailID = updateGlobalMailState s profile mailID delete_change"

section \<open>Loot indexes, in detail\<close>

lemma unseen_content: "set (unseen seen xs) = set xs - seen \<and> distinct (unseen seen xs)"
  by (induction seen xs rule: unseen.induct) auto

text \<open>
  The claimed indexes after a claim are the claimed and the requested ones, sorted and
  without repetition; the indexes that a claim delivers are the requested ones that were not
  claimed, sorted and without repetition; so a claim that is repeated delivers nothing.
\<close>

lemma loot_indexes_exact:
  "sorted (mergeLootIndexes existing next) \<and> distinct (mergeLootIndexes existing next) \<and>
   set (mergeLootIndexes existing next) = set existing \<union> set next \<and>
   sorted (newLootIndexes existing next) \<and> distinct (newLootIndexes existing next) \<and>
   set (newLootIndexes existing next) = set next - set existing \<and>
   newLootIndexes (mergeLootIndexes existing next) next = []"
proof -
  have "set (newLootIndexes (mergeLootIndexes existing next) next) = {}"
    by (simp add: newLootIndexes_def mergeLootIndexes_def unseen_content)
  then have "newLootIndexes (mergeLootIndexes existing next) next = []" by (simp only: set_empty)
  then show ?thesis
    by (simp add: newLootIndexes_def [of existing] mergeLootIndexes_def unseen_content)
qed

lemma set_newLootIndexes: "set (newLootIndexes existing next) = set next - set existing"
  "distinct (newLootIndexes existing next)"
  by (simp_all add: newLootIndexes_def unseen_content)

lemma set_mergeLootIndexes: "set (mergeLootIndexes existing next) = set existing \<union> set next"
  by (simp add: mergeLootIndexes_def unseen_content)

lemma decode_raw_elems [simp]: "decode_elems (\<lambda>j. Inr (RawValid j)) js = Inr (map RawValid js)"
  by (induction js) auto

text \<open>
  \<^verbatim>\<open>lootAtIndex\<close> finds the element of a JSON array at an index within its bounds; a mail
  without loots has no loot at any index that is not negative; everything else is an error.
\<close>

lemma loot_at_index:
  "lootAtIndex (RawValid (JArr js)) i =
     (if 0 \<le> i \<and> i < int (length js) then Inr (RawValid (js ! nat i))
      else Inl (if i < 0 then loot_invalid i else loot_out_of_range i)) \<and>
   lootAtIndex RawEmpty i = (if 0 \<le> i then Inr RawEmpty else Inl (loot_invalid i)) \<and>
   (\<exists>e. lootAtIndex (RawValid (JObj kvs)) i = Inl e) \<and> (\<exists>e. lootAtIndex (RawInvalid s) i = Inl e)"
  by (auto simp: lootAtIndex_def)

section \<open>What a reward service promises\<close>

text \<open>
  The tables after a call to deliver the grant \<open>g\<close>, with its result: only ledger and backpack
  change; the backpack gets at most one row, under the key of the grant; a key that is in the
  ledger changes nothing; a call that says it has delivered has reserved the key and the row is there.
\<close>

definition rewarded :: "RewardGrant \<Rightarrow> error + bool \<Rightarrow> tables \<Rightarrow> tables \<Rightarrow> bool" where
  "rewarded g r d d' \<longleftrightarrow> (\<exists>L B. d' = d\<lparr>tb_ledger := L, tb_backpack := B\<rparr> \<and>
     (B = tb_backpack d \<or> (rg_GrantKey g \<notin> bpm_GrantKey ` set (tb_backpack d) \<and>
        (\<exists>t. B = tb_backpack d @ [backpack_model (backpack_grant t g)]))) \<and>
     (map rlm_GrantKey L = map rlm_GrantKey (tb_ledger d) \<or> (rg_GrantKey g \<notin> rlm_GrantKey ` set (tb_ledger d) \<and>
        map rlm_GrantKey L = map rlm_GrantKey (tb_ledger d) @ [rg_GrantKey g]))) \<and>
   (rg_GrantKey g \<in> rlm_GrantKey ` set (tb_ledger d) \<longrightarrow> d' = d) \<and>
   (\<forall>b. r = Inr b \<longrightarrow> b = (rg_GrantKey g \<notin> rlm_GrantKey ` set (tb_ledger d))) \<and>
   (r = Inr True \<longrightarrow> rg_GrantKey g \<in> rlm_GrantKey ` set (tb_ledger d') \<inter> bpm_GrantKey ` set (tb_backpack d'))"

lemma rewarded_same [simp]: "rewarded g (Inl e) d d"
  by (auto simp: rewarded_def intro!: exI [of _ "tb_ledger d"] exI [of _ "tb_backpack d"])

lemma rewarded_reserved:
  "rlm_GrantKey x = rg_GrantKey g \<Longrightarrow> rg_GrantKey g \<notin> rlm_GrantKey ` set (tb_ledger d) \<Longrightarrow>
   rewarded g (Inl e) d (d\<lparr>tb_ledger := tb_ledger d @ [x]\<rparr>)"
  unfolding rewarded_def
  by (intro conjI exI [of _ "tb_ledger d @ [x]"] exI [of _ "tb_backpack d"]) simp_all

locale reward_service =
  fixes RW :: "'w RewardRepository" and db :: "'w \<Rightarrow> tables"
  assumes grant_reward: "GrantGlobalMailReward RW g w = (r, w') \<Longrightarrow> rewarded g r (db w) (db w')"

locale backpack_rewards = reward_ledger L db + backpack_store B db
  for L :: "'w RewardLedgerRepository" and B :: "'w BackpackRepository" and db +
  fixes clock :: "'w clock"
  assumes clock_keeps: "keeps db clock"

lemma pending_grant_sel [simp]:
  "rg_GrantKey (pending_grant now g) = rg_GrantKey g"
  "backpack_grant t (pending_grant now g) = backpack_grant t g"
  by (simp_all add: pending_grant_def backpack_grant_def)

lemma ledger_model_key [simp]: "rlm_GrantKey (ledger_model g now) = rg_GrantKey g"
  by (simp add: ledger_model_def Let_def)

lemma backpack_model_key [simp]: "bpm_GrantKey (backpack_model (backpack_grant t g)) = rg_GrantKey g"
  by (simp add: backpack_model_def backpack_grant_def)

lemma ledger_updates_keys:
  "map rlm_GrantKey (tb_ledger (db_reward_succeeded k x t d)) = map rlm_GrantKey (tb_ledger d)"
  "map rlm_GrantKey (tb_ledger (db_reward_failed k cause t d)) = map rlm_GrantKey (tb_ledger d)"
  "\<exists>L. db_reward_succeeded k x t d = d\<lparr>tb_ledger := L\<rparr>" "\<exists>L. db_reward_failed k cause t d = d\<lparr>tb_ledger := L\<rparr>"
  by (auto simp: db_reward_succeeded_def db_reward_failed_def map_rows_update)

context backpack_rewards begin

lemma deliver_effect:
  assumes "deliver L B now g w = (r, w')"
  shows "\<exists>L'. map rlm_GrantKey L' = map rlm_GrantKey (tb_ledger (db w)) \<and>
     (db w' = (db w)\<lparr>tb_ledger := L'\<rparr> \<and> isl r \<or>
      db w' = (db_backpack (backpack_grant now g) (db w))\<lparr>tb_ledger := L'\<rparr>) \<and> (r \<noteq> Inr False)"
proof -
  let ?g = "backpack_grant now g"
  obtain br w1 where b: "GrantBackpackReward B ?g w = (br, w1)" by fastforce
  have led: "tb_ledger (db_backpack ?g (db w)) = tb_ledger (db w)" by (simp add: db_backpack_def)
  show ?thesis
  proof (cases br)
    case (Inl e)
    obtain mr w2 where m: "MarkGlobalMailRewardFailed L (rg_GrantKey g) (Some e) now w1 = (mr, w2)" by fastforce
    have w': "w' = w2" "isl r" using assms b Inl m by (auto simp: deliver_def)
    from commits_Some [OF mark_failed [OF m]]
    obtain L' where L': "db w2 = (db w1)\<lparr>tb_ledger := L'\<rparr>" "map rlm_GrantKey L' = map rlm_GrantKey (tb_ledger (db w1))"
      using ledger_updates_keys(2,4) by (metis tables.select_convs(4) tables.surjective tables.update_convs(4))
    from grant_Inl [OF b [unfolded Inl]] L' led w' show ?thesis
      by (intro exI [of _ L']) auto
  next
    case (Inr xb)
    then obtain x bb where br: "br = Inr (x, bb)" by (cases xb) auto
    obtain mr w2 where m: "MarkGlobalMailRewardSucceeded L (rg_GrantKey g) x now w1 = (mr, w2)" by fastforce
    have w': "w' = w2" "r \<noteq> Inr False" using assms b br m by (auto simp: deliver_def io_bind_def split: sum.splits)
    from commits_Some [OF mark_succeeded [OF m]]
    obtain L' where L': "db w2 = (db w1)\<lparr>tb_ledger := L'\<rparr>" "map rlm_GrantKey L' = map rlm_GrantKey (tb_ledger (db w1))"
      using ledger_updates_keys(1,3) by (metis tables.select_convs(4) tables.surjective tables.update_convs(4))
    from grant_Inr [OF b [unfolded br]] L' led w' show ?thesis
      by (intro exI [of _ L']) auto
  qed
qed

end

context backpack_rewards begin

lemma service_grants:
  assumes "backpack_GrantGlobalMailReward (NewBackpackRewardService (Some L) (Some B) clock) g w = (r, w')"
  shows "rewarded g r (db w) (db w')"
proof -
  obtain now w1 where now: "clock w = (now, w1)" by fastforce
  have db1: "db w1 = db w" using keepsD [OF clock_keeps now] .
  let ?g = "pending_grant now g" and ?k = "rg_GrantKey g"
  obtain rr w2 where res: "ReserveGlobalMailReward L ?g w1 = (rr, w2)" by fastforce
  have known: "db_reserve ?g t d = d" if "?k \<in> rlm_GrantKey ` set (tb_ledger d)" for t d
    using that by (simp add: db_reserve_def rows_insert_ignore_def)
  have fresh: "db_reserve ?g t d = d\<lparr>tb_ledger := tb_ledger d @ [ledger_model ?g t]\<rparr>"
    if "?k \<notin> rlm_GrantKey ` set (tb_ledger d)" for t d
    using that by (simp add: db_reserve_def rows_insert_ignore_def)
  show ?thesis
  proof (cases rr)
    case (Inl e)
    with assms now res have "r = Inl e" "w' = w2"
      by (simp_all add: backpack_GrantGlobalMailReward_def NewBackpackRewardService_def Let_def)
    moreover have "rewarded g (Inl e) (db w) (db_reserve ?g t (db w))" for t
      by (cases "?k \<in> rlm_GrantKey ` set (tb_ledger (db w))")
        (simp_all add: known fresh rewarded_reserved)
    ultimately show ?thesis using reserve_Inl [OF res [unfolded Inl]] db1 by auto
  next
    case (Inr reserved)
    from reserve_Inr [OF res [unfolded Inr]] db1 obtain t where
      r: "reserved = (?k \<notin> rlm_GrantKey ` set (tb_ledger (db w)))" "db w2 = db_reserve ?g t (db w)" by auto
    show ?thesis
    proof (cases reserved)
      case False
      with assms now res Inr have "r = Inr False" "w' = w2"
        by (simp_all add: backpack_GrantGlobalMailReward_def NewBackpackRewardService_def Let_def)
      moreover have "?k \<in> rlm_GrantKey ` set (tb_ledger (db w))" "db w2 = db w"
        using r False known by auto
      ultimately show ?thesis
        unfolding rewarded_def
        by (intro conjI exI [of _ "tb_ledger (db w)"] exI [of _ "tb_backpack (db w)"]) simp_all
    next
      case True
      with assms now res Inr have "deliver L B now ?g w2 = (r, w')"
        by (simp add: backpack_GrantGlobalMailReward_def NewBackpackRewardService_def Let_def)
      from deliver_effect [OF this] obtain L' where
        L': "map rlm_GrantKey L' = map rlm_GrantKey (tb_ledger (db w2))" "r \<noteq> Inr False"
          "db w' = (db w2)\<lparr>tb_ledger := L'\<rparr> \<and> isl r \<or>
           db w' = (db_backpack (backpack_grant now g) (db w2))\<lparr>tb_ledger := L'\<rparr>" by auto
      have d2: "db w2 = (db w)\<lparr>tb_ledger := tb_ledger (db w) @ [ledger_model ?g t]\<rparr>"
        using True r fresh by simp
      have keys: "map rlm_GrantKey L' = map rlm_GrantKey (tb_ledger (db w)) @ [?k]" using L'(1) d2 by simp
      then have k: "?k \<in> rlm_GrantKey ` set L'" by (metis in_set_conv_decomp set_map)
      define bp where "bp = tb_backpack (db w')"
      have "db w' = (db w)\<lparr>tb_ledger := L', tb_backpack := bp\<rparr>" using L'(3) d2
        by (auto simp: bp_def db_backpack_def)
      moreover have "bp = tb_backpack (db w) \<or> ?k \<notin> bpm_GrantKey ` set (tb_backpack (db w)) \<and>
          bp = tb_backpack (db w) @ [backpack_model (backpack_grant now g)]"
        "r = Inr True \<longrightarrow> ?k \<in> bpm_GrantKey ` set bp"
        using L'(3) d2 by (auto simp: bp_def db_backpack_def rows_insert_ignore_def)
      ultimately show ?thesis
        unfolding rewarded_def using keys k True r(1) L'(2)
        by (intro conjI exI [of _ L'] exI [of _ bp]) auto
    qed
  qed
qed

end

sublocale backpack_rewards \<subseteq> service:
  reward_service "backpack_RewardRepository (NewBackpackRewardService (Some L) (Some B) clock)" db
  by unfold_locales (simp add: backpack_RewardRepository_def service_grants)

section \<open>Several grants\<close>

abbreviation ledger_keys :: "tables \<Rightarrow> string set" where
  "ledger_keys d \<equiv> rlm_GrantKey ` set (tb_ledger d)"

abbreviation backpack_keys :: "tables \<Rightarrow> string set" where
  "backpack_keys d \<equiv> bpm_GrantKey ` set (tb_backpack d)"

text \<open>
  Grants under the keys \<open>K\<close>: the backpack gets new rows, each under its own key of \<open>K\<close> that was
  neither in the backpack nor in the ledger; the ledger keeps its keys and may get keys of \<open>K\<close>.
\<close>

definition delivered :: "string set \<Rightarrow> tables \<Rightarrow> tables \<Rightarrow> bool" where
  "delivered K d d' \<longleftrightarrow> (\<exists>L rows. d' = d\<lparr>tb_ledger := L, tb_backpack := tb_backpack d @ rows\<rparr> \<and>
     bpm_GrantKey ` set rows \<subseteq> K - ledger_keys d - backpack_keys d \<and> distinct (map bpm_GrantKey rows))"

definition granted :: "string set \<Rightarrow> tables \<Rightarrow> tables \<Rightarrow> bool" where
  "granted K d d' \<longleftrightarrow> delivered K d d' \<and>
     ledger_keys d \<subseteq> ledger_keys d' \<and> ledger_keys d' \<subseteq> ledger_keys d \<union> K \<and>
     (keys_unique rlm_GrantKey (tb_ledger d) \<longrightarrow> keys_unique rlm_GrantKey (tb_ledger d'))"

lemma granted_refl: "granted K d d"
  unfolding granted_def delivered_def
  by (intro conjI exI [of _ "tb_ledger d"] exI [of _ "[]"]) auto

lemma granted_trans:
  assumes "granted K d d1" "granted K' d1 d2"
  shows "granted (K \<union> K') d d2"
proof -
  from assms(1) obtain L rows where
    1: "d1 = d\<lparr>tb_ledger := L, tb_backpack := tb_backpack d @ rows\<rparr>"
    "bpm_GrantKey ` set rows \<subseteq> K - ledger_keys d - backpack_keys d" "distinct (map bpm_GrantKey rows)"
    by (auto simp: granted_def delivered_def)
  from assms(2) obtain L' rows' where
    2: "d2 = d1\<lparr>tb_ledger := L', tb_backpack := tb_backpack d1 @ rows'\<rparr>"
    "bpm_GrantKey ` set rows' \<subseteq> K' - ledger_keys d1 - backpack_keys d1" "distinct (map bpm_GrantKey rows')"
    by (auto simp: granted_def delivered_def)
  have "d2 = d\<lparr>tb_ledger := L', tb_backpack := tb_backpack d @ rows @ rows'\<rparr>" using 1(1) 2(1) by simp
  moreover have "ledger_keys d \<subseteq> ledger_keys d1" using assms(1) by (simp add: granted_def)
  then have "bpm_GrantKey ` set rows' \<subseteq> (K \<union> K') - ledger_keys d - backpack_keys d"
    using 1(1) 2(2) by (simp add: image_Un) blast
  then have "bpm_GrantKey ` set (rows @ rows') \<subseteq> (K \<union> K') - ledger_keys d - backpack_keys d"
    using 1(2) unfolding set_append image_Un by blast
  moreover have "distinct (map bpm_GrantKey (rows @ rows'))"
    using 1 2 by (auto simp: image_Un)
  ultimately have "delivered (K \<union> K') d d2" unfolding delivered_def by blast
  moreover have "A \<subseteq> A1 \<Longrightarrow> A1 \<subseteq> A \<union> K \<Longrightarrow> A1 \<subseteq> A2 \<Longrightarrow> A2 \<subseteq> A1 \<union> K' \<Longrightarrow>
      A \<subseteq> A2 \<and> A2 \<subseteq> A \<union> (K \<union> K')" for A A1 A2 by blast
  note this [of "ledger_keys d" "ledger_keys d1" "ledger_keys d2"]
  ultimately show ?thesis using assms unfolding granted_def by argo
qed

lemma granted_mono: "granted K d d' \<Longrightarrow> K \<subseteq> K' \<Longrightarrow> granted K' d d'"
  using granted_trans [OF _ granted_refl, of K d d' K'] by (simp add: Un_absorb1)

lemma rewarded_granted:
  assumes "rewarded g r d d'"
  shows "granted {rg_GrantKey g} d d'"
proof (cases "rg_GrantKey g \<in> ledger_keys d")
  case True
  with assms show ?thesis by (simp add: rewarded_def granted_refl)
next
  case False
  from assms obtain L B where d': "d' = d\<lparr>tb_ledger := L, tb_backpack := B\<rparr>"
    and B: "B = tb_backpack d \<or> rg_GrantKey g \<notin> backpack_keys d \<and> (\<exists>t. B = tb_backpack d @ [backpack_model (backpack_grant t g)])"
    and L: "map rlm_GrantKey L = map rlm_GrantKey (tb_ledger d) \<or>
        map rlm_GrantKey L = map rlm_GrantKey (tb_ledger d) @ [rg_GrantKey g]"
    by (auto simp: rewarded_def)
  from L have "rlm_GrantKey ` set L = ledger_keys d \<or> rlm_GrantKey ` set L = insert (rg_GrantKey g) (ledger_keys d)"
    by (metis list.set_map Un_insert_right list.simps(15) set_append set_empty2 sup_bot_right list.set(1))
  moreover have "keys_unique rlm_GrantKey (tb_ledger d) \<longrightarrow> keys_unique rlm_GrantKey L"
    using L False by (auto simp: keys_unique_def)
  moreover have "\<exists>rows. B = tb_backpack d @ rows \<and>
     bpm_GrantKey ` set rows \<subseteq> {rg_GrantKey g} - ledger_keys d - backpack_keys d \<and> distinct (map bpm_GrantKey rows)"
    using B
  proof
    assume "B = tb_backpack d"
    then show ?thesis by (intro exI [of _ "[]"]) simp
  next
    assume "rg_GrantKey g \<notin> backpack_keys d \<and> (\<exists>t. B = tb_backpack d @ [backpack_model (backpack_grant t g)])"
    with False show ?thesis by auto
  qed
  ultimately show ?thesis unfolding granted_def delivered_def d' by auto
qed

section \<open>Saving a state\<close>

text \<open>
  The row after an upsert of \<open>s\<close> on a row with the state \<open>s0\<close> that is not deleted. The columns are
  assigned in the order of their names; the ones after \<^verbatim>\<open>status\<close> see the new status.
\<close>

definition saved_state :: "UserGlobalMailState \<Rightarrow> UserGlobalMailState \<Rightarrow> UserGlobalMailState" where
  "saved_state s0 s = s0\<lparr>ums_ServerID := ums_ServerID s, ums_Status := ums_Status s,
     ums_ClaimedLootIndexes := ums_ClaimedLootIndexes s, ums_ClaimTime := ums_ClaimTime s,
     ums_DeleteTime := ums_DeleteTime s,
     ums_Version := (if ums_Status s = UserMailStatusDeleted then ums_Version s0 else ums_Version s),
     ums_UpdateTime := (if ums_Status s = UserMailStatusDeleted then ums_UpdateTime s0 else ums_UpdateTime s)\<rparr>"

lemma find_rows_update:
  assumes "\<And>r. P (if Q r then f r else r) = P r"
  shows "find P (rows_update Q f rs) = map_option (\<lambda>r. if Q r then f r else r) (find P rs)"
  using assms by (induction rs) (auto simp: rows_update_def)

lemma find_snoc: "find P (rs @ [r]) = (case find P rs of None \<Rightarrow> if P r then Some r else None | Some x \<Rightarrow> Some x)"
  by (induction rs) auto

lemma assignments_row:
  "fold (\<lambda>f. f) (state_assignments m) row =
     (if usm_Status row = UserMailStatusDeleted then row
      else row\<lparr>usm_ServerID := usm_ServerID m, usm_Status := usm_Status m,
        usm_ClaimedLootIndexes := usm_ClaimedLootIndexes m, usm_ClaimTime := usm_ClaimTime m,
        usm_DeleteTime := usm_DeleteTime m,
        usm_Version := (if usm_Status m = UserMailStatusDeleted then usm_Version row else usm_Version m),
        usm_UpdateTime := (if usm_Status m = UserMailStatusDeleted then usm_UpdateTime row else usm_UpdateTime m)\<rparr>)"
  by (simp add: state_assignments_def preserveDeleted_def)

lemma db_state_save:
  assumes "list_all in_int64 (ums_ClaimedLootIndexes s)"
  shows "db_state role mid (db_save_state s d) =
    (if role = ums_RoleID s \<and> mid = ums_GlobalMailID s
     then Some (case db_state role mid d of None \<Rightarrow> s
                | Some s0 \<Rightarrow> if ums_Status s0 = UserMailStatusDeleted then s0 else saved_state s0 s)
     else db_state role mid d)"
proof -
  let ?P = "\<lambda>r. usm_RoleID r = role \<and> usm_GlobalMailID r = mid"
  let ?key = "\<lambda>r. (usm_RoleID r, usm_GlobalMailID r)"
  let ?m = "toStateModel s"
  let ?f = "fold (\<lambda>f. f) (state_assignments ?m)"
  have upd: "find ?P (rows_update (\<lambda>x. ?key x = ?key ?m) ?f rs) =
      map_option (\<lambda>r. if ?key r = ?key ?m then ?f r else r) (find ?P rs)" for rs
    by (rule find_rows_update) (simp add: assignments_row)
  have row: "toState (?f r) = (if usm_Status r = UserMailStatusDeleted then toState r else saved_state (toState r) s)" for r
    using unmarshal_marshal_indexes [OF assms]
    by (simp add: assignments_row saved_state_def toState_def toStateModel_def)
  have rows: "tb_state (db_save_state s d) = rows_upsert ?key ?m (state_assignments ?m) (tb_state d)"
    by (simp add: db_save_state_def)
  have none: "find ?P (tb_state d) = None" if "?key ?m \<notin> ?key ` set (tb_state d)" "role = ums_RoleID s" "mid = ums_GlobalMailID s"
    using that by (auto simp: find_None_iff intro: rev_image_eqI)
  have some: "find ?P (tb_state d) \<noteq> None" if "?key ?m \<in> ?key ` set (tb_state d)" "role = ums_RoleID s" "mid = ums_GlobalMailID s"
    using that by (auto simp: find_None_iff)
  show ?thesis
  proof (cases "?key ?m \<in> ?key ` set (tb_state d)")
    case True
    then have "db_state role mid (db_save_state s d) =
        map_option (\<lambda>r. toState (if ?key r = ?key ?m then ?f r else r)) (find ?P (tb_state d))"
      unfolding db_state_def rows rows_upsert_def
      by (simp only: if_True upd option.map_comp comp_def)
    note saved = this
    show ?thesis
    proof (cases "find ?P (tb_state d)")
      case None
      with saved some [OF True] show ?thesis by (auto simp: db_state_def)
    next
      case (Some r)
      then have r: "usm_RoleID r = role" "usm_GlobalMailID r = mid" by (auto simp: find_Some_iff)
      have old: "db_state role mid d = Some (toState r)" unfolding db_state_def Some by simp
      have key: "(?key r = ?key ?m) = (role = ums_RoleID s \<and> mid = ums_GlobalMailID s)"
        using r by simp
      show ?thesis unfolding saved Some old option.map option.case key by (simp add: row)
    qed
  next
    case False
    with none [OF False] show ?thesis
      by (auto simp: db_state_def db_save_state_def rows_upsert_def find_snoc
          toState_toStateModel [OF assms] split: option.splits)
  qed
qed

lemma state_find:
  assumes "tables_wf d" "db_state role mid d = Some s0"
  obtains row where "s0 = toState row" "row \<in> set (tb_state d)" "usm_RoleID row = role" "usm_GlobalMailID row = mid"
    "\<And>r. r \<in> set (tb_state d) \<Longrightarrow> usm_RoleID r = role \<Longrightarrow> usm_GlobalMailID r = mid \<Longrightarrow> r = row"
proof -
  from assms(2) obtain row where f: "find (\<lambda>r. usm_RoleID r = role \<and> usm_GlobalMailID r = mid) (tb_state d) = Some row"
    and "s0 = toState row" by (auto simp: db_state_def)
  moreover from f have row: "row \<in> set (tb_state d)" "usm_RoleID row = role" "usm_GlobalMailID row = mid"
    by (auto simp: find_Some_iff)
  moreover have "r = row" if "r \<in> set (tb_state d)" "usm_RoleID r = role" "usm_GlobalMailID r = mid" for r
    using assms(1) that row by (intro keys_uniqueD [of "\<lambda>r. (usm_RoleID r, usm_GlobalMailID r)"])
      (auto simp: tables_wf_def)
  ultimately show thesis using that by blast
qed

text \<open>A row that is deleted is not changed by a save.\<close>

lemma save_deleted:
  assumes "tables_wf d" "db_state (ums_RoleID s) (ums_GlobalMailID s) d = Some s0"
    "ums_Status s0 = UserMailStatusDeleted"
  shows "db_save_state s d = d"
proof -
  let ?key = "\<lambda>r. (usm_RoleID r, usm_GlobalMailID r)"
  from state_find [OF assms(1,2)] obtain row where row: "s0 = toState row" "row \<in> set (tb_state d)"
    "usm_RoleID row = ums_RoleID s" "usm_GlobalMailID row = ums_GlobalMailID s"
    "\<And>r. r \<in> set (tb_state d) \<Longrightarrow> usm_RoleID r = ums_RoleID s \<Longrightarrow> usm_GlobalMailID r = ums_GlobalMailID s \<Longrightarrow> r = row"
    by metis
  have deleted: "usm_Status row = UserMailStatusDeleted" using assms(3) row(1) by simp
  have "rows_update (\<lambda>x. ?key x = ?key (toStateModel s)) (fold (\<lambda>f. f) (state_assignments (toStateModel s))) (tb_state d)
      = tb_state d"
    unfolding rows_update_def using row(5) deleted by (intro map_idI) (auto simp: assignments_row)
  moreover have "?key (toStateModel s) \<in> ?key ` set (tb_state d)"
    using row(2-4) by (intro rev_image_eqI [of row]) auto
  ultimately show ?thesis by (simp add: db_save_state_def rows_upsert_def)
qed

lemma wrap64_Suc_neq_0: "0 \<le> v \<Longrightarrow> v < 2 ^ 63 - 1 \<Longrightarrow> wrap64 (v + 1) = v + 1"
  by (rule wrap64_id) (simp add: in_int64_def)

lemma save_wf:
  assumes "tables_wf d"
  shows "tables_wf (db_save_state s d)"
proof -
  let ?key = "\<lambda>r. (usm_RoleID r, usm_GlobalMailID r)"
  have "keys_unique ?key (rows_upsert ?key (toStateModel s) (state_assignments (toStateModel s)) (tb_state d))"
    using assms unfolding tables_wf_def rows_upsert_def
    by (auto intro!: keys_unique_update simp: assignments_row) (auto simp: keys_unique_def)
  with assms show ?thesis by (simp add: tables_wf_def db_save_state_def)
qed

lemma granted_wf:
  assumes "granted K d d'" "tables_wf d"
  shows "tables_wf d'" "tb_state d' = tb_state d"
proof -
  from assms(1) obtain L rows where d': "d' = d\<lparr>tb_ledger := L, tb_backpack := tb_backpack d @ rows\<rparr>"
    "bpm_GrantKey ` set rows \<subseteq> K - ledger_keys d - backpack_keys d" "distinct (map bpm_GrantKey rows)"
    by (auto simp: granted_def delivered_def)
  have "X \<subseteq> K - Y - Z \<Longrightarrow> Z \<inter> X = {}" for X Y Z :: "string set" by blast
  from this [OF d'(2)] have "keys_unique bpm_GrantKey (tb_backpack d')"
    using assms(2) d'(1,3) by (simp add: tables_wf_def keys_unique_def)
  with assms d' show "tables_wf d'" "tb_state d' = tb_state d"
    by (auto simp: tables_wf_def granted_def)
qed

section \<open>The handlers over their repositories\<close>

text \<open>
  The service over repositories that keep their contracts; clock and cache do not touch the
  tables. \<open>s\<close> delivers its rewards through \<open>RW\<close>.
\<close>

locale player = mail_repository "pms_repo s" db + reward_service RW db
  for s :: "'w PlayerMailService" and RW :: "'w RewardRepository" and db +
  assumes rewards: "pms_rewards s = Some RW"
    and now_keeps: "keeps db (pms_now s)"
    and cache_now_keeps: "keeps db (lc_now (pms_cache s))"
    and refresh_keeps: "RefreshCache s oth (w, sn) = Some (ures, w', sn') \<Longrightarrow> db w' = db w"
begin

lemma visible_keeps: "VisibleMails (pms_cache s) profile (w, sn) = (mails, w') \<Longrightarrow> db w' = db w"
  using cache_now_keeps by (auto simp: VisibleMails_def dest: keepsD split: prod.splits)

text \<open>Every handler: an error before the change leaves the tables; else the change runs on the stored state.\<close>

lemma update_run:
  assumes wf: "tables_wf (db w)" and run: "update_loaded s profile mid f sn w = (res, w')"
  obtains (refused) "isl res" "db w' = db w"
  | (change) mails w1 mail now st w2 sres w3 where
      "VisibleMails (pms_cache s) profile (w, sn) = (mails, w1)" "mail \<in> set mails" "mail_ID mail = mid"
      "db w2 = db w"
      "st = (case db_state (prof_RoleID profile) mid (db w) of None \<Rightarrow> new_state profile mid now | Some st \<Rightarrow> st)"
      "f (next_version st) mail now w2 = (sres, w3)"
      "case sres of Inl e \<Rightarrow> res = Inl e \<and> w' = w3
       | Inr st' \<Rightarrow> \<exists>ures. SaveUserState (pms_repo s) (set_update_time now st') w3 = (ures, w') \<and>
           res = map_sum id (\<lambda>_. set_update_time now st') ures"
proof -
  obtain mails w1 where v: "VisibleMails (pms_cache s) profile (w, sn) = (mails, w1)" by fastforce
  have db1: "db w1 = db w" using visible_keeps [OF v] .
  show thesis
  proof (cases "find (\<lambda>mail. mail_ID mail = mid) mails")
    case None
    with run v have "isl res" "w' = w1" by (auto simp: update_loaded_def visibleMail_def)
    with db1 show thesis by (intro refused) auto
  next
    case (Some mail)
    then have mail: "mail \<in> set mails" "mail_ID mail = mid" by (auto simp: find_Some_iff)
    obtain gres w1' where g: "GetUserStates (pms_repo s) (prof_RoleID profile) [mid] w1 = (gres, w1')" by fastforce
    have db1': "db w1' = db w" using get_states_frame [OF g] db1 by simp
    show thesis
    proof (cases gres)
      case (Inl e)
      with run v Some g have "res = Inl e" "w' = w1'" by (auto simp: update_loaded_def visibleMail_def)
      with db1' show thesis by (intro refused) auto
    next
      case (Inr states)
      have states: "states mid = db_state (prof_RoleID profile) mid (db w)"
        using get_states [OF _ g [unfolded Inr]] wf db1 by simp
      obtain now w2 where now: "pms_now s w1' = (now, w2)" by fastforce
      have db2: "db w2 = db w" using keepsD [OF now_keeps now] db1' by simp
      define st where "st = (case states mid of None \<Rightarrow> new_state profile mid now | Some st \<Rightarrow> st)"
      obtain sres w3 where f: "f (next_version st) mail now w2 = (sres, w3)" by fastforce
      have "case sres of Inl e \<Rightarrow> res = Inl e \<and> w' = w3
       | Inr st' \<Rightarrow> \<exists>ures. SaveUserState (pms_repo s) (set_update_time now st') w3 = (ures, w') \<and>
           res = map_sum id (\<lambda>_. set_update_time now st') ures"
        using run v Some g Inr now f
        by (auto simp: update_loaded_def visibleMail_def st_def [symmetric] io_bind_def Let_def
            split: sum.splits prod.splits)
      with v mail db2 f show thesis by (intro change [of mails w1 mail w2 st now sres w3]) (auto simp: st_def states)
    qed
  qed
qed

end

context player begin

lemma claim_one:
  assumes "claim_loot s profile mid mail now i w = (r, w')"
  shows "granted {grant_key (prof_RoleID profile) mid i} (db w) (db w')"
    "r = Inr u \<Longrightarrow> \<not> isl (lootAtIndex (mail_Loots mail) i) \<and>
       grant_key (prof_RoleID profile) mid i \<in> ledger_keys (db w') \<and>
       (grant_key (prof_RoleID profile) mid i \<in> ledger_keys (db w) \<or>
        grant_key (prof_RoleID profile) mid i \<in> backpack_keys (db w'))"
proof -
  let ?k = "grant_key (prof_RoleID profile) mid i"
  have "granted {?k} (db w) (db w') \<and> (r = Inr u \<longrightarrow> \<not> isl (lootAtIndex (mail_Loots mail) i) \<and>
       ?k \<in> ledger_keys (db w') \<and> (?k \<in> ledger_keys (db w) \<or> ?k \<in> backpack_keys (db w')))"
  proof (cases "lootAtIndex (mail_Loots mail) i")
    case (Inl e)
    with assms show ?thesis by (auto simp: claim_loot_def granted_refl)
  next
    case (Inr loot)
    let ?g = "reward_grant profile mid i loot now"
    obtain gr w1 where g: "GrantGlobalMailReward RW ?g w = (gr, w1)" by fastforce
    have key: "rg_GrantKey ?g = ?k" by (simp add: reward_grant_def)
    have res: "w' = w1" "r = Inr u \<Longrightarrow> \<exists>b. gr = Inr b"
      using assms Inr g rewards by (auto simp: claim_loot_def grantReward_def io_bind_def split: sum.splits)
    note law = grant_reward [OF g]
    have "?k \<in> ledger_keys (db w') \<and> (?k \<in> ledger_keys (db w) \<or> ?k \<in> backpack_keys (db w'))" if "gr = Inr b" for b
      using law that res(1) key unfolding rewarded_def by (cases b) auto
    then show ?thesis using rewarded_granted [OF law] res key Inr by auto
  qed
  then show "granted {?k} (db w) (db w')"
    "r = Inr u \<Longrightarrow> \<not> isl (lootAtIndex (mail_Loots mail) i) \<and>
       ?k \<in> ledger_keys (db w') \<and> (?k \<in> ledger_keys (db w) \<or> ?k \<in> backpack_keys (db w'))" by blast+
qed

lemma claim_all:
  assumes "io_each (claim_loot s profile mid mail now) is w = (r, w')"
  shows "granted (grant_key (prof_RoleID profile) mid ` set is) (db w) (db w') \<and>
    (\<forall>u i. r = Inr u \<longrightarrow> i \<in> set is \<longrightarrow> \<not> isl (lootAtIndex (mail_Loots mail) i) \<and>
       (grant_key (prof_RoleID profile) mid i \<in> ledger_keys (db w) \<or>
        grant_key (prof_RoleID profile) mid i \<in> backpack_keys (db w')))"
  using assms
proof (induction "is" arbitrary: w)
  case (Cons j js)
  let ?k = "grant_key (prof_RoleID profile) mid"
  obtain r1 w1 where one: "claim_loot s profile mid mail now j w = (r1, w1)" by fastforce
  note first = claim_one [OF one]
  show ?case
  proof (cases r1)
    case (Inl e)
    with Cons.prems one have "w' = w1" "r = Inl e" by auto
    with first(1) show ?thesis by (auto intro: granted_mono)
  next
    case (Inr u1)
    with Cons.prems one have rest: "io_each (claim_loot s profile mid mail now) js w1 = (r, w')" by simp
    note all = Cons.IH [OF rest] and head = first(2) [OF Inr]
    have grows: "backpack_keys (db w1) \<subseteq> backpack_keys (db w')"
      using all by (auto simp: granted_def delivered_def)
    have led: "ledger_keys (db w1) \<subseteq> ledger_keys (db w) \<union> {?k j}" using first(1) by (simp add: granted_def)
    have "\<not> isl (lootAtIndex (mail_Loots mail) i) \<and> (?k i \<in> ledger_keys (db w) \<or> ?k i \<in> backpack_keys (db w'))"
      if u: "r = Inr u" and i: "i \<in> set (j # js)" for u i
    proof (cases "i = j")
      case True
      with head grows show ?thesis by blast
    next
      case False
      with i u all have tail: "\<not> isl (lootAtIndex (mail_Loots mail) i)"
        "?k i \<in> ledger_keys (db w1) \<or> ?k i \<in> backpack_keys (db w')" by auto
      from tail(2) led have "?k i \<in> ledger_keys (db w) \<or> ?k i = ?k j \<or> ?k i \<in> backpack_keys (db w')" by blast
      with tail(1) head grows show ?thesis by (metis subsetD)
    qed
    moreover have "granted (?k ` set (j # js)) (db w) (db w')"
      using granted_trans [OF first(1)] all by simp
    ultimately show ?thesis by blast
  qed
qed (auto simp: granted_refl)

end

text \<open>The stored version of a state can be counted up.\<close>

definition countable_state :: "UserGlobalMailState option \<Rightarrow> bool" where
  "countable_state st \<longleftrightarrow> (\<forall>x. st = Some x \<longrightarrow> 0 \<le> ums_Version x \<and> ums_Version x < 2 ^ 63 - 1)"

lemma set_update_time_sel [simp]:
  "ums_RoleID (set_update_time t x) = ums_RoleID x" "ums_GlobalMailID (set_update_time t x) = ums_GlobalMailID x"
  "ums_Version (set_update_time t x) = ums_Version x" "ums_Status (set_update_time t x) = ums_Status x"
  "ums_ClaimedLootIndexes (set_update_time t x) = ums_ClaimedLootIndexes x"
  "ums_DeleteTime (set_update_time t x) = ums_DeleteTime x" "ums_ClaimTime (set_update_time t x) = ums_ClaimTime x"
  by (simp_all add: set_update_time_def)

lemma next_version_sel [simp]:
  "ums_RoleID (next_version x) = ums_RoleID x" "ums_GlobalMailID (next_version x) = ums_GlobalMailID x"
  "ums_Status (next_version x) = ums_Status x" "ums_ClaimedLootIndexes (next_version x) = ums_ClaimedLootIndexes x"
  "ums_DeleteTime (next_version x) = ums_DeleteTime x" "ums_ClaimTime (next_version x) = ums_ClaimTime x"
  by (simp_all add: next_version_def)

text \<open>A change that leaves the keys and the version of a state.\<close>

definition keeps_ids :: "'w state_change \<Rightarrow> bool" where
  "keeps_ids f \<longleftrightarrow> (\<forall>st mail now w st' w'. f st mail now w = (Inr st', w') \<longrightarrow>
     ums_RoleID st' = ums_RoleID st \<and> ums_GlobalMailID st' = ums_GlobalMailID st \<and> ums_Version st' = ums_Version st)"

lemma keeps_idsD:
  "keeps_ids f \<Longrightarrow> f st mail now w = (Inr st', w') \<Longrightarrow>
     ums_RoleID st' = ums_RoleID st \<and> ums_GlobalMailID st' = ums_GlobalMailID st \<and> ums_Version st' = ums_Version st"
  unfolding keeps_ids_def by blast

text \<open>The mails of a snapshot that a player may see at some time.\<close>

definition may_see :: "CacheSnapshot \<Rightarrow> UserProfile \<Rightarrow> GlobalMail \<Rightarrow> bool" where
  "may_see sn profile mail \<longleftrightarrow> (\<exists>t i. visible_at sn profile t i = Some mail)"

lemma visible_may_see:
  "VisibleMails c profile (w, sn) = (mails, w1) \<Longrightarrow> mail \<in> set mails \<Longrightarrow> may_see sn profile mail"
  by (auto simp: VisibleMails_def may_see_def map_filter_def split: prod.splits) blast

text \<open>The state that a handler starts from.\<close>

definition stored_or_new :: "UserProfile \<Rightarrow> int \<Rightarrow> go_time \<Rightarrow> tables \<Rightarrow> UserGlobalMailState" where
  "stored_or_new profile mid now d =
     (case db_state (prof_RoleID profile) mid d of None \<Rightarrow> new_state profile mid now | Some st \<Rightarrow> st)"

lemma stored_or_new_sel:
  assumes "tables_wf d"
  shows "ums_RoleID (stored_or_new profile mid now d) = prof_RoleID profile"
    "ums_GlobalMailID (stored_or_new profile mid now d) = mid"
    "countable_state (db_state (prof_RoleID profile) mid d) \<Longrightarrow>
       ums_Version (next_version (stored_or_new profile mid now d)) = ums_Version (stored_or_new profile mid now d) + 1 \<and>
       ums_Version (next_version (stored_or_new profile mid now d)) \<noteq> 0"
proof -
  have ids: "ums_RoleID st = prof_RoleID profile \<and> ums_GlobalMailID st = mid"
    if "db_state (prof_RoleID profile) mid d = Some st" for st
    using state_find [OF assms that] by (metis toState_def UserGlobalMailState.select_convs(1,3))
  show "ums_RoleID (stored_or_new profile mid now d) = prof_RoleID profile"
    "ums_GlobalMailID (stored_or_new profile mid now d) = mid"
    using ids by (auto simp: stored_or_new_def new_state_def split: option.splits)
  assume "countable_state (db_state (prof_RoleID profile) mid d)"
  then have "0 \<le> ums_Version (stored_or_new profile mid now d)" "ums_Version (stored_or_new profile mid now d) < 2 ^ 63 - 1"
    by (auto simp: countable_state_def stored_or_new_def new_state_def split: option.splits)
  then show "ums_Version (next_version (stored_or_new profile mid now d)) = ums_Version (stored_or_new profile mid now d) + 1 \<and>
       ums_Version (next_version (stored_or_new profile mid now d)) \<noteq> 0"
    by (simp add: next_version_def wrap64_Suc_neq_0)
qed

context player begin

lemma after_refresh_run:
  assumes "after_refresh s oth rest (w, sn) = Some (res, w', sn')"
  obtains (failed) "isl res" "db w' = db w"
  | (rest) w1 where "db w1 = db w" "rest sn' w1 = (res, w')"
proof (cases "RefreshCache s oth (w, sn)")
  case (Some r)
  then obtain ures w1 sn1 where r: "RefreshCache s oth (w, sn) = Some (ures, w1, sn1)" by (cases r) auto
  have db1: "db w1 = db w" using refresh_keeps [OF r] .
  show thesis
    using assms r db1 failed that(2) by (cases ures) (auto simp: after_refresh_def split: prod.splits)
qed (use assms in \<open>simp add: after_refresh_def\<close>)

text \<open>
  A handler whose change keeps the ids and the version: the tables are as the change leaves them,
  or the state is saved on top.
\<close>

lemma handler_outcome:
  assumes wf: "tables_wf (db w)" and cnt: "countable_state (db_state (prof_RoleID profile) mid (db w))"
    and change: "keeps_ids f"
    and run: "updateGlobalMailState s profile mid f oth (w, sn) = Some (res, w', sn')"
  obtains (refused) "isl res" "db w' = db w"
  | (failed) mail now w2 w3 e where "db w2 = db w" "isl res"
      "f (next_version (stored_or_new profile mid now (db w))) mail now w2 = (Inl e, w3)" "db w' = db w3"
  | (changed) mail now w2 w3 st' where "db w2 = db w" "mail_ID mail = mid"
      "f (next_version (stored_or_new profile mid now (db w))) mail now w2 = (Inr st', w3)"
      "commits (\<lambda>d. Some (db_save_state (set_update_time now st') d)) (db w3) res (db w')"
      "\<forall>x. res = Inr x \<longrightarrow> x = set_update_time now st'" "may_see sn' profile mail"
proof -
  from run have "after_refresh s oth (update_loaded s profile mid f) (w, sn) = Some (res, w', sn')"
    by (simp add: updateGlobalMailState_def)
  then show thesis
  proof (cases rule: after_refresh_run)
    case failed
    then show thesis by (intro refused)
  next
    case (rest w1)
    from wf rest(1) have wf1: "tables_wf (db w1)" by simp
    from wf1 rest(2) show thesis
    proof (cases rule: update_run)
      case refused
      with rest show thesis by (intro that(1)) simp_all
    next
      case (change mails wv mail now st w2 sres w3)
      have st: "st = stored_or_new profile mid now (db w)"
        using change(5) rest(1) by (simp add: stored_or_new_def)
      show thesis
      proof (cases sres)
        case (Inl e)
        with change rest st show thesis by (intro that(2) [of w2 now mail e w3]) auto
      next
        case (Inr st')
        with change obtain ures where save: "SaveUserState (pms_repo s) (set_update_time now st') w3 = (ures, w')"
          and res: "res = map_sum id (\<lambda>_. set_update_time now st') ures" by auto
        have "ums_Version (set_update_time now st') \<noteq> 0"
          using keeps_idsD [OF assms(3) change(6) [unfolded Inr]] stored_or_new_sel(3) [OF wf cnt, of now] st by simp
        note commit = save_state [OF this save]
        have "commits (\<lambda>d. Some (db_save_state (set_update_time now st') d)) (db w3) res (db w')"
          using commit res by (auto simp: commits_def split: sum.splits)
        with change rest st Inr res show thesis
          by (intro that(3) [of w2 mail now st' w3])
            (auto split: sum.splits simp: map_sum_def intro: visible_may_see)
      qed
    qed
  qed
qed

end

lemma change_ids:
  "keeps_ids read_change" "keeps_ids delete_change" "keeps_ids (claim_change s profile mid is)"
  unfolding keeps_ids_def
  by (auto simp: read_change_def delete_change_def deleted_state_def claim_change_def claimed_state_def
      split: if_splits elim!: io_bind_InrE)

lemma change_deleted:
  assumes "ums_Status st = UserMailStatusDeleted"
  shows "\<exists>st'. read_change st mail now w = (Inr st', w)" "\<exists>st'. delete_change st mail now w = (Inr st', w)"
    "\<exists>st'. claim_change s profile mid is st mail now w = (Inr st', w)"
  using assms by (auto simp: read_change_def delete_change_def claim_change_def)

text \<open>The grants of a claim, whatever its outcome.\<close>

definition claim_keys :: "UserProfile \<Rightarrow> int \<Rightarrow> int list \<Rightarrow> string set" where
  "claim_keys profile mid is = grant_key (prof_RoleID profile) mid ` set is"

context player begin

lemma handler_on_deleted:
  assumes wf: "tables_wf (db w)"
    and st: "db_state (prof_RoleID profile) mid (db w) = Some st0" "ums_Status st0 = UserMailStatusDeleted"
    and cnt: "countable_state (Some st0)"
    and ids: "keeps_ids f"
    and deleted: "\<forall>st mail now w2. ums_Status st = UserMailStatusDeleted \<longrightarrow> (\<exists>st'. f st mail now w2 = (Inr st', w2))"
    and run: "updateGlobalMailState s profile mid f oth (w, sn) = Some (res, w', sn')"
  shows "db w' = db w"
proof -
  have start: "stored_or_new profile mid now (db w) = st0" for now by (simp add: stored_or_new_def st(1))
  have cnt': "countable_state (db_state (prof_RoleID profile) mid (db w))" using cnt st(1) by simp
  show ?thesis
    using wf cnt' ids run
  proof (cases rule: handler_outcome)
    case (failed mail now w2 w3 e)
    with deleted [rule_format, of "next_version st0" mail now w2] st(2) show ?thesis by (simp add: start)
  next
    case (changed mail now w2 w3 st')
    have w3: "w3 = w2"
      using deleted [rule_format, of "next_version st0" mail now w2] st(2) changed(3) by (auto simp: start)
    have "db_save_state (set_update_time now st') (db w) = db w"
      using keeps_idsD [OF ids changed(3)] stored_or_new_sel(1,2) [OF wf, of profile mid now] st
      by (intro save_deleted [OF wf]) (simp_all add: start)
    with changed(1,4) w3 show ?thesis by (auto simp: commits_total split: sum.splits)
  qed
qed

lemma claim_outcome:
  assumes wf: "tables_wf (db w)" and cnt: "countable_state (db_state (prof_RoleID profile) mid (db w))"
    and live: "\<forall>st0. db_state (prof_RoleID profile) mid (db w) = Some st0 \<longrightarrow> ums_Status st0 \<noteq> UserMailStatusDeleted"
    and run: "ClaimGlobalMail s profile mid is oth (w, sn) = Some (res, w', sn')"
  shows "\<exists>d1 now. granted (claim_keys profile mid is) (db w) d1 \<and>
    (let st = set_update_time now (claimed_state is now (next_version (stored_or_new profile mid now (db w))))
     in (db w' = d1 \<and> isl res \<or> db w' = db_save_state st d1) \<and>
        (\<forall>x. res = Inr x \<longrightarrow> x = st \<and> (\<exists>mail. may_see sn' profile mail \<and> mail_ID mail = mid \<and>
           (\<forall>i\<in>set (newLootIndexes (ums_ClaimedLootIndexes (stored_or_new profile mid now (db w))) is).
             \<not> isl (lootAtIndex (mail_Loots mail) i) \<and>
             (grant_key (prof_RoleID profile) mid i \<in> ledger_keys (db w) \<union> backpack_keys d1)))))"
proof -
  let ?st = "\<lambda>now. next_version (stored_or_new profile mid now (db w))"
  let ?new = "\<lambda>now. newLootIndexes (ums_ClaimedLootIndexes (stored_or_new profile mid now (db w))) is"
  have alive: "ums_Status (?st now) \<noteq> UserMailStatusDeleted" for now
    using live by (auto simp: stored_or_new_def new_state_def UserMailStatusUnread_def UserMailStatusDeleted_def
        split: option.splits)
  have keys: "granted (grant_key (prof_RoleID profile) mid ` set (?new now)) d d1 \<Longrightarrow>
      granted (claim_keys profile mid is) d d1" for now d d1
    by (erule granted_mono) (auto simp: claim_keys_def set_newLootIndexes)
  from run have "updateGlobalMailState s profile mid (claim_change s profile mid is) oth (w, sn) = Some (res, w', sn')"
    by (simp add: ClaimGlobalMail_def)
  with wf cnt change_ids(3) show ?thesis
  proof (cases rule: handler_outcome)
    case refused
    then show ?thesis by (intro exI [of _ "db w"]) (auto simp: granted_refl Let_def isl_def)
  next
    case (failed mail now w2 w3 e)
    then have "io_each (claim_loot s profile mid mail now) (?new now) w2 = (Inl e, w3)"
      using alive by (auto simp: claim_change_def elim!: io_bind_InlE)
    from claim_all [OF this] failed keys [of now] show ?thesis
      by (intro exI [of _ "db w3"]) (auto simp: isl_def)
  next
    case (changed mail now w2 w3 st')
    then obtain u where each: "io_each (claim_loot s profile mid mail now) (?new now) w2 = (Inr u, w3)"
      and st': "st' = claimed_state is now (?st now)"
      using alive by (auto simp: claim_change_def elim!: io_bind_InrE)
    note all = claim_all [OF each]
    show ?thesis
    proof (intro exI [of _ "db w3"] exI [of _ now], unfold Let_def, intro conjI)
      show "granted (claim_keys profile mid is) (db w) (db w3)" using all keys [of now] changed(1) by simp
      show "db w' = db w3 \<and> isl res \<or>
          db w' = db_save_state (set_update_time now (claimed_state is now (?st now))) (db w3)"
        using changed(4) st' by (auto simp: commits_total split: sum.splits)
      show "\<forall>x. res = Inr x \<longrightarrow> x = set_update_time now (claimed_state is now (?st now)) \<and> (\<exists>mail. may_see sn' profile mail \<and> mail_ID mail = mid \<and>
           (\<forall>i\<in>set (?new now). \<not> isl (lootAtIndex (mail_Loots mail) i) \<and>
             (grant_key (prof_RoleID profile) mid i \<in> ledger_keys (db w) \<union> backpack_keys (db w3))))"
        using changed(1,2,5,6) st' all by (intro allI impI conjI exI [of _ mail]) auto
    qed
  qed
qed

end

lemma map_filter_same:
  "(\<And>x. x \<in> set xs \<Longrightarrow> f x = g x) \<Longrightarrow> List.map_filter f xs = List.map_filter g xs"
  by (induction xs) (auto simp: map_filter_simps split: option.splits)

section \<open>The player server\<close>

text \<open>The service as the player server builds it (\<^verbatim>\<open>cmd/playersrv/main.go\<close>).\<close>

definition player_cache ::
  "'w gorm_db \<Rightarrow> 'w redis_client \<Rightarrow> string \<Rightarrow> 'w clock \<Rightarrow> 'w ConsistencyMetrics option \<Rightarrow>
   (string \<Rightarrow> 'w \<Rightarrow> ((error + GlobalMail list) \<times> 'w) option) \<Rightarrow> duration \<Rightarrow> duration \<Rightarrow> 'w LocalCache" where
  "player_cache D C prefix clock metrics join lockTTL waitInterval =
     (let r = \<lparr>rr_client = C, rr_prefix = prefix\<rparr>
      in SetMetrics metrics (SetRebuildLockOptions lockTTL waitInterval
           (fst (NewLocalCache (mysql_MailRepository D) (redis_CacheRepository r)
              (Some (redis_CacheRebuildLocker r)) clock join))))"

definition player_service ::
  "'w gorm_db \<Rightarrow> 'w redis_client \<Rightarrow> string \<Rightarrow> 'w clock \<Rightarrow> 'w ConsistencyMetrics option \<Rightarrow>
   (string \<Rightarrow> 'w \<Rightarrow> ((error + GlobalMail list) \<times> 'w) option) \<Rightarrow> duration \<Rightarrow> duration \<Rightarrow> 'w PlayerMailService" where
  "player_service D C prefix clock metrics join lockTTL waitInterval =
     SetRewardRepository (Some (backpack_RewardRepository (NewBackpackRewardService
         (Some (mysql_RewardLedger D)) (Some (mysql_Backpack D)) clock)))
       (NewPlayerMailService (mysql_MailRepository D)
         (Some \<lparr>GrantGlobalMailReward = mysql_GrantGlobalMailReward D\<rparr>)
         (player_cache D C prefix clock metrics join lockTTL waitInterval) clock)"

lemma player_cache_sel [simp]:
  "lc_cache (player_cache D C p clock metrics join l i) = redis_CacheRepository \<lparr>rr_client = C, rr_prefix = p\<rparr>"
  "lc_repo (player_cache D C p clock metrics join l i) = mysql_MailRepository D"
  "lc_locker (player_cache D C p clock metrics join l i) =
     Some (redis_CacheRebuildLocker \<lparr>rr_client = C, rr_prefix = p\<rparr>)"
  "lc_now (player_cache D C p clock metrics join l i) = clock"
  "lc_metrics (player_cache D C p clock metrics join l i) = metrics"
  "lc_join (player_cache D C p clock metrics join l i) = join"
  by (simp_all add: player_cache_def SetMetrics_def SetRebuildLockOptions_def NewLocalCache_def Let_def)

lemma player_service_sel [simp]:
  "pms_repo (player_service D C p clock metrics join l i) = mysql_MailRepository D"
  "pms_cache (player_service D C p clock metrics join l i) = player_cache D C p clock metrics join l i"
  "pms_now (player_service D C p clock metrics join l i) = clock"
  "pms_rewards (player_service D C p clock metrics join l i) = Some (backpack_RewardRepository
     (NewBackpackRewardService (Some (mysql_RewardLedger D)) (Some (mysql_Backpack D)) clock))"
  by (simp_all add: player_service_def SetRewardRepository_def NewPlayerMailService_def)

locale player_drivers = gorm D db for D :: "'w gorm_db" and db +
  fixes C :: "'w redis_client" and p :: string and clock :: "'w clock"
    and metrics :: "'w ConsistencyMetrics option"
    and join :: "string \<Rightarrow> 'w \<Rightarrow> ((error + GlobalMail list) \<times> 'w) option"
  assumes redis_alone: "redis_keeps db C"
    and clock_alone: "keeps db clock"
    and metrics_alone: "metrics_keep db metrics"
    and join_alone: "join key w = Some (jres, w') \<Longrightarrow> db w' = db w"
begin

lemma cache_alone: "cache_keeps db (player_cache D C p clock metrics join l i)"
proof -
  have C: "redis_keeps db (rr_client \<lparr>rr_client = C, rr_prefix = p\<rparr>)" by (simp add: redis_alone)
  have repo: "keeps db (GetPublishedGlobalMails (mysql_MailRepository D) t)" for t
    using mysql_mail.get_published_frame by (rule keepsI)
  show ?thesis
    unfolding cache_keeps_def
    by (auto simp: keeps_redis_relay [OF C] repo clock_alone metrics_alone redis_CacheRebuildLocker_def
        dest: join_alone keeps_redis_lock [OF C])
qed

end

sublocale player_drivers \<subseteq> delivery: backpack_rewards "mysql_RewardLedger D" "mysql_Backpack D" db clock
  by unfold_locales (rule clock_alone)

sublocale player_drivers \<subseteq> server: player "player_service D C p clock metrics join l i"
  "backpack_RewardRepository (NewBackpackRewardService (Some (mysql_RewardLedger D)) (Some (mysql_Backpack D)) clock)" db
  for l i
proof -
  let ?s = "player_service D C p clock metrics join l i"
  have "mail_repository (pms_repo ?s) db" using mysql_mail.mail_repository_axioms by simp
  then show "player ?s (backpack_RewardRepository (NewBackpackRewardService
      (Some (mysql_RewardLedger D)) (Some (mysql_Backpack D)) clock)) db"
    by (intro player.intro player_axioms.intro delivery.service.reward_service_axioms)
      (auto simp: clock_alone RefreshCache_def dest: RefreshIfStale_keeps [OF cache_alone])
qed

context player begin

lemma list_outcome:
  assumes wf: "tables_wf (db w)" and run: "ListGlobalMails s profile oth (w, sn) = Some (Inr items, w', sn')"
  shows "db w' = db w \<and> (\<exists>w1 mails w2. VisibleMails (pms_cache s) profile (w1, sn') = (mails, w2) \<and>
    mset items = mset (List.map_filter (mail_item (\<lambda>i. db_state (prof_RoleID profile) i (db w))) mails)) \<and>
    sorted_wrt (\<lambda>a b. mail_ID (mi_Mail b) \<le> mail_ID (mi_Mail a)) items"
proof -
  from run have "after_refresh s oth (list_loaded s profile) (w, sn) = Some (Inr items, w', sn')"
    by (simp add: ListGlobalMails_def)
  then obtain w1 where w1: "db w1 = db w" "list_loaded s profile sn' w1 = (Inr items, w')"
    by (cases rule: after_refresh_run) auto
  obtain mails w2 where v: "VisibleMails (pms_cache s) profile (w1, sn') = (mails, w2)" by fastforce
  have db2: "db w2 = db w" using visible_keeps [OF v] w1(1) by simp
  from w1(2) v obtain states where
    g: "GetUserStates (pms_repo s) (prof_RoleID profile) (map mail_ID mails) w2 = (Inr states, w')"
    and items: "items = sort_items (List.map_filter (mail_item states) mails)"
    by (auto simp: list_loaded_def elim!: io_bind_InrE)
  have "states i = db_state (prof_RoleID profile) i (db w)" if "i \<in> mail_ID ` set mails" for i
    using get_states [OF _ g] wf db2 that by simp
  then have "List.map_filter (mail_item states) mails =
      List.map_filter (mail_item (\<lambda>i. db_state (prof_RoleID profile) i (db w))) mails"
    by (intro map_filter_same) (simp add: mail_item_def)
  moreover have "sorted_wrt (\<lambda>a b. mail_ID (mi_Mail b) \<le> mail_ID (mi_Mail a)) (sort_items xs)" for xs
    using sorted_sort_key [of "\<lambda>i. - mail_ID (mi_Mail i)" xs]
    by (simp add: sort_items_def sorted_wrt_map)
  ultimately show ?thesis
    using v get_states_frame [OF g] db2 items by (auto simp: sort_items_def)
qed

lemma delete_outcome:
  assumes wf: "tables_wf (db w)" and cnt: "countable_state (db_state (prof_RoleID profile) mid (db w))"
    and run: "DeleteGlobalMail s profile mid oth (w, sn) = Some (Inr st, w', sn')"
  obtains mail now where "may_see sn' profile mail" "mail_ID mail = mid"
    "st = set_update_time now (deleted_state now (next_version (stored_or_new profile mid now (db w))))"
    "db w' = db_save_state st (db w)"
proof -
  have upd: "updateGlobalMailState s profile mid delete_change oth (w, sn) = Some (Inr st, w', sn')"
    using run by (simp add: DeleteGlobalMail_def)
  show thesis
    using wf cnt change_ids(2) upd
  proof (cases rule: handler_outcome)
    case (changed mail now w2 w3 st')
    then have "w3 = w2" "st' = deleted_state now (next_version (stored_or_new profile mid now (db w)))"
      by (auto simp: delete_change_def)
    with changed show thesis by (intro that [of mail now]) auto
  qed auto
qed

end

context player_drivers begin

lemmas deleted_stays = server.handler_on_deleted
  and claim_result = server.claim_outcome
  and list_result = server.list_outcome
  and delete_result = server.delete_outcome

end

lemma mem_redis_keeps_db: "redis_keeps mw_db mem_redis"
  by (simp add: redis_keeps_def mem_redis_def)
    (auto simp: keeps_def mem_call_def mem_clock_def
      split: list.splits if_splits option.splits sum.splits prod.splits rvalue.splits)

interpretation mem_player_server: player_drivers mem_gorm mw_db mem_redis "''p:''" mem_clock None "\<lambda>_ _. None"
  by unfold_locales (auto simp: mem_redis_keeps_db keeps_def mem_clock_def)

section \<open>Properties of the player server\<close>

lemma grant_key_inject [simp]:
  "grant_key r m i = grant_key r' m' i' \<longleftrightarrow> r = r' \<and> m = m' \<and> i = i'"
  using key3_inject by (simp add: grant_key_def)

definition claimed_before :: "int \<Rightarrow> int \<Rightarrow> tables \<Rightarrow> int set" where
  "claimed_before role mid d = (case db_state role mid d of None \<Rightarrow> {} | Some st \<Rightarrow> set (ums_ClaimedLootIndexes st))"

definition live_state :: "UserGlobalMailState option \<Rightarrow> bool" where
  "live_state st \<longleftrightarrow> countable_state st \<and> (\<forall>x. st = Some x \<longrightarrow>
     ums_Status x \<noteq> UserMailStatusDeleted \<and> list_all in_int64 (ums_ClaimedLootIndexes x))"


text \<open>
  C7. A claim delivers a reward at most once, whatever its outcome and whatever fails on the way:
  the backpack keeps its rows and gets new ones only for requested indexes of this player and
  this mail, each with its own grant key, which was neither in the backpack nor in the ledger.
  All primary keys stay unique.
\<close>

theorem claim_at_most_once:
  assumes "player_drivers D db C clock metrics join" "tables_wf (db w)"
    and "countable_state (db_state (prof_RoleID profile) mid (db w))"
    and "ClaimGlobalMail (player_service D C p clock metrics join l n) profile mid is oth (w, sn) =
           Some (res, w', sn')"
  shows "tables_wf (db w') \<and> (\<exists>rows. tb_backpack (db w') = tb_backpack (db w) @ rows \<and>
    distinct (map bpm_GrantKey rows) \<and>
    (\<forall>row\<in>set rows. bpm_GrantKey row \<notin> ledger_keys (db w) \<union> backpack_keys (db w) \<and>
       (\<exists>!i. i \<in> set is \<and> bpm_GrantKey row = grant_key (prof_RoleID profile) mid i)))"
proof (cases "\<exists>st0. db_state (prof_RoleID profile) mid (db w) = Some st0 \<and> ums_Status st0 = UserMailStatusDeleted")
  case True
  then obtain st0 where "db_state (prof_RoleID profile) mid (db w) = Some st0" "ums_Status st0 = UserMailStatusDeleted"
    by blast
  with assms change_deleted(3) have "db w' = db w"
    by (intro player_drivers.deleted_stays [OF assms(1,2) _ _ _ change_ids(3)])
      (auto simp: ClaimGlobalMail_def)
  with assms(2) show ?thesis by auto
next
  case False
  then have live: "\<forall>st0. db_state (prof_RoleID profile) mid (db w) = Some st0 \<longrightarrow> ums_Status st0 \<noteq> UserMailStatusDeleted"
    by blast
  from player_drivers.claim_result [OF assms(1-3) live assms(4)] obtain d1 where
    g: "granted (claim_keys profile mid is) (db w) d1" and db': "db w' = d1 \<or> (\<exists>st. db w' = db_save_state st d1)"
    by (auto simp: Let_def)
  have wf: "tables_wf (db w')" using granted_wf(1) [OF g assms(2)] db' save_wf by auto
  from g obtain rows where rows: "tb_backpack d1 = tb_backpack (db w) @ rows"
    "bpm_GrantKey ` set rows \<subseteq> claim_keys profile mid is - ledger_keys (db w) - backpack_keys (db w)"
    "distinct (map bpm_GrantKey rows)"
    by (auto simp: granted_def delivered_def)
  moreover have "tb_backpack (db w') = tb_backpack d1" using db' by (auto simp: db_save_state_def)
  moreover have "bpm_GrantKey row \<notin> ledger_keys (db w) \<union> backpack_keys (db w) \<and>
       (\<exists>!i. i \<in> set is \<and> bpm_GrantKey row = grant_key (prof_RoleID profile) mid i)" if "row \<in> set rows" for row
  proof -
    have "bpm_GrantKey row \<in> claim_keys profile mid is - ledger_keys (db w) - backpack_keys (db w)"
      using rows(2) that by blast
    then show ?thesis unfolding claim_keys_def by auto
  qed
  ultimately show ?thesis using wf by metis
qed

text \<open>
  C18. A mail that a player has deleted stays as it is: reading, claiming and deleting it again
  change nothing in the database, so no reward is delivered and no column is touched.
\<close>

theorem deleted_mail_final:
  assumes "player_drivers D db C clock metrics join" "tables_wf (db w)"
    and "db_state (prof_RoleID profile) mid (db w) = Some st0" "ums_Status st0 = UserMailStatusDeleted"
    and "countable_state (Some st0)"
    and "handler \<in> {MarkGlobalMailRead (player_service D C p clock metrics join l n) profile mid,
           ClaimGlobalMail (player_service D C p clock metrics join l n) profile mid is,
           DeleteGlobalMail (player_service D C p clock metrics join l n) profile mid}"
    and "handler oth (w, sn) = Some (res, w', sn')"
  shows "db w' = db w"
proof -
  note stays = player_drivers.deleted_stays [OF assms(1-5)]
  from assms(6,7) consider
    "updateGlobalMailState (player_service D C p clock metrics join l n) profile mid read_change oth (w, sn) = Some (res, w', sn')"
    | "updateGlobalMailState (player_service D C p clock metrics join l n) profile mid
         (claim_change (player_service D C p clock metrics join l n) profile mid is) oth (w, sn) = Some (res, w', sn')"
    | "updateGlobalMailState (player_service D C p clock metrics join l n) profile mid delete_change oth (w, sn) = Some (res, w', sn')"
    by (auto simp: MarkGlobalMailRead_def ClaimGlobalMail_def DeleteGlobalMail_def)
  then show ?thesis
  proof cases
    case 1
    then show ?thesis by (rule stays [OF change_ids(1), rotated]) (simp add: change_deleted(1))
  next
    case 2
    then show ?thesis by (rule stays [OF change_ids(3), rotated]) (simp add: change_deleted(3))
  next
    case 3
    then show ?thesis by (rule stays [OF change_ids(2), rotated]) (simp add: change_deleted(2))
  qed
qed

text \<open>
  C39. A deletion that succeeds: the row of the player and the mail is deleted, keeps its claimed
  indexes and has a deletion time, the first one. When the row was there before, its version and
  its update time stay what they were, though the returned state has the next version: the
  assignments to these two columns come after the one to the status, which they test.
\<close>

theorem delete_effect:
  assumes "player_drivers D db C clock metrics join" "tables_wf (db w)"
    and "live_state (db_state (prof_RoleID profile) mid (db w))"
    and "DeleteGlobalMail (player_service D C p clock metrics join l n) profile mid oth (w, sn) =
           Some (Inr st, w', sn')"
  shows "ums_Status st = UserMailStatusDeleted \<and> ums_DeleteTime st \<noteq> None \<and>
    (case db_state (prof_RoleID profile) mid (db w) of
       None \<Rightarrow> db_state (prof_RoleID profile) mid (db w') = Some st
     | Some st0 \<Rightarrow> ums_Version st = ums_Version st0 + 1 \<and>
         db_state (prof_RoleID profile) mid (db w') =
           Some (st0\<lparr>ums_Status := UserMailStatusDeleted, ums_DeleteTime := ums_DeleteTime st\<rparr>) \<and>
         (\<forall>t. ums_DeleteTime st0 = Some t \<longrightarrow> ums_DeleteTime st = Some t))"
proof -
  let ?old = "db_state (prof_RoleID profile) mid (db w)"
  have cnt: "countable_state ?old" using assms(3) by (simp add: live_state_def)
  from player_drivers.delete_result [OF assms(1,2) cnt assms(4)] obtain now where
    st: "st = set_update_time now (deleted_state now (next_version (stored_or_new profile mid now (db w))))"
    and db': "db w' = db_save_state st (db w)" by metis
  have del: "ums_Status st = UserMailStatusDeleted" "ums_DeleteTime st \<noteq> None"
    by (auto simp: st deleted_state_def split: option.splits)
  have sel: "ums_RoleID st = prof_RoleID profile" "ums_GlobalMailID st = mid"
    "ums_Version st = ums_Version (stored_or_new profile mid now (db w)) + 1"
    using stored_or_new_sel [OF assms(2)] cnt by (simp_all add: st deleted_state_def)
  have "ums_ClaimedLootIndexes st = ums_ClaimedLootIndexes (stored_or_new profile mid now (db w))"
    by (simp add: st deleted_state_def)
  then have "list_all in_int64 (ums_ClaimedLootIndexes st)"
    using assms(3) by (auto simp: live_state_def stored_or_new_def new_state_def split: option.splits)
  note save = db_state_save [OF this, of "prof_RoleID profile" mid "db w"]
  show ?thesis
  proof (cases ?old)
    case None
    with save del sel show ?thesis by (simp add: db')
  next
    case (Some st0)
    then have start: "stored_or_new profile mid now (db w) = st0" by (simp add: stored_or_new_def)
    have "saved_state st0 st = st0\<lparr>ums_Status := UserMailStatusDeleted, ums_DeleteTime := ums_DeleteTime st\<rparr>"
      by (simp add: saved_state_def st start deleted_state_def set_update_time_def next_version_def)
    moreover have "ums_DeleteTime st0 = Some t \<longrightarrow> ums_DeleteTime st = Some t" for t
      by (simp add: st start deleted_state_def)
    moreover have "ums_Status st0 \<noteq> UserMailStatusDeleted" using assms(3) Some by (simp add: live_state_def)
    ultimately show ?thesis using Some save del sel start by (simp add: db')
  qed
qed

text \<open>
  C19. A list of mails that is returned holds, sorted by falling ids, an item for every mail that
  the player sees in the snapshot at that time, with the stored state of the player or as unread,
  except the mails that the player has deleted; listing changes nothing.
\<close>

theorem list_mails_exact:
  assumes "player_drivers D db C clock metrics join" "tables_wf (db w)"
    and "ListGlobalMails (player_service D C p clock metrics join l n) profile oth (w, sn) =
           Some (Inr items, w', sn')"
  shows "db w' = db w \<and> sorted_wrt (\<lambda>a b. mail_ID (mi_Mail b) \<le> mail_ID (mi_Mail a)) items \<and>
    (\<exists>w1 mails w2. VisibleMails (player_cache D C p clock metrics join l n) profile (w1, sn') = (mails, w2) \<and>
       length items \<le> length mails \<and>
       set items = {item. mi_Mail item \<in> set mails \<and>
         (case db_state (prof_RoleID profile) (mail_ID (mi_Mail item)) (db w) of
            None \<Rightarrow> item = \<lparr>mi_Mail = mi_Mail item, mi_Status = UserMailStatusUnread,
                            mi_ClaimedLootIndexes = [], mi_State = None\<rparr>
          | Some st \<Rightarrow> ums_Status st \<noteq> UserMailStatusDeleted \<and>
              item = \<lparr>mi_Mail = mi_Mail item, mi_Status = ums_Status st,
                     mi_ClaimedLootIndexes = ums_ClaimedLootIndexes st, mi_State = Some st\<rparr>)})"
proof -
  let ?item = "mail_item (\<lambda>i. db_state (prof_RoleID profile) i (db w))"
  from player_drivers.list_result [OF assms] obtain w1 mails w2 where
    res: "db w' = db w" "sorted_wrt (\<lambda>a b. mail_ID (mi_Mail b) \<le> mail_ID (mi_Mail a)) items"
    and v: "VisibleMails (player_cache D C p clock metrics join l n) profile (w1, sn') = (mails, w2)"
    and items: "mset items = mset (List.map_filter ?item mails)" by auto
  have "length items = length (List.map_filter ?item mails)" using items by (rule mset_eq_length)
  also have "\<dots> \<le> length mails" by (simp add: map_filter_def)
  finally have "length items \<le> length mails" .
  moreover have "set items = {item. \<exists>m\<in>set mails. ?item m = Some item}"
    using mset_eq_setD [OF items] by (force simp: map_filter_def)
  moreover have "?item m = Some item \<longleftrightarrow> mi_Mail item = m \<and>
      (case db_state (prof_RoleID profile) (mail_ID m) (db w) of
            None \<Rightarrow> item = \<lparr>mi_Mail = m, mi_Status = UserMailStatusUnread,
                            mi_ClaimedLootIndexes = [], mi_State = None\<rparr>
          | Some st \<Rightarrow> ums_Status st \<noteq> UserMailStatusDeleted \<and>
              item = \<lparr>mi_Mail = m, mi_Status = ums_Status st,
                     mi_ClaimedLootIndexes = ums_ClaimedLootIndexes st, mi_State = Some st\<rparr>)" for m item
    by (auto simp: mail_item_def split: option.splits)
  ultimately show ?thesis using res v by (intro conjI exI [of _ w1] exI [of _ mails] exI [of _ w2]) auto
qed

text \<open>
  C36. A reward whose delivery failed after its reservation is lost: its key is in the ledger and
  not in the backpack, so a later claim of the index succeeds, records the index as claimed and
  delivers nothing.
\<close>

theorem lost_reward_claimed:
  assumes "player_drivers D db C clock metrics join" "tables_wf (db w)"
    and "live_state (db_state (prof_RoleID profile) mid (db w))" "list_all in_int64 is" "i \<in> set is"
    and "grant_key (prof_RoleID profile) mid i \<in> ledger_keys (db w)"
    and "grant_key (prof_RoleID profile) mid i \<notin> backpack_keys (db w)"
    and "ClaimGlobalMail (player_service D C p clock metrics join l n) profile mid is oth (w, sn) =
           Some (Inr st, w', sn')"
  shows "i \<in> set (ums_ClaimedLootIndexes st) \<and> grant_key (prof_RoleID profile) mid i \<notin> backpack_keys (db w')"
proof -
  let ?old = "db_state (prof_RoleID profile) mid (db w)" and ?k = "grant_key (prof_RoleID profile) mid i"
  have live: "countable_state ?old" "\<forall>st0. ?old = Some st0 \<longrightarrow> ums_Status st0 \<noteq> UserMailStatusDeleted"
    using assms(3) by (auto simp: live_state_def)
  from player_drivers.claim_result [OF assms(1,2) live assms(8)] obtain d1 now where
    g: "granted (claim_keys profile mid is) (db w) d1"
    and st: "st = set_update_time now (claimed_state is now (next_version (stored_or_new profile mid now (db w))))"
    and db': "db w' = db_save_state st d1"
    by (auto simp: Let_def)
  from g obtain rows where "tb_backpack d1 = tb_backpack (db w) @ rows"
    "bpm_GrantKey ` set rows \<subseteq> claim_keys profile mid is - ledger_keys (db w) - backpack_keys (db w)"
    by (auto simp: granted_def delivered_def)
  then have "backpack_keys d1 \<subseteq> backpack_keys (db w) \<union> - ledger_keys (db w)" by auto
  moreover have "backpack_keys (db w') = backpack_keys d1" by (simp add: db' db_save_state_def)
  ultimately show ?thesis using assms(5-7) by (auto simp: st claimed_state_def set_mergeLootIndexes)
qed

section \<open>Examples\<close>

abbreviation mem_service :: "mem_world PlayerMailService" where
  "mem_service \<equiv> player_service mem_gorm mem_redis ''p:'' mem_clock None (\<lambda>_ _. None) 0 0"

definition loot_mail :: GlobalMail where
  "loot_mail = (sample_mail 5 [])\<lparr>mail_Loots := RawValid (JArr [JInt 7])\<rparr>"

definition loot_snapshot :: CacheSnapshot where
  "loot_snapshot = build_snapshot 1 0 [loot_mail]"

definition deleted_row :: UserGlobalMailStateModel where
  "deleted_row = toStateModel ((new_state (sample_profile 4) 5 1)
     \<lparr>ums_Status := UserMailStatusDeleted, ums_Version := 1\<rparr>)"

definition failed_ledger_row :: UserGlobalMailRewardLedgerModel where
  "failed_ledger_row = (ledger_model (reward_grant (sample_profile 4) 5 0 (RawValid (JInt 7)) 1) 1)
     \<lparr>rlm_Status := ''failed'', rlm_FailureReason := ''i/o timeout''\<rparr>"

definition player_world :: "UserGlobalMailStateModel list \<Rightarrow> UserGlobalMailRewardLedgerModel list \<Rightarrow> mem_world" where
  "player_world states ledger = cache_start\<lparr>mw_db := (mw_db cache_start)\<lparr>tb_state := states, tb_ledger := ledger\<rparr>\<rparr>"

lemma player_world_ok:
  "length states \<le> 1 \<Longrightarrow> length ledger \<le> 1 \<Longrightarrow> tables_wf (mw_db (player_world states ledger))"
  by (cases states; cases ledger) (auto simp: player_world_def cache_start_def tables_wf_def keys_unique_def)

lemma player_world_new: "db_state role mid (mw_db (player_world [] ledger)) = None"
  by (simp add: player_world_def db_state_def)

lemma run_obtain:
  assumes "case run of Some (Inr _, _, _) \<Rightarrow> True | _ \<Rightarrow> False"
  obtains x w' sn' where "run = Some (Inr x, w', sn')"
proof (cases run)
  case (Some r)
  obtain x w' sn' where "r = (x, w', sn')" by (cases r) auto
  with Some assms that show thesis by (cases x) auto
qed (use assms in simp)

lemma fresh_claim:
  obtains st w' sn' where "ClaimGlobalMail mem_service (sample_profile 4) 5 [0] (\<lambda>s. s, []) (player_world [] [], loot_snapshot) =
    Some (Inr st, w', sn')"
proof (rule run_obtain)
  show "case ClaimGlobalMail mem_service (sample_profile 4) 5 [0] (\<lambda>s. s, []) (player_world [] [], loot_snapshot) of
    Some (Inr _, _, _) \<Rightarrow> True | _ \<Rightarrow> False" by code_simp
qed


theorem claim_at_most_once_witness:
  "\<exists>st w' sn' rows. ClaimGlobalMail mem_service (sample_profile 4) 5 [0] (\<lambda>s. s, []) (player_world [] [], loot_snapshot) =
     Some (Inr st, w', sn') \<and> tb_backpack (mw_db w') = rows \<and> distinct (map bpm_GrantKey rows) \<and>
     (\<forall>row\<in>set rows. bpm_GrantKey row = grant_key 1 5 0)"
proof -
  obtain st w' sn' where run: "ClaimGlobalMail mem_service (sample_profile 4) 5 [0] (\<lambda>s. s, []) (player_world [] [], loot_snapshot) =
    Some (Inr st, w', sn')" by (rule fresh_claim)
  have role: "prof_RoleID (sample_profile 4) = 1" by (simp add: sample_profile_def)
  have new: "countable_state (db_state (prof_RoleID (sample_profile 4)) 5 (mw_db (player_world [] [])))"
    "tb_backpack (mw_db (player_world [] [])) = []"
    by (simp add: player_world_new countable_state_def) (simp add: player_world_def cache_start_def)
  from claim_at_most_once [OF mem_player_server.player_drivers_axioms player_world_ok new(1) run] run new(2)
  show ?thesis by (auto simp: role)
qed

theorem deleted_mail_final_witness:
  "\<exists>res w' sn'. MarkGlobalMailRead mem_service (sample_profile 4) 5 (\<lambda>s. s, []) (player_world [deleted_row] [], loot_snapshot) =
     Some (res, w', sn') \<and> mw_db w' = mw_db (player_world [deleted_row] [])"
proof -
  have "case MarkGlobalMailRead mem_service (sample_profile 4) 5 (\<lambda>s. s, []) (player_world [deleted_row] [], loot_snapshot) of
    Some (Inr _, _, _) \<Rightarrow> True | _ \<Rightarrow> False" by code_simp
  then obtain st w' sn' where run: "MarkGlobalMailRead mem_service (sample_profile 4) 5 (\<lambda>s. s, [])
      (player_world [deleted_row] [], loot_snapshot) = Some (Inr st, w', sn')" by (rule run_obtain)
  have st: "db_state (prof_RoleID (sample_profile 4)) 5 (mw_db (player_world [deleted_row] [])) = Some (toState deleted_row)"
    by (simp add: db_state_def player_world_def deleted_row_def new_state_def)
  have "ums_Status (toState deleted_row) = UserMailStatusDeleted" "countable_state (Some (toState deleted_row))"
    by (simp_all add: deleted_row_def countable_state_def toState_def toStateModel_def)
  from deleted_mail_final [OF mem_player_server.player_drivers_axioms player_world_ok st this,
      where handler = "MarkGlobalMailRead mem_service (sample_profile 4) 5", OF _ _ _ run] run
  show ?thesis by auto
qed

theorem delete_effect_witness:
  "\<exists>st w' sn'. DeleteGlobalMail mem_service (sample_profile 4) 5 (\<lambda>s. s, []) (player_world [] [], loot_snapshot) =
     Some (Inr st, w', sn') \<and> db_state 1 5 (mw_db w') = Some st \<and> ums_Status st = UserMailStatusDeleted"
proof -
  have "case DeleteGlobalMail mem_service (sample_profile 4) 5 (\<lambda>s. s, []) (player_world [] [], loot_snapshot) of
    Some (Inr _, _, _) \<Rightarrow> True | _ \<Rightarrow> False" by code_simp
  then obtain st w' sn' where run: "DeleteGlobalMail mem_service (sample_profile 4) 5 (\<lambda>s. s, [])
      (player_world [] [], loot_snapshot) = Some (Inr st, w', sn')" by (rule run_obtain)
  have new: "live_state (db_state (prof_RoleID (sample_profile 4)) 5 (mw_db (player_world [] [])))"
    by (simp add: player_world_new live_state_def countable_state_def)
  from delete_effect [OF mem_player_server.player_drivers_axioms player_world_ok new run] run
  show ?thesis by (auto simp: player_world_new sample_profile_def)
qed

theorem list_mails_exact_witness:
  "\<exists>items w' sn'. ListGlobalMails mem_service (sample_profile 4) (\<lambda>s. s, []) (player_world [deleted_row] [], loot_snapshot) =
     Some (Inr items, w', sn') \<and> (\<forall>item\<in>set items. mail_ID (mi_Mail item) \<noteq> 5)"
proof -
  have "case ListGlobalMails mem_service (sample_profile 4) (\<lambda>s. s, []) (player_world [deleted_row] [], loot_snapshot) of
    Some (Inr _, _, _) \<Rightarrow> True | _ \<Rightarrow> False" by code_simp
  then obtain items w' sn' where run: "ListGlobalMails mem_service (sample_profile 4) (\<lambda>s. s, [])
      (player_world [deleted_row] [], loot_snapshot) = Some (Inr items, w', sn')" by (rule run_obtain)
  have st: "db_state (prof_RoleID (sample_profile 4)) 5 (mw_db (player_world [deleted_row] [])) = Some (toState deleted_row)"
    by (simp add: db_state_def player_world_def deleted_row_def new_state_def)
  have "ums_Status (toState deleted_row) = UserMailStatusDeleted" by (simp add: deleted_row_def)
  with list_mails_exact [OF mem_player_server.player_drivers_axioms player_world_ok run] st run
  show ?thesis by (auto split: option.splits)
qed

theorem lost_reward_claimed_witness:
  "\<exists>st w' sn'. ClaimGlobalMail mem_service (sample_profile 4) 5 [0] (\<lambda>s. s, []) (player_world [] [failed_ledger_row], loot_snapshot) =
     Some (Inr st, w', sn') \<and> 0 \<in> set (ums_ClaimedLootIndexes st) \<and> grant_key 1 5 0 \<notin> backpack_keys (mw_db w')"
proof -
  let ?w = "player_world [] [failed_ledger_row]"
  have "case ClaimGlobalMail mem_service (sample_profile 4) 5 [0] (\<lambda>s. s, []) (?w, loot_snapshot) of
    Some (Inr _, _, _) \<Rightarrow> True | _ \<Rightarrow> False" by code_simp
  then obtain st w' sn' where run: "ClaimGlobalMail mem_service (sample_profile 4) 5 [0] (\<lambda>s. s, []) (?w, loot_snapshot) =
    Some (Inr st, w', sn')" by (rule run_obtain)
  have role: "prof_RoleID (sample_profile 4) = 1" by (simp add: sample_profile_def)
  have w: "live_state (db_state (prof_RoleID (sample_profile 4)) 5 (mw_db ?w))"
    "grant_key (prof_RoleID (sample_profile 4)) 5 0 \<in> ledger_keys (mw_db ?w)"
    "grant_key (prof_RoleID (sample_profile 4)) 5 0 \<notin> backpack_keys (mw_db ?w)"
    by (simp add: player_world_new live_state_def countable_state_def)
      (simp_all add: player_world_def failed_ledger_row_def reward_grant_def cache_start_def ledger_model_def Let_def)
  from lost_reward_claimed [OF mem_player_server.player_drivers_axioms player_world_ok w(1) _ _ w(2,3) run] run
  show ?thesis by (auto simp: role in_int64_def)
qed

end
