(* ===== verification/Mail_Rpc.thy ===== *)
theory Mail_Rpc
  imports Player_Mail Rpc_Types
begin

text \<open>
  The mail service behind its RPC interface (\<^verbatim>\<open>app/playersrv/mail_rpc.go\<close>), with the messages of
  \<^verbatim>\<open>api/rpc/mail.proto\<close> as the generated structs have them and the text form of times
  (\<^verbatim>\<open>time.RFC3339Nano\<close>). A conversion to \<^verbatim>\<open>int32\<close> keeps the low 32 bits.
\<close>

section \<open>Messages\<close>

record rpc_UserProfile =
  rp_Uid :: int
  rp_RoleId :: int
  rp_ServerId :: int
  rp_VipLevel :: int
  rp_TotalRecharge :: int
  rp_CorpsLevel :: int
  rp_OpenDays :: int
  rp_PackageType :: string
  rp_Country :: string

record ListGlobalMailsRequest =
  lgr_Profile :: "rpc_UserProfile option"

record GlobalMailStateRequest =
  gsr_Profile :: "rpc_UserProfile option"
  gsr_GlobalMailId :: int

record ClaimGlobalMailRequest =
  cgr_Profile :: "rpc_UserProfile option"
  cgr_GlobalMailId :: int
  cgr_LootIndexes :: "int list"

record GlobalMailItem =
  gmi_GlobalMailId :: int
  gmi_Title :: string
  gmi_Content :: string
  gmi_MessageMap :: raw_message
  gmi_Loots :: raw_message
  gmi_Sender :: string
  gmi_Category :: string
  gmi_TemplateId :: int
  gmi_Params :: raw_message
  gmi_ExternalUrl :: string
  gmi_StartTime :: string
  gmi_ExpireTime :: string
  gmi_Status :: string
  gmi_Version :: int
  gmi_UserStatus :: string
  gmi_ClaimedLootIndexes :: "int list"

record GlobalMailStateResponse =
  gsp_RoleId :: int
  gsp_ServerId :: int
  gsp_GlobalMailId :: int
  gsp_Status :: string
  gsp_ClaimedLootIndexes :: "int list"
  gsp_ClaimTime :: string
  gsp_DeleteTime :: string
  gsp_Version :: int

section \<open>Times as text\<close>

text \<open>
  The date of a day, counted from 1 January of year 1: the days of a 400-year era are counted from
  1 March, so that the leap day is the last day of a year.
\<close>

definition civil_date :: "int \<Rightarrow> int \<times> int \<times> int" where
  "civil_date days =
     (let z = days + 306;
          era = z div 146097; doe = z mod 146097;
          yoe = (doe - doe div 1460 + doe div 36524 - doe div 146096) div 365;
          doy = doe - (365 * yoe + yoe div 4 - yoe div 100);
          mp = (5 * doy + 2) div 153;
          d = doy - (153 * mp + 2) div 5 + 1;
          m = (if mp < 10 then mp + 3 else mp - 9);
          y = yoe + era * 400 + (if m \<le> 2 then 1 else 0)
      in (y, m, d))"

definition pad_int :: "nat \<Rightarrow> int \<Rightarrow> string" where
  "pad_int width n = (let s = show_nat (nat \<bar>n\<bar>); p = replicate (width - length s) CHR ''0'' @ s
     in if n < 0 then CHR ''-'' # p else p)"

text \<open>The fraction of a second: a point and nine digits without trailing zeros, nothing for zero.\<close>

definition format_fraction :: "int \<Rightarrow> string" where
  "format_fraction nanos = (if nanos = 0 then []
     else CHR ''.'' # rev (dropWhile (\<lambda>c. c = CHR ''0'') (rev (pad_int 9 nanos))))"

definition format_rfc3339 :: "go_time \<Rightarrow> string" where
  "format_rfc3339 t =
     (let secs = t div time_second; days = secs div 86400; s = secs mod 86400; (y, m, d) = civil_date days
      in pad_int 4 y @ ''-'' @ pad_int 2 m @ ''-'' @ pad_int 2 d @ ''T'' @
         pad_int 2 (s div 3600) @ '':'' @ pad_int 2 (s mod 3600 div 60) @ '':'' @ pad_int 2 (s mod 60) @
         format_fraction (t mod time_second) @ ''Z'')"

definition formatTime :: "go_time \<Rightarrow> string" where
  "formatTime value = (if IsZero value then '''' else format_rfc3339 value)"

definition formatOptionalTime :: "go_time option \<Rightarrow> string" where
  "formatOptionalTime value = (case value of None \<Rightarrow> '''' | Some t \<Rightarrow> formatTime t)"

section \<open>Conversions\<close>

definition zero_profile :: UserProfile where
  "zero_profile = \<lparr>prof_RoleID = 0, prof_UID = 0, prof_ServerID = 0, prof_RegisterTime = 0,
     prof_VIPLevel = 0, prof_TotalRecharge = 0, prof_CorpsLevel = 0, prof_OpenDays = 0,
     prof_PackageType = '''', prof_Country = ''''\<rparr>"

definition toDomainProfile :: "rpc_UserProfile option \<Rightarrow> UserProfile" where
  "toDomainProfile profile = (case profile of
       None \<Rightarrow> zero_profile
     | Some p \<Rightarrow> \<lparr>prof_RoleID = rp_RoleId p, prof_UID = rp_Uid p, prof_ServerID = rp_ServerId p,
         prof_RegisterTime = 0, prof_VIPLevel = rp_VipLevel p, prof_TotalRecharge = rp_TotalRecharge p,
         prof_CorpsLevel = rp_CorpsLevel p, prof_OpenDays = rp_OpenDays p,
         prof_PackageType = rp_PackageType p, prof_Country = rp_Country p\<rparr>)"

definition toRPCMailItem :: "MailItem \<Rightarrow> GlobalMailItem" where
  "toRPCMailItem item = (let mail = mi_Mail item in
     \<lparr>gmi_GlobalMailId = mail_ID mail, gmi_Title = mail_Title mail, gmi_Content = mail_Content mail,
      gmi_MessageMap = mail_MessageMap mail, gmi_Loots = mail_Loots mail, gmi_Sender = mail_Sender mail,
      gmi_Category = mail_Category mail, gmi_TemplateId = mail_TemplateID mail, gmi_Params = mail_Params mail,
      gmi_ExternalUrl = mail_ExternalURL mail, gmi_StartTime = formatTime (mail_StartTime mail),
      gmi_ExpireTime = formatTime (mail_ExpireTime mail), gmi_Status = mail_Status mail,
      gmi_Version = mail_Version mail, gmi_UserStatus = mi_Status item,
      gmi_ClaimedLootIndexes = map wrap32 (mi_ClaimedLootIndexes item)\<rparr>)"

definition toRPCMailState :: "UserGlobalMailState \<Rightarrow> GlobalMailStateResponse" where
  "toRPCMailState state =
     \<lparr>gsp_RoleId = ums_RoleID state, gsp_ServerId = wrap32 (ums_ServerID state),
      gsp_GlobalMailId = ums_GlobalMailID state, gsp_Status = ums_Status state,
      gsp_ClaimedLootIndexes = map wrap32 (ums_ClaimedLootIndexes state),
      gsp_ClaimTime = formatOptionalTime (ums_ClaimTime state),
      gsp_DeleteTime = formatOptionalTime (ums_DeleteTime state),
      gsp_Version = wrap32 (ums_Version state)\<rparr>"

definition toIntSlice :: "int list \<Rightarrow> int list" where
  "toIntSlice values = values"

section \<open>The server\<close>

record 'w MailRPCServer =
  mrs_service :: "'w PlayerMailService"

definition NewMailRPCServer :: "'w PlayerMailService \<Rightarrow> 'w MailRPCServer" where
  "NewMailRPCServer service = \<lparr>mrs_service = service\<rparr>"

text \<open>\<^verbatim>\<open>x, err := call(); if err != nil { return nil, err }; return f(x), nil\<close>\<close>

definition call_map :: "('a \<Rightarrow> 'b) \<Rightarrow> ('w, 'a) player_io \<Rightarrow> ('w, 'b) player_io" where
  "call_map f m st = (case m st of
       None \<Rightarrow> None
     | Some (Inl e, st') \<Rightarrow> Some (Inl e, st')
     | Some (Inr x, st') \<Rightarrow> Some (Inr (f x), st'))"

definition rpc_ListGlobalMails ::
  "'w MailRPCServer \<Rightarrow> ListGlobalMailsRequest \<Rightarrow> others \<Rightarrow> ('w, GlobalMailItem list) player_io" where
  "rpc_ListGlobalMails s req oth = call_map (map toRPCMailItem)
     (ListGlobalMails (mrs_service s) (toDomainProfile (lgr_Profile req)) oth)"

definition rpc_MarkGlobalMailRead ::
  "'w MailRPCServer \<Rightarrow> GlobalMailStateRequest \<Rightarrow> others \<Rightarrow> ('w, GlobalMailStateResponse) player_io" where
  "rpc_MarkGlobalMailRead s req oth = call_map toRPCMailState
     (MarkGlobalMailRead (mrs_service s) (toDomainProfile (gsr_Profile req)) (gsr_GlobalMailId req) oth)"

definition rpc_ClaimGlobalMail ::
  "'w MailRPCServer \<Rightarrow> ClaimGlobalMailRequest \<Rightarrow> others \<Rightarrow> ('w, GlobalMailStateResponse) player_io" where
  "rpc_ClaimGlobalMail s req oth = call_map toRPCMailState
     (ClaimGlobalMail (mrs_service s) (toDomainProfile (cgr_Profile req)) (cgr_GlobalMailId req)
        (toIntSlice (cgr_LootIndexes req)) oth)"

definition rpc_DeleteGlobalMail ::
  "'w MailRPCServer \<Rightarrow> GlobalMailStateRequest \<Rightarrow> others \<Rightarrow> ('w, GlobalMailStateResponse) player_io" where
  "rpc_DeleteGlobalMail s req oth = call_map toRPCMailState
     (DeleteGlobalMail (mrs_service s) (toDomainProfile (gsr_Profile req)) (gsr_GlobalMailId req) oth)"

end
