(* ===== verification/Command_Service.thy ===== *)
theory Command_Service
  imports Mail_Rpc
begin

text \<open>
  The command interface of a player server (\<^verbatim>\<open>app/playersrv/command_service.go\<close> and
  \<^verbatim>\<open>mail_commands.go\<close>): a registry of handlers, a dispatcher that answers a repeated request with the
  stored response, and the four mail commands. A call runs on a state and gives \<open>None\<close> when it has
  not returned. The protobuf encoding and the SHA-256 digest are parameters.
\<close>

type_synonym ('s, 'a) call = "'s \<Rightarrow> ((error + 'a) \<times> 's) option"
type_synonym 's CommandHandler = "CommandRequest \<Rightarrow> ('s, any_message option) call"
type_synonym 's CommandDispatcher = "CommandRequest \<Rightarrow> ('s, CommandResponse) call"

section \<open>The registry\<close>

record 's CommandRegistration =
  creg_Definition :: CommandDefinition
  creg_Handler :: "'s CommandHandler"

text \<open>A Go map from command ids: an association list whose keys differ.\<close>

type_synonym 's CommandRegistry = "(int \<times> 's CommandRegistration) list"

definition NewCommandRegistry :: "'s CommandRegistry" where
  "NewCommandRegistry = []"

definition ErrCommandAlreadyRegistered :: error where
  "ErrCommandAlreadyRegistered = ErrorNew ''command already registered''"

definition Register ::
  "CommandDefinition option \<Rightarrow> 's CommandHandler option \<Rightarrow> 's CommandRegistry \<Rightarrow> error + 's CommandRegistry" where
  "Register cmd handler r = (case cmd of
       None \<Rightarrow> Inl (ErrorNew ''command definition is required'')
     | Some d \<Rightarrow>
         if cdef_CommandId d = COMMAND_ID_UNSPECIFIED then Inl (ErrorNew ''command definition is required'')
         else (case handler of
             None \<Rightarrow> Inl (ErrorNew ''command handler is required'')
           | Some h \<Rightarrow>
               if map_of r (cdef_CommandId d) \<noteq> None then Inl ErrCommandAlreadyRegistered
               else Inr ((cdef_CommandId d, \<lparr>creg_Definition = d, creg_Handler = h\<rparr>) # r)))"

definition registry_Dispatch :: "'s CommandRegistry \<Rightarrow> 's CommandDispatcher" where
  "registry_Dispatch r req s = (case map_of r (req_CommandId req) of
       None \<Rightarrow> Some (Inr \<lparr>resp_CommandId = req_CommandId req, resp_Seq = req_Seq req, resp_Code = 404,
                         resp_Message = ''unknown command'', resp_Payload = None\<rparr>, s)
     | Some registration \<Rightarrow> (case creg_Handler registration req s of
           None \<Rightarrow> None
         | Some (Inl e, s') \<Rightarrow> Some (Inl e, s')
         | Some (Inr payload, s') \<Rightarrow>
             Some (Inr \<lparr>resp_CommandId = req_CommandId req, resp_Seq = req_Seq req, resp_Code = 0,
                       resp_Message = ''ok'', resp_Payload = payload\<rparr>, s')))"

definition Definitions :: "'s CommandRegistry \<Rightarrow> CommandDefinition list" where
  "Definitions r = sort_key cdef_CommandId (map (creg_Definition \<circ> snd) r)"

section \<open>Answering a repeated command\<close>

text \<open>The store is the Redis repository in the player server; without one, only the memory is used.\<close>

record 's CommandIdempotencyStore =
  GetCommandIdempotency :: "string \<Rightarrow> ('s, (string \<times> CommandResponse) option) io"
  SaveCommandIdempotency :: "string \<Rightarrow> string \<Rightarrow> CommandResponse \<Rightarrow> duration \<Rightarrow> ('s, unit) io"

record 's IdempotentCommandDispatcher =
  icd_next :: "'s CommandDispatcher"
  icd_store :: "'s CommandIdempotencyStore option"
  icd_ttl :: duration

text \<open>The records of answered requests: key, hash of the payload, response.\<close>

type_synonym command_records = "string \<rightharpoonup> string \<times> CommandResponse"

definition NewIdempotentCommandDispatcher :: "'s CommandDispatcher \<Rightarrow> 's IdempotentCommandDispatcher \<times> command_records" where
  "NewIdempotentCommandDispatcher next = (\<lparr>icd_next = next, icd_store = None, icd_ttl = 0\<rparr>, Map.empty)"

definition NewIdempotentCommandDispatcherWithStore ::
  "'s CommandDispatcher \<Rightarrow> 's CommandIdempotencyStore option \<Rightarrow> duration \<Rightarrow>
   's IdempotentCommandDispatcher \<times> command_records" where
  "NewIdempotentCommandDispatcherWithStore next store ttl =
     (case NewIdempotentCommandDispatcher next of
        (d, records) \<Rightarrow> (d\<lparr>icd_store := store, icd_ttl := ttl\<rparr>, records))"

definition ErrCommandIdempotencyConflict :: error where
  "ErrCommandIdempotencyConflict = ErrorNew ''command idempotency key reused with different payload''"

definition commandIdempotencyKey :: "CommandRequest \<Rightarrow> string" where
  "commandIdempotencyKey req =
     show_int (req_Uid req) @ '':'' @ show_int (req_CommandId req) @ '':'' @ show_int (req_Seq req)"

text \<open>\<open>marshal\<close> is \<^verbatim>\<open>proto.Marshal\<close> of the payload, \<open>digest\<close> the SHA-256 sum in hexadecimal.\<close>

definition commandRequestHash ::
  "(any_message option \<Rightarrow> error + string) \<Rightarrow> (string \<Rightarrow> string) \<Rightarrow> CommandRequest \<Rightarrow> error + string" where
  "commandRequestHash marshal digest req = map_sum id digest (marshal (req_Payload req))"

definition commandIdempotencyConflictResponse :: "CommandRequest \<Rightarrow> CommandResponse" where
  "commandIdempotencyConflictResponse req =
     \<lparr>resp_CommandId = req_CommandId req, resp_Seq = req_Seq req, resp_Code = 409,
      resp_Message = error_text ErrCommandIdempotencyConflict, resp_Payload = None\<rparr>"

definition remember :: "string \<Rightarrow> string \<Rightarrow> CommandResponse \<Rightarrow> command_records \<Rightarrow> command_records" where
  "remember key hash resp records = records(key \<mapsto> (hash, resp))"

text \<open>The request is in no record: run it, remember the response, store it.\<close>

definition dispatch_new ::
  "'s IdempotentCommandDispatcher \<Rightarrow> string \<Rightarrow> string \<Rightarrow> CommandRequest \<Rightarrow>
   ('s \<times> command_records, CommandResponse) call" where
  "dispatch_new d key hash req = (\<lambda>(s, records). case icd_next d req s of
       None \<Rightarrow> None
     | Some (Inl e, s1) \<Rightarrow> Some (Inl e, s1, records)
     | Some (Inr resp, s1) \<Rightarrow>
         (let records = remember key hash resp records
          in case icd_store d of
               None \<Rightarrow> Some (Inr resp, s1, records)
             | Some store \<Rightarrow> (case SaveCommandIdempotency store key hash resp (icd_ttl d) s1 of
                   (Inl e, s2) \<Rightarrow> Some (Inl e, s2, records)
                 | (Inr _, s2) \<Rightarrow> Some (Inr resp, s2, records))))"

text \<open>The request is not in the memory: look into the store.\<close>

definition dispatch_stored ::
  "'s IdempotentCommandDispatcher \<Rightarrow> string \<Rightarrow> string \<Rightarrow> CommandRequest \<Rightarrow>
   ('s \<times> command_records, CommandResponse) call" where
  "dispatch_stored d key hash req = (\<lambda>(s, records). case icd_store d of
       None \<Rightarrow> dispatch_new d key hash req (s, records)
     | Some store \<Rightarrow> (case GetCommandIdempotency store key s of
           (Inl e, s1) \<Rightarrow> Some (Inl e, s1, records)
         | (Inr None, s1) \<Rightarrow> dispatch_new d key hash req (s1, records)
         | (Inr (Some (storedHash, storedResp)), s1) \<Rightarrow>
             if storedHash \<noteq> hash then Some (Inr (commandIdempotencyConflictResponse req), s1, records)
             else Some (Inr storedResp, s1, remember key hash storedResp records)))"

definition idempotent_Dispatch ::
  "(any_message option \<Rightarrow> error + string) \<Rightarrow> (string \<Rightarrow> string) \<Rightarrow> 's IdempotentCommandDispatcher \<Rightarrow>
   CommandRequest \<Rightarrow> ('s \<times> command_records, CommandResponse) call" where
  "idempotent_Dispatch marshal digest d req = (\<lambda>(s, records).
     if req_Uid req = 0 \<or> req_Seq req = 0
     then map_option (\<lambda>(r, s'). (r, s', records)) (icd_next d req s)
     else (case commandRequestHash marshal digest req of
         Inl e \<Rightarrow> Some (Inl e, s, records)
       | Inr hash \<Rightarrow> (case records (commandIdempotencyKey req) of
             Some (h, resp) \<Rightarrow>
               Some (Inr (if h \<noteq> hash then commandIdempotencyConflictResponse req else resp), s, records)
           | None \<Rightarrow> dispatch_stored d (commandIdempotencyKey req) hash req (s, records))))"

section \<open>The RPC server\<close>

record 's CommandRPCServer =
  crs_registry :: "'s CommandRegistry"
  crs_dispatcher :: "'s CommandDispatcher"

definition NewCommandRPCServerWithDispatcher ::
  "'s CommandRegistry \<Rightarrow> 's CommandDispatcher option \<Rightarrow> 's CommandRPCServer" where
  "NewCommandRPCServerWithDispatcher registry dispatcher =
     \<lparr>crs_registry = registry,
      crs_dispatcher = (case dispatcher of None \<Rightarrow> registry_Dispatch registry | Some d \<Rightarrow> d)\<rparr>"

definition NewCommandRPCServer :: "'s CommandRegistry \<Rightarrow> 's CommandRPCServer" where
  "NewCommandRPCServer registry =
     NewCommandRPCServerWithDispatcher registry (Some (registry_Dispatch registry))"

definition rpc_Dispatch :: "'s CommandRPCServer \<Rightarrow> 's CommandDispatcher" where
  "rpc_Dispatch s = crs_dispatcher s"

definition ListCommands :: "'s CommandRPCServer \<Rightarrow> CommandDefinition list" where
  "ListCommands s = Definitions (crs_registry s)"

section \<open>The mail commands\<close>

text \<open>What the protobuf library does with the messages: \<^verbatim>\<open>UnmarshalTo\<close> and \<^verbatim>\<open>anypb.New\<close>.\<close>

record mail_codec =
  to_list_request :: "any_message \<Rightarrow> error + ListGlobalMailsRequest"
  to_state_request :: "any_message \<Rightarrow> error + GlobalMailStateRequest"
  to_claim_request :: "any_message \<Rightarrow> error + ClaimGlobalMailRequest"
  any_list_response :: "GlobalMailItem list \<Rightarrow> error + any_message"
  any_state_response :: "GlobalMailStateResponse \<Rightarrow> error + any_message"

definition unmarshalCommandPayload :: "(any_message \<Rightarrow> error + 'p) \<Rightarrow> 'p \<Rightarrow> CommandRequest \<Rightarrow> error + 'p" where
  "unmarshalCommandPayload unmarshal_to zero req =
     (case req_Payload req of None \<Rightarrow> Inr zero | Some payload \<Rightarrow> unmarshal_to payload)"

definition command_profile :: "CommandRequest \<Rightarrow> rpc_UserProfile" where
  "command_profile req = \<lparr>rp_Uid = req_Uid req, rp_RoleId = req_RoleId req, rp_ServerId = req_ServerId req,
     rp_VipLevel = 0, rp_TotalRecharge = 0, rp_CorpsLevel = 0, rp_OpenDays = 0,
     rp_PackageType = '''', rp_Country = ''''\<rparr>"

definition applyCommandIdentity :: "rpc_UserProfile \<Rightarrow> rpc_UserProfile \<Rightarrow> rpc_UserProfile" where
  "applyCommandIdentity target source =
     target\<lparr>rp_Uid := rp_Uid source, rp_RoleId := rp_RoleId source, rp_ServerId := rp_ServerId source\<rparr>"

text \<open>The profile that \<^verbatim>\<open>ensureCommandProfile\<close> leaves in a payload, the same in its three cases.\<close>

definition ensureCommandProfile :: "CommandRequest \<Rightarrow> rpc_UserProfile option \<Rightarrow> rpc_UserProfile option" where
  "ensureCommandProfile req profile = (case profile of
       None \<Rightarrow> Some (command_profile req)
     | Some p \<Rightarrow> Some (applyCommandIdentity p (command_profile req)))"

definition commandDefinition :: "int \<Rightarrow> string \<Rightarrow> string \<Rightarrow> string \<Rightarrow> CommandDefinition" where
  "commandDefinition commandID name requestType responseType =
     \<lparr>cdef_CommandId = commandID, cdef_Name = name, cdef_RequestType = requestType,
      cdef_ResponseType = responseType\<rparr>"

text \<open>Decode the payload, put the identity into it, run the call, wrap the response.\<close>

definition mail_handler ::
  "(any_message \<Rightarrow> error + 'p) \<Rightarrow> 'p \<Rightarrow> (CommandRequest \<Rightarrow> 'p \<Rightarrow> 'p) \<Rightarrow> ('p \<Rightarrow> ('w, 'r) player_io) \<Rightarrow>
   ('r \<Rightarrow> error + any_message) \<Rightarrow> 'w player_state CommandHandler" where
  "mail_handler unmarshal_to zero ensure call any_new req st =
     (case unmarshalCommandPayload unmarshal_to zero req of
        Inl e \<Rightarrow> Some (Inl e, st)
      | Inr payload \<Rightarrow> (case call (ensure req payload) st of
            None \<Rightarrow> None
          | Some (Inl e, st') \<Rightarrow> Some (Inl e, st')
          | Some (Inr resp, st') \<Rightarrow> Some (map_sum id Some (any_new resp), st')))"

definition list_handler :: "mail_codec \<Rightarrow> 'w MailRPCServer \<Rightarrow> others \<Rightarrow> 'w player_state CommandHandler" where
  "list_handler codec mail oth = mail_handler (to_list_request codec) \<lparr>lgr_Profile = None\<rparr>
     (\<lambda>req. lgr_Profile_update (ensureCommandProfile req))
     (\<lambda>payload. rpc_ListGlobalMails mail payload oth) (any_list_response codec)"

definition read_handler :: "mail_codec \<Rightarrow> 'w MailRPCServer \<Rightarrow> others \<Rightarrow> 'w player_state CommandHandler" where
  "read_handler codec mail oth = mail_handler (to_state_request codec)
     \<lparr>gsr_Profile = None, gsr_GlobalMailId = 0\<rparr> (\<lambda>req. gsr_Profile_update (ensureCommandProfile req))
     (\<lambda>payload. rpc_MarkGlobalMailRead mail payload oth) (any_state_response codec)"

definition claim_handler :: "mail_codec \<Rightarrow> 'w MailRPCServer \<Rightarrow> others \<Rightarrow> 'w player_state CommandHandler" where
  "claim_handler codec mail oth = mail_handler (to_claim_request codec)
     \<lparr>cgr_Profile = None, cgr_GlobalMailId = 0, cgr_LootIndexes = []\<rparr>
     (\<lambda>req. cgr_Profile_update (ensureCommandProfile req))
     (\<lambda>payload. rpc_ClaimGlobalMail mail payload oth) (any_state_response codec)"

definition delete_handler :: "mail_codec \<Rightarrow> 'w MailRPCServer \<Rightarrow> others \<Rightarrow> 'w player_state CommandHandler" where
  "delete_handler codec mail oth = mail_handler (to_state_request codec)
     \<lparr>gsr_Profile = None, gsr_GlobalMailId = 0\<rparr> (\<lambda>req. gsr_Profile_update (ensureCommandProfile req))
     (\<lambda>payload. rpc_DeleteGlobalMail mail payload oth) (any_state_response codec)"

definition mail_registrations ::
  "mail_codec \<Rightarrow> 'w MailRPCServer \<Rightarrow> others \<Rightarrow> (CommandDefinition \<times> 'w player_state CommandHandler) list" where
  "mail_registrations codec mail oth =
     [(commandDefinition COMMAND_ID_MAIL_LIST_GLOBAL ''mail.list_global''
         ''globalmail.rpc.ListGlobalMailsRequest'' ''globalmail.rpc.ListGlobalMailsResponse'',
       list_handler codec mail oth),
      (commandDefinition COMMAND_ID_MAIL_MARK_READ ''mail.mark_read''
         ''globalmail.rpc.GlobalMailStateRequest'' ''globalmail.rpc.GlobalMailStateResponse'',
       read_handler codec mail oth),
      (commandDefinition COMMAND_ID_MAIL_CLAIM ''mail.claim''
         ''globalmail.rpc.ClaimGlobalMailRequest'' ''globalmail.rpc.GlobalMailStateResponse'',
       claim_handler codec mail oth),
      (commandDefinition COMMAND_ID_MAIL_DELETE ''mail.delete''
         ''globalmail.rpc.GlobalMailStateRequest'' ''globalmail.rpc.GlobalMailStateResponse'',
       delete_handler codec mail oth)]"

fun register_all :: "(CommandDefinition \<times> 's CommandHandler) list \<Rightarrow> 's CommandRegistry \<Rightarrow> error + 's CommandRegistry" where
  "register_all [] r = Inr r"
| "register_all ((d, h) # rest) r = (case Register (Some d) (Some h) r of
       Inl e \<Rightarrow> Inl e
     | Inr r' \<Rightarrow> register_all rest r')"

definition RegisterMailCommandHandlers ::
  "mail_codec \<Rightarrow> 'w MailRPCServer \<Rightarrow> others \<Rightarrow> 'w player_state CommandRegistry \<Rightarrow>
   error + 'w player_state CommandRegistry" where
  "RegisterMailCommandHandlers codec mail oth registry = register_all (mail_registrations codec mail oth) registry"

section \<open>The registry, in detail\<close>

text \<open>
  The four mail commands can be registered in a new registry; the registry lists them in the
  order of their ids, a command with one of the ids is answered by its handler, with the id and the
  sequence number of the request, and every other command is answered with code 404 and changes
  nothing.
\<close>

lemma mail_commands_registered:
  "\<exists>r. RegisterMailCommandHandlers codec mail oth NewCommandRegistry = Inr r \<and>
     map cdef_CommandId (Definitions r) = [COMMAND_ID_MAIL_LIST_GLOBAL, COMMAND_ID_MAIL_MARK_READ,
       COMMAND_ID_MAIL_CLAIM, COMMAND_ID_MAIL_DELETE] \<and>
     (\<forall>req st. registry_Dispatch r req st =
        (let answer = (\<lambda>h. map_option (map_prod (map_sum id (\<lambda>payload.
               \<lparr>resp_CommandId = req_CommandId req, resp_Seq = req_Seq req, resp_Code = 0,
                resp_Message = ''ok'', resp_Payload = payload\<rparr>)) id) (h codec mail oth req st))
         in if req_CommandId req = COMMAND_ID_MAIL_LIST_GLOBAL then answer list_handler
            else if req_CommandId req = COMMAND_ID_MAIL_MARK_READ then answer read_handler
            else if req_CommandId req = COMMAND_ID_MAIL_CLAIM then answer claim_handler
            else if req_CommandId req = COMMAND_ID_MAIL_DELETE then answer delete_handler
            else Some (Inr \<lparr>resp_CommandId = req_CommandId req, resp_Seq = req_Seq req, resp_Code = 404,
                           resp_Message = ''unknown command'', resp_Payload = None\<rparr>, st)))"
proof -
  have wrap: "(case x of None \<Rightarrow> None | Some (Inl e, s') \<Rightarrow> Some (Inl e, s') | Some (Inr p, s') \<Rightarrow> Some (Inr (f p), s')) =
      map_option (map_prod (map_sum id f) id) x" for x f
    by (auto split: option.splits sum.splits)
  show ?thesis
    by (simp add: RegisterMailCommandHandlers_def mail_registrations_def Register_def NewCommandRegistry_def
        commandDefinition_def command_id_defs Definitions_def registry_Dispatch_def Let_def wrap)
qed


section \<open>Repeated commands, in memory\<close>

lemma commandIdempotencyKey_inject:
  "commandIdempotencyKey req = commandIdempotencyKey req' \<longleftrightarrow>
     req_Uid req = req_Uid req' \<and> req_CommandId req = req_CommandId req' \<and> req_Seq req = req_Seq req'"
  using key3_inject by (simp add: commandIdempotencyKey_def)

text \<open>Records are kept: whatever a dispatch does, it does not change a record that is there.\<close>

lemma dispatch_keeps_records:
  assumes "idempotent_Dispatch marshal digest d req (s, records) = Some (r, s', records')"
    and "records key = Some v"
  shows "records' key = Some v"
  using assms
  by (auto simp: idempotent_Dispatch_def dispatch_stored_def dispatch_new_def remember_def Let_def
      split: if_splits sum.splits option.splits prod.splits)

text \<open>An answer that is not the conflict answer leaves a record with this answer.\<close>

lemma answered_recorded:
  assumes "idempotent_Dispatch marshal digest d req (s, records) = Some (Inr resp, s', records')"
    and "req_Uid req \<noteq> 0" "req_Seq req \<noteq> 0" "resp \<noteq> commandIdempotencyConflictResponse req"
  shows "\<exists>hash. commandRequestHash marshal digest req = Inr hash \<and>
    records' (commandIdempotencyKey req) = Some (hash, resp)"
  using assms
  by (auto simp: idempotent_Dispatch_def dispatch_stored_def dispatch_new_def remember_def Let_def
      split: if_splits sum.splits option.splits prod.splits)

lemma recorded_answered:
  assumes "records (commandIdempotencyKey req) = Some (h, resp)" "req_Uid req \<noteq> 0" "req_Seq req \<noteq> 0"
    and "commandRequestHash marshal digest req = Inr hash"
  shows "idempotent_Dispatch marshal digest d req (s, records) =
    Some (Inr (if h = hash then resp else commandIdempotencyConflictResponse req), s, records)"
  using assms by (simp add: idempotent_Dispatch_def)

text \<open>
  The life of a dispatcher: requests are dispatched one after the other, and the rest of the
  server may change its state in between.
\<close>

inductive serves ::
  "(any_message option \<Rightarrow> error + string) \<Rightarrow> (string \<Rightarrow> string) \<Rightarrow> 's IdempotentCommandDispatcher \<Rightarrow>
   's \<times> command_records \<Rightarrow> 's \<times> command_records \<Rightarrow> bool"
  for marshal digest d where
  serves_stop: "serves marshal digest d st st"
| serves_other: "serves marshal digest d (s', records) st' \<Longrightarrow> serves marshal digest d (s, records) st'"
| serves_dispatch: "idempotent_Dispatch marshal digest d req st = Some (r, st1) \<Longrightarrow>
    serves marshal digest d st1 st' \<Longrightarrow> serves marshal digest d st st'"

lemma serves_keeps_records:
  "serves marshal digest d st st' \<Longrightarrow> snd st key = Some v \<Longrightarrow> snd st' key = Some v"
  by (induction rule: serves.induct) (auto dest: dispatch_keeps_records)


section \<open>Repeated commands, in the store\<close>

text \<open>
  What a store promises: \<open>kept s key\<close> is the record under a key and the time when it expires. A
  record that is saved is kept for at least a second; a record that is kept is found until then.
\<close>

locale command_store =
  fixes S :: "'s CommandIdempotencyStore" and kept :: "'s \<Rightarrow> string \<rightharpoonup> string \<times> CommandResponse \<times> go_time option"
    and snow :: "'s \<Rightarrow> go_time"
  assumes save: "SaveCommandIdempotency S key hash resp ttl s = (Inr u, s') \<Longrightarrow>
      \<exists>x. kept s' key = Some (hash, resp, Some x) \<and> snow s + time_second \<le> x"
    and load_frame: "GetCommandIdempotency S key s = (gres, s') \<Longrightarrow> kept s' = kept s \<and> snow s \<le> snow s'"
    and load_found: "GetCommandIdempotency S key s = (Inr (Some (hash, resp)), s') \<Longrightarrow> \<exists>x. kept s key = Some (hash, resp, x)"
    and load: "GetCommandIdempotency S key s = (Inr found, s') \<Longrightarrow> kept s key = Some (hash, resp, x) \<Longrightarrow>
      (\<forall>y. x = Some y \<longrightarrow> snow s' < y) \<Longrightarrow> found = Some (hash, resp)"
begin

lemma answer_kept:
  assumes "idempotent_Dispatch marshal digest d req (s, records) = Some (Inr resp, s', records')"
    and "icd_store d = Some S" "records (commandIdempotencyKey req) = None"
    and "req_Uid req \<noteq> 0" "req_Seq req \<noteq> 0" "resp \<noteq> commandIdempotencyConflictResponse req"
  shows "\<exists>hash x. commandRequestHash marshal digest req = Inr hash \<and>
    kept s' (commandIdempotencyKey req) = Some (hash, resp, x)"
proof -
  let ?key = "commandIdempotencyKey req"
  from assms obtain hash where hash: "commandRequestHash marshal digest req = Inr hash"
    and run: "dispatch_stored d ?key hash req (s, records) = Some (Inr resp, s', records')"
    by (auto simp: idempotent_Dispatch_def split: sum.splits)
  obtain gres s1 where g: "GetCommandIdempotency S ?key s = (gres, s1)" by fastforce
  show ?thesis
  proof (cases "gres = Inr None")
    case True
    with run g assms(2) obtain s2 u where "SaveCommandIdempotency S ?key hash resp (icd_ttl d) s2 = (Inr u, s')"
      by (auto simp: dispatch_stored_def dispatch_new_def Let_def split: option.splits prod.splits sum.splits)
    from save [OF this] hash show ?thesis by blast
  next
    case False
    with run g assms(2,6) have "gres = Inr (Some (hash, resp))" "s' = s1"
      by (auto simp: dispatch_stored_def split: option.splits prod.splits sum.splits if_splits)
    with g load_found load_frame hash show ?thesis by fastforce
  qed
qed

lemma kept_answered:
  assumes kept: "kept s (commandIdempotencyKey req) = Some (h, resp, x)" and store: "icd_store d = Some S"
    and req: "req_Uid req \<noteq> 0" "req_Seq req \<noteq> 0" "commandRequestHash marshal digest req = Inr hash"
    and run: "idempotent_Dispatch marshal digest d req (s, Map.empty) = Some (r, s', records')"
    and fresh: "\<forall>y. x = Some y \<longrightarrow> snow (snd (GetCommandIdempotency S (commandIdempotencyKey req) s)) < y"
  shows "s' = snd (GetCommandIdempotency S (commandIdempotencyKey req) s) \<and>
    (isl r \<or> r = Inr (if h = hash then resp else commandIdempotencyConflictResponse req))"
proof -
  let ?key = "commandIdempotencyKey req"
  obtain gres s1 where g: "GetCommandIdempotency S ?key s = (gres, s1)" by fastforce
  have run': "dispatch_stored d ?key hash req (s, Map.empty) = Some (r, s', records')"
    using run req by (simp add: idempotent_Dispatch_def)
  show ?thesis
  proof (cases gres)
    case (Inl e)
    with run' g store show ?thesis by (auto simp: dispatch_stored_def)
  next
    case (Inr found)
    with load [OF g [unfolded Inr] kept] fresh g have "found = Some (h, resp)" by simp
    with Inr run' g store show ?thesis by (auto simp: dispatch_stored_def split: if_splits)
  qed
qed

end

text \<open>A call on the world, in a state that has more beside it.\<close>

definition on_world :: "('w, 'a) io \<Rightarrow> ('w \<times> 'x, 'a) io" where
  "on_world f st = (case f (fst st) of (r, w') \<Rightarrow> (r, w', snd st))"

definition redis_CommandStore ::
  "(CommandResponse \<Rightarrow> error + string) \<Rightarrow> (string \<Rightarrow> error + CommandResponse) \<Rightarrow> 'w redis_repo \<Rightarrow>
   ('w \<times> 'x) CommandIdempotencyStore" where
  "redis_CommandStore marshal unmarshal r = \<lparr>
     GetCommandIdempotency = (\<lambda>key. on_world (redis_GetCommandIdempotency unmarshal r key)),
     SaveCommandIdempotency = (\<lambda>key hash resp ttl. on_world (redis_SaveCommandIdempotency marshal r key hash resp ttl))\<rparr>"

definition kept_record ::
  "(string \<Rightarrow> error + CommandResponse) \<Rightarrow> string \<Rightarrow> keyspace \<Rightarrow>
   string \<rightharpoonup> string \<times> CommandResponse \<times> go_time option" where
  "kept_record unmarshal p d key = (case d (redis_commandIdempotencyKey p key) of
       Some (RHash h, x) \<Rightarrow> (case (map_of h ''hash'', map_of h ''response'') of
           (Some hash, Some payload) \<Rightarrow> (case unmarshal payload of
               Inr resp \<Rightarrow> Some (hash, resp, x) | Inl _ \<Rightarrow> None)
         | _ \<Rightarrow> None)
     | _ \<Rightarrow> None)"

locale redis_commands = redis C ks rnow for C :: "'w redis_client" and ks rnow +
  fixes p :: string and marshal :: "CommandResponse \<Rightarrow> error + string"
    and unmarshal :: "string \<Rightarrow> error + CommandResponse"
  assumes codec: "marshal resp = Inr payload \<Longrightarrow> unmarshal payload = Inr resp"
begin

lemma redis_save:
  assumes "redis_SaveCommandIdempotency marshal \<lparr>rr_client = C, rr_prefix = p\<rparr> key hash resp ttl w = (Inr u, w')"
  shows "\<exists>x. kept_record unmarshal p (ks w') key = Some (hash, resp, Some x) \<and> rnow w + time_second \<le> x"
proof -
  let ?k = "redis_commandIdempotencyKey p key"
  define T where "T = (if ttl \<le> 0 then 10 * time_minute else ttl)"
  have T: "T > 0" by (simp add: T_def time_units)
  from assms obtain payload where m: "marshal resp = Inr payload"
    and e: "rd_exec C [HSet ?k [(''hash'', hash), (''response'', payload)], Expire ?k T] w = (Inr u, w')"
    by (auto simp: redis_SaveCommandIdempotency_def T_def Let_def split: sum.splits)
  from exec [OF e] obtain t where t: "during rnow w w' t"
    "ks w' = snd (cmds_apply t [HSet ?k [(''hash'', hash), (''response'', payload)], Expire ?k T] (ks w))"
    "fst (cmds_apply t [HSet ?k [(''hash'', hash), (''response'', payload)], Expire ?k T] (ks w))"
    by auto
  let ?x = "t + max 1 (T div time_second) * time_second"
  have "time_second \<le> max 1 (T div time_second) * time_second"
    by (simp add: time_second_def)
  then have x: "rnow w + time_second \<le> ?x" using t(1) by (simp add: during_def)
  show ?thesis
  proof (intro exI [of _ ?x] conjI x)
    from t(3) obtain d1 where d1: "cmd_apply t (HSet ?k [(''hash'', hash), (''response'', payload)]) (ks w) = Some d1"
      by (cases "cmd_apply t (HSet ?k [(''hash'', hash), (''response'', payload)]) (ks w)") auto
    then obtain h where h: "ks_live t d1 ?k = Some (RHash h)" "map_of h ''hash'' = Some hash"
      "map_of h ''response'' = Some payload"
      by (auto simp: update_conv' ks_live_def expiry_of_def split: option.splits rvalue.splits if_splits prod.splits)
    have "ks w' = d1(?k \<mapsto> (RHash h, Some ?x))" using t(2) d1 h(1) T by simp
    with h codec [OF m] show "kept_record unmarshal p (ks w') key = Some (hash, resp, Some ?x)"
      by (simp add: kept_record_def)
  qed
qed

lemma redis_load:
  assumes "redis_GetCommandIdempotency unmarshal \<lparr>rr_client = C, rr_prefix = p\<rparr> key w = (gres, w')"
  shows "ks w' = ks w" "rnow w \<le> rnow w'"
    "gres = Inr (Some (hash, resp)) \<Longrightarrow> \<exists>x. kept_record unmarshal p (ks w) key = Some (hash, resp, x)"
    "gres = Inr found \<Longrightarrow> kept_record unmarshal p (ks w) key = Some (h, r, x) \<Longrightarrow>
       \<forall>y. x = Some y \<longrightarrow> rnow w' < y \<Longrightarrow> found = Some (h, r)"
proof -
  let ?k = "redis_commandIdempotencyKey p key"
  obtain hres w1 where hm: "rd_hmget C ?k [''hash'', ''response''] w = (hres, w1)" by fastforce
  with assms have w1: "w' = w1"
    by (auto simp: redis_GetCommandIdempotency_def io_bind_def split: sum.splits list.splits option.splits)
  from hmget [OF hm] obtain t where t: "ks w1 = ks w" "during rnow w w1 t"
    and vs: "\<And>vs. hres = Inr vs \<Longrightarrow> (case ks_live t (ks w) ?k of
           None \<Rightarrow> vs = map (\<lambda>_. None) [''hash'', ''response'']
         | Some (RHash h) \<Rightarrow> vs = map (map_of h) [''hash'', ''response'']
         | Some _ \<Rightarrow> False)" by blast
  show "ks w' = ks w" "rnow w \<le> rnow w'" using t w1 by (auto simp: during_def)
  show "\<exists>x. kept_record unmarshal p (ks w) key = Some (hash, resp, x)" if "gres = Inr (Some (hash, resp))"
    using assms hm that vs
    by (auto simp: redis_GetCommandIdempotency_def io_bind_def kept_record_def ks_live_def
        split: sum.splits list.splits option.splits rvalue.splits if_splits)
  show "found = Some (h, r)" if "gres = Inr found" "kept_record unmarshal p (ks w) key = Some (h, r, x)"
    "\<forall>y. x = Some y \<longrightarrow> rnow w' < y"
  proof -
    from that(2) obtain hs payload where k: "ks w ?k = Some (RHash hs, x)" "map_of hs ''hash'' = Some h"
      "map_of hs ''response'' = Some payload" "unmarshal payload = Inr r"
      by (auto simp: kept_record_def split: option.splits rvalue.splits prod.splits sum.splits)
    with that(3) t(2) w1 have "ks_live t (ks w) ?k = Some (RHash hs)"
      by (auto simp: ks_live_def during_def split: option.splits)
    with vs k assms hm that(1) show ?thesis
      by (auto simp: redis_GetCommandIdempotency_def io_bind_def split: sum.splits)
  qed
qed

end

sublocale redis_commands \<subseteq> commands: command_store "redis_CommandStore marshal unmarshal \<lparr>rr_client = C, rr_prefix = p\<rparr>"
  "\<lambda>st. kept_record unmarshal p (ks (fst st))" "\<lambda>st. rnow (fst st)"
proof (unfold_locales, goal_cases)
  case (1 key hash resp ttl s u s')
  then show ?case using redis_save by (force simp: redis_CommandStore_def on_world_def split: prod.splits)
next
  case (2 key s gres s')
  then show ?case using redis_load(1,2) by (force simp: redis_CommandStore_def on_world_def split: prod.splits)
next
  case (3 key s hash resp s')
  then show ?case using redis_load(3) by (force simp: redis_CommandStore_def on_world_def split: prod.splits)
next
  case (4 key s found s' hash resp x)
  from 4(1) have g: "redis_GetCommandIdempotency unmarshal \<lparr>rr_client = C, rr_prefix = p\<rparr> key (fst s) = (Inr found, fst s')"
    by (auto simp: redis_CommandStore_def on_world_def split: prod.splits)
  from redis_load(4) [OF g refl 4(2,3)] show ?case .
qed

context redis_commands begin

lemmas stored_answer = commands.answer_kept
  and found_answer = commands.kept_answered

end

text \<open>
  C10. A command is run once across restarts: when a player server has answered it and stored the
  answer in Redis, another process with no records, which finds the entry as it was written and not yet expired,
  answers the same command with the same answer, or with a conflict when its payload has another hash, or with an
  error of Redis; it does nothing but read the entry.
\<close>

theorem command_survives_restart:
  assumes "redis_commands C ks rnow m u"
    and "idempotent_Dispatch marshal digest d req (s, records) = Some (Inr resp, s1, records1)"
    and "icd_store d = Some (redis_CommandStore m u \<lparr>rr_client = C, rr_prefix = p\<rparr>)"
      "records (commandIdempotencyKey req) = None"
    and "req_Uid req \<noteq> 0" "req_Seq req \<noteq> 0" "resp \<noteq> commandIdempotencyConflictResponse req"
    and "icd_store d2 = Some (redis_CommandStore m u \<lparr>rr_client = C, rr_prefix = p\<rparr>)"
    and "ks (fst s2) (redis_commandIdempotencyKey p (commandIdempotencyKey req)) =
         ks (fst s1) (redis_commandIdempotencyKey p (commandIdempotencyKey req))"
    and "\<forall>v x. ks (fst s1) (redis_commandIdempotencyKey p (commandIdempotencyKey req)) = Some (v, Some x) \<longrightarrow>
         rnow (fst (snd (GetCommandIdempotency (redis_CommandStore m u \<lparr>rr_client = C, rr_prefix = p\<rparr>)
           (commandIdempotencyKey req) s2))) < x"
    and "req_Uid req' = req_Uid req" "req_CommandId req' = req_CommandId req" "req_Seq req' = req_Seq req"
    and "commandRequestHash marshal digest req' = Inr hash'"
    and "idempotent_Dispatch marshal digest d2 req' (s2, Map.empty) = Some (r, s3, records3)"
  shows "s3 = snd (GetCommandIdempotency (redis_CommandStore m u \<lparr>rr_client = C, rr_prefix = p\<rparr>)
           (commandIdempotencyKey req) s2) \<and>
    (isl r \<or> r = Inr (if commandRequestHash marshal digest req = Inr hash' then resp
                      else commandIdempotencyConflictResponse req'))"
proof -
  let ?key = "commandIdempotencyKey req"
  have key: "commandIdempotencyKey req' = ?key"
    using assms(11-13) commandIdempotencyKey_inject by simp
  from redis_commands.stored_answer [OF assms(1-7)] obtain hash x where
    hash: "commandRequestHash marshal digest req = Inr hash"
    and kept: "kept_record u p (ks (fst s1)) ?key = Some (hash, resp, x)" by blast
  have kept2: "kept_record u p (ks (fst s2)) (commandIdempotencyKey req') = Some (hash, resp, x)"
    using kept assms(9) by (simp add: key kept_record_def)
  have "\<exists>v. ks (fst s1) (redis_commandIdempotencyKey p ?key) = Some (v, x)"
    using kept by (auto simp: kept_record_def split: option.splits rvalue.splits sum.splits)
  with assms(10) have "\<forall>y. x = Some y \<longrightarrow> rnow (fst (snd (GetCommandIdempotency
      (redis_CommandStore m u \<lparr>rr_client = C, rr_prefix = p\<rparr>) (commandIdempotencyKey req') s2))) < y"
    by (auto simp: key)
  with redis_commands.found_answer [OF assms(1) kept2 assms(8) _ _ assms(14,15)] assms(5,6,11,13) hash
  show ?thesis by (simp add: key)
qed

section \<open>Examples\<close>

text \<open>An encoding of responses without payload: the numbers and the message, joined by colons.\<close>

definition mem_marshal :: "CommandResponse \<Rightarrow> error + string" where
  "mem_marshal resp =
     (if resp_Payload resp = None \<and> list_all in_int64 [resp_CommandId resp, resp_Seq resp, resp_Code resp]
      then Inr (show_int (resp_CommandId resp) @ CHR '':'' # show_int (resp_Seq resp) @ CHR '':'' #
                show_int (resp_Code resp) @ CHR '':'' # resp_Message resp)
      else Inl mem_fault)"

definition split_colon :: "string \<Rightarrow> string \<times> string" where
  "split_colon s = (takeWhile (\<lambda>c. c \<noteq> CHR '':'') s, tl (dropWhile (\<lambda>c. c \<noteq> CHR '':'') s))"

lemma split_colon_append: "CHR '':'' \<notin> set xs \<Longrightarrow> split_colon (xs @ CHR '':'' # ys) = (xs, ys)"
  by (simp add: split_colon_def takeWhile_tail dropWhile_append)

definition mem_unmarshal :: "string \<Rightarrow> error + CommandResponse" where
  "mem_unmarshal s = (let (a, s1) = split_colon s; (b, s2) = split_colon s1; (c, msg) = split_colon s2
     in case (parse_int a, parse_int b, parse_int c) of
          (Some i, Some n, Some k) \<Rightarrow> Inr \<lparr>resp_CommandId = i, resp_Seq = n, resp_Code = k,
             resp_Message = msg, resp_Payload = None\<rparr>
        | _ \<Rightarrow> Inl mem_fault)"

interpretation mem_commands: redis_commands mem_redis mw_keys mem_now p mem_marshal mem_unmarshal for p
proof (intro redis_commands.intro redis_commands_axioms.intro mem_redis_laws)
  fix resp payload
  assume "mem_marshal resp = Inr payload"
  then show "mem_unmarshal payload = Inr resp"
    by (auto simp: mem_marshal_def mem_unmarshal_def split_colon_append split: if_splits)
qed

definition repeat_request :: "string \<Rightarrow> CommandRequest" where
  "repeat_request payload = \<lparr>req_CommandId = 9, req_Uid = 1, req_RoleId = 1, req_ServerId = 4, req_Seq = 3,
     req_Payload = Some \<lparr>any_TypeUrl = ''t'', any_Value = payload\<rparr>\<rparr>"

definition any_bytes :: "any_message option \<Rightarrow> error + string" where
  "any_bytes a = Inr (case a of None \<Rightarrow> '''' | Some m \<Rightarrow> any_Value m)"

definition unknown_response :: CommandResponse where
  "unknown_response = \<lparr>resp_CommandId = 9, resp_Seq = 3, resp_Code = 404, resp_Message = ''unknown command'',
     resp_Payload = None\<rparr>"


definition stored_dispatcher :: "(mem_world \<times> unit) IdempotentCommandDispatcher" where
  "stored_dispatcher = fst (NewIdempotentCommandDispatcherWithStore (registry_Dispatch NewCommandRegistry)
     (Some (redis_CommandStore mem_marshal mem_unmarshal \<lparr>rr_client = mem_redis, rr_prefix = ''p:''\<rparr>)) time_minute)"

theorem command_survives_restart_witness:
  "\<exists>w' records s3 records3. idempotent_Dispatch any_bytes id stored_dispatcher (repeat_request ''a'') ((cache_start, ()), Map.empty) =
     Some (Inr unknown_response, (w', ()), records) \<and>
   idempotent_Dispatch any_bytes id stored_dispatcher (repeat_request ''a'') ((w', ()), Map.empty) =
     Some (Inr unknown_response, s3, records3)"
proof -
  let ?run = "idempotent_Dispatch any_bytes id stored_dispatcher (repeat_request ''a'')"
  let ?store = "redis_CommandStore mem_marshal mem_unmarshal \<lparr>rr_client = mem_redis, rr_prefix = ''p:''\<rparr>"
  let ?key = "commandIdempotencyKey (repeat_request ''a'')"
  let ?k = "redis_commandIdempotencyKey ''p:'' ?key"
  have all: "case ?run ((cache_start, ()), Map.empty) of Some (Inr resp, (w', _), _) \<Rightarrow> resp = unknown_response \<and>
      (case ?run ((w', ()), Map.empty) of Some (Inr _, _, _) \<Rightarrow> True | _ \<Rightarrow> False) \<and>
      (case mw_keys w' ?k of Some (_, Some x) \<Rightarrow> mem_now (fst (snd (GetCommandIdempotency ?store ?key (w', ())))) < x | _ \<Rightarrow> False)
    | _ \<Rightarrow> False" by code_simp
  have "case ?run ((cache_start, ()), Map.empty) of Some (Inr _, _, _) \<Rightarrow> True | _ \<Rightarrow> False" by code_simp
  then obtain resp w' records where run: "?run ((cache_start, ()), Map.empty) = Some (Inr resp, (w', ()), records)"
    by (rule run_obtain) auto
  with all have first: "?run ((cache_start, ()), Map.empty) = Some (Inr unknown_response, (w', ()), records)" by simp
  have again: "case ?run ((w', ()), Map.empty) of Some (Inr _, _, _) \<Rightarrow> True | _ \<Rightarrow> False"
    "case mw_keys w' ?k of Some (_, Some x) \<Rightarrow> mem_now (fst (snd (GetCommandIdempotency ?store ?key (w', ())))) < x | _ \<Rightarrow> False"
    using all unfolding run by simp_all
  from again(1) obtain r s3 records3 where second: "?run ((w', ()), Map.empty) = Some (Inr r, s3, records3)"
    by (rule run_obtain)
  from again(2) obtain v x where live: "mw_keys w' ?k = Some (v, Some x)"
    "mem_now (fst (snd (GetCommandIdempotency ?store ?key (w', ())))) < x"
    by (cases "mw_keys w' ?k") (auto split: option.splits)
  have store: "icd_store stored_dispatcher = Some ?store"
    by (simp add: stored_dispatcher_def NewIdempotentCommandDispatcherWithStore_def NewIdempotentCommandDispatcher_def)
  have req: "req_Uid (repeat_request ''a'') \<noteq> 0" "req_Seq (repeat_request ''a'') \<noteq> 0"
    "unknown_response \<noteq> commandIdempotencyConflictResponse (repeat_request ''a'')"
    "commandRequestHash any_bytes id (repeat_request ''a'') = Inr ''a''"
    by (simp_all add: repeat_request_def unknown_response_def commandIdempotencyConflictResponse_def
        commandRequestHash_def any_bytes_def)
  from command_survives_restart [OF mem_commands.redis_commands_axioms first store _ req(1-3) store, where ?s2.0 = "(w', ())",
      OF _ _ _ _ _ _ req(4) second] live req(4)
  have "r = unknown_response" by auto
  with first second show ?thesis by blast
qed

end
