(* ===== verification/Event_Consumer.thy ===== *)
theory Event_Consumer
  imports Player_Mail Outbox_Relay Publisher
begin

text \<open>
  How a player server learns of new mails: the consumer of the change events
  (\<^verbatim>\<open>app/playersrv/event_consumer.go\<close>) and the poller of the shared version
  (\<^verbatim>\<open>app/playersrv/cache_poller.go\<close>). Both run on the world and the snapshot of the local cache.
  Their loops take a list with an entry for each turn: what other goroutines did to the state before
  it, and what they do during its refresh. \<open>None\<close> says that the loop is still running when the
  turns are used up.
\<close>

section \<open>The consumer\<close>

record 'w EventConsumer =
  ec_reader :: "('w, GlobalMailChangedEvent) io"
  ec_refresher :: "'w PlayerMailService"

definition NewEventConsumer ::
  "('w, GlobalMailChangedEvent) io \<Rightarrow> 'w PlayerMailService \<Rightarrow> 'w EventConsumer" where
  "NewEventConsumer reader refresher = \<lparr>ec_reader = reader, ec_refresher = refresher\<rparr>"

definition consumer_Handle ::
  "'w EventConsumer \<Rightarrow> GlobalMailChangedEvent \<Rightarrow> others \<Rightarrow> ('w, unit) player_io" where
  "consumer_Handle c event oth st =
     (if ch_Version event > 0 \<and> ch_Version event \<le> CacheVersion st then Some (Inr (), st)
      else ForceRefreshCache (ec_refresher c) oth st)"

type_synonym 'w turn = "('w player_state \<Rightarrow> 'w player_state) \<times> others"

fun consumer_Run :: "'w EventConsumer \<Rightarrow> 'w turn list \<Rightarrow> ('w, unit) player_io" where
  "consumer_Run c [] st = None"
| "consumer_Run c ((meanwhile, oth) # turns) st = (case meanwhile st of (w, snapshot) \<Rightarrow>
     (case ec_reader c w of
        (Inl e, w1) \<Rightarrow>
          Some (if e = ContextCanceled \<or> e = ContextDeadlineExceeded then Inr () else Inl e, w1, snapshot)
      | (Inr event, w1) \<Rightarrow> (case consumer_Handle c event oth (w1, snapshot) of
            None \<Rightarrow> None
          | Some (Inl e, st1) \<Rightarrow> Some (Inl e, st1)
          | Some (Inr _, st1) \<Rightarrow> consumer_Run c turns st1)))"

section \<open>The poller\<close>

text \<open>
  The choices of the \<^verbatim>\<open>select\<close>: the context is done with an error, or the ticker fires. An error of
  the refresh is only logged.
\<close>

definition poll_interval :: "duration \<Rightarrow> duration" where
  "poll_interval interval = (if interval \<le> 0 then 30 * time_second else interval)"

fun RunGlobalMailCachePoller ::
  "'w PlayerMailService \<Rightarrow> (error + 'w turn) list \<Rightarrow> 'w player_state \<Rightarrow> (error \<times> 'w player_state) option" where
  "RunGlobalMailCachePoller s [] st = None"
| "RunGlobalMailCachePoller s (Inl e # choices) st = Some (e, st)"
| "RunGlobalMailCachePoller s (Inr (meanwhile, oth) # choices) st =
     (case RefreshCache s oth (meanwhile st) of
        None \<Rightarrow> None
      | Some (_, st1) \<Rightarrow> RunGlobalMailCachePoller s choices st1)"

section \<open>What a refresh does with the version\<close>

context cache_reader
begin

lemma refresh_keeps_ok:
  assumes "ok w" "GetGlobalMailVersion (lc_cache c) w = (Inr v, w1)"
  shows "v = sc_version (sc w)" "ok w1" "sc w1 = sc w"
  using version [OF assms] by auto

lemma forced_version:
  assumes "ok w" "ForceRefresh c locked wakes (w, s) = Some (Inr (), w', s')"
  shows "cs_Version s' = sc_version (sc w)"
proof -
  from assms(2) obtain v w1 where v: "GetGlobalMailVersion (lc_cache c) w = (Inr v, w1)"
    and run: "cache_refresh c v wakes (w1, locked s) = Some (Inr (), w', s')"
    by (auto simp: ForceRefresh_def split: prod.splits sum.splits)
  from cache_refresh_result [OF run] obtain now mails where "s' = build_snapshot v now mails" by auto
  with refresh_keeps_ok [OF assms(1) v] show ?thesis
    by (simp add: build_snapshot_def fold_add_mail_keeps empty_snapshot_def)
qed

lemma fresh_unchanged:
  assumes "ok w" "sc_version (sc w) \<le> cs_Version s"
    and "RefreshIfStale c locked wakes (w, s) = Some (res, w', s')"
  shows "s' = s \<and> sc w' = sc w \<and> ok w'"
proof -
  obtain ires w1 where g: "GetGlobalMailVersion (lc_cache c) w = (ires, w1)" by fastforce
  from version [OF assms(1) g] assms(2,3) g show ?thesis
    by (cases ires) (auto simp: RefreshIfStale_def)
qed

end

context redis_player
begin

lemmas version_after_force = reader.forced_version
  and version_unchanged = reader.fresh_unchanged
  and version_read = reader.refresh_keeps_ok

lemma served_mail:
  assumes "cache_ok p (ks w)" "lc_now c w = (now, w1)" "loadFromSharedCache c now w1 = (lres, w2)"
    and "cache_refresh c version wakes (w, s) = Some (Inr (), w', s')"
    and "\<forall>i x. sc_active (view p (ks w)) i = Some x \<longrightarrow> Unix now \<le> x \<longrightarrow>
        (\<exists>m e. sc_mail (view p (ks w)) i = Some (m, e) \<and> (\<forall>x. e = Some x \<longrightarrow> rnow w2 < x))"
    and "sc_active (view p (ks w)) i = Some x" "Unix now \<le> x" "sc_mail (view p (ks w)) i = Some (m, e)"
  shows "cs_MailsByID s' i = Some m" (is ?cached)
    and "eligible profile (fst (lc_now c w3)) m \<Longrightarrow>
      names_server (prof_ServerID profile) m \<or> cs_MailIDsByServer s' (prof_ServerID profile) = [] \<Longrightarrow>
      m \<in> set (fst (VisibleMails c profile (w3, s')))"
proof -
  from serves_redis [OF assms(1-4,6,7)] assms(5) obtain mails where mails:
    "s' = build_snapshot version now mails" "distinct (map mail_ID mails)"
    "\<And>m. m \<in> set mails \<longleftrightarrow> (\<exists>x e. sc_active (view p (ks w)) (mail_ID m) = Some x \<and> Unix now \<le> x \<and>
          sc_mail (view p (ks w)) (mail_ID m) = Some (m, e))" by blast
  have "mail_ID m = i" using found_key [OF assms(1,8)] .
  with assms(6-8) have m: "m \<in> set mails" "mail_ID m = i" unfolding mails(3) by blast+
  then show ?cached unfolding mails(1) snapshot_mails [OF mails(2)] by blast
  from mail_shown [OF mails(2) m(1), of profile c w3 version now, folded mails(1)]
  show "m \<in> set (fst (VisibleMails c profile (w3, s')))" if "eligible profile (fst (lc_now c w3)) m"
    "names_server (prof_ServerID profile) m \<or> cs_MailIDsByServer s' (prof_ServerID profile) = []"
    using that by simp
qed

end

section \<open>Properties\<close>

text \<open>
  A change event that is handled without an error brings the cache up to date: if the version
  in Redis has reached the version of the event, as it has when the relay announces the event, then
  the snapshot carries at least that version afterwards.
\<close>

lemma handled_event_catches_up:
  assumes "redis_player C ks rnow p (pms_cache (ec_refresher c))" "cache_ok p (ks w)"
    and "ch_Version event \<le> sc_version (view p (ks w))"
    and "consumer_Handle c event oth (w, sn) = Some (Inr (), w', sn')"
  shows "ch_Version event \<le> cs_Version sn'"
proof (cases "ch_Version event > 0 \<and> ch_Version event \<le> cs_Version sn")
  case True
  with assms(4) show ?thesis by (simp add: consumer_Handle_def CacheVersion_def)
next
  case False
  with assms(4) have "ForceRefresh (pms_cache (ec_refresher c)) (fst oth) (snd oth) (w, sn) = Some (Inr (), w', sn')"
    by (simp add: consumer_Handle_def CacheVersion_def ForceRefreshCache_def split: if_splits)
  with redis_player.version_after_force [OF assms(1,2)] assms(3) show ?thesis by simp
qed

lemma poll_unchanged:
  assumes "redis_player C ks rnow p (pms_cache s)" "cache_ok p (ks w)" "sc_version (view p (ks w)) \<le> cs_Version sn"
    and "RunGlobalMailCachePoller s (map (\<lambda>oth. Inr (\<lambda>st. st, oth)) os @ [Inl e]) (w, sn) = Some (r, w', sn')"
  shows "sn' = sn"
  using assms(2-4)
proof (induction os arbitrary: w)
  case (Cons oth os)
  from Cons.prems(3) obtain res w1 sn1 where
    run: "RefreshIfStale (pms_cache s) (fst oth) (snd oth) (w, sn) = Some (res, w1, sn1)"
    and rest: "RunGlobalMailCachePoller s (map (\<lambda>oth. Inr (\<lambda>st. st, oth)) os @ [Inl e]) (w1, sn1) = Some (r, w', sn')"
    by (auto simp: RefreshCache_def split: option.splits)
  from redis_player.version_unchanged [OF assms(1) Cons.prems(1,2) run]
  have "sn1 = sn" "view p (ks w1) = view p (ks w)" "cache_ok p (ks w1)" by auto
  with Cons.IH Cons.prems(2) rest show ?case by simp
qed simp

text \<open>
  A mail published later goes unnoticed. Every mail is published with version 1, so the version
  in Redis stays 1 after the first mail; a player server that serves version 1 ignores the announcement
  of the next mail and polls without ever loading it, however often: its snapshot stays the same.
\<close>

lemma later_mail_unnoticed:
  assumes "redis_player C ks rnow p (pms_cache s)" "cache_ok p (ks w)"
    and "sc_version (view p (ks w)) \<le> 1" "1 \<le> cs_Version sn"
  shows "consumer_Handle (NewEventConsumer reader s)
      (changed_event (published_mail cmd now mailID) action eventID now) oth (w, sn) = Some (Inr (), w, sn) \<and>
    (\<forall>os e r w' sn'. RunGlobalMailCachePoller s (map (\<lambda>oth. Inr (\<lambda>st. st, oth)) os @ [Inl e]) (w, sn) =
       Some (r, w', sn') \<longrightarrow> sn' = sn)"
proof -
  have "sc_version (view p (ks w)) \<le> cs_Version sn" using assms(3,4) by linarith
  with poll_unchanged [OF assms(1,2)] assms(4) show ?thesis
    by (auto simp: consumer_Handle_def CacheVersion_def changed_event_def published_mail_def NewEventConsumer_def)
qed

section \<open>Runs on the memory engines\<close>

interpretation mem_notified: redis_player mem_redis mw_keys mem_now "''p:''" "pms_cache mem_service"
  by unfold_locales (auto dest: mem_clock_now)

text \<open>Redis after the relay has projected a mail, which is mail 5, with version 1.\<close>

definition projected_world :: mem_world where
  "projected_world = snd (redis_AdvanceGlobalMailVersion \<lparr>rr_client = mem_redis, rr_prefix = ''p:''\<rparr> 1 cache_filled)"

lemma projected_world_view:
  "cache_ok ''p:'' (mw_keys projected_world)"
  "sc_version (view ''p:'' (mw_keys projected_world)) = 1"
  "sc_active (view ''p:'' (mw_keys projected_world)) = [5 \<mapsto> Unix (64000000000 * time_second)]"
  "sc_mail (view ''p:'' (mw_keys projected_world)) = sc_mail (view ''p:'' (mw_keys cache_filled))"
proof -
  let ?r = "\<lparr>rr_client = mem_redis, rr_prefix = ''p:''\<rparr>" and ?v = "\<lambda>w. view ''p:'' (mw_keys w)"
  obtain ires w where a: "redis_AdvanceGlobalMailVersion ?r 1 cache_filled = (ires, w)" by fastforce
  have "\<not> isl (fst (redis_AdvanceGlobalMailVersion ?r 1 cache_filled))" by code_simp
  then obtain n where n: "ires = Inr n" by (cases ires) (auto simp: a)
  have "in_int64 1" by (simp add: in_int64_def)
  from mem_repo.advance_view [OF cache_filled_view(1) this a] n
  have "cache_ok ''p:'' (mw_keys w)" "?v w = (?v cache_filled)\<lparr>sc_version := max (sc_version (?v cache_filled)) 1\<rparr>"
    by (simp_all add: commits_def)
  moreover have "sc_version (?v cache_filled) = 0" by code_simp
  ultimately show "cache_ok ''p:'' (mw_keys projected_world)" "sc_version (?v projected_world) = 1"
    "sc_active (?v projected_world) = [5 \<mapsto> Unix (64000000000 * time_second)]"
    "sc_mail (?v projected_world) = sc_mail (?v cache_filled)"
    by (simp_all add: projected_world_def a cache_filled_view(2))
qed

end
