(* ===== verification/Request_Queue.thy ===== *)
theory Request_Queue
  imports Command_Service
begin

text \<open>
  The queue in front of the commands of a player server (\<^verbatim>\<open>app/playersrv/request_queue.go\<close>). A
  request passes four kinds of goroutines: its caller in \<^verbatim>\<open>Dispatch\<close>, the lane of its role in \<^verbatim>\<open>run\<close> and
  \<^verbatim>\<open>handle\<close>, the goroutine that \<^verbatim>\<open>handle\<close> starts for the dispatcher, and whoever ends the context or closes
  the queue. The model has a program counter for each of them and one atomic step for each channel
  operation; where the code selects, the step takes the chosen case as an argument, and a case is
  possible when its channel is ready. The call of the dispatcher is one step.
\<close>

section \<open>Options and state\<close>

record CommandQueueOptions =
  qo_Workers :: int
  qo_Capacity :: int
  qo_RoleQueueCapacity :: int
  qo_RequestTimeout :: duration

text \<open>The fixed part of \<^verbatim>\<open>CommandRequestQueue\<close>: the sizes of its channels and the timeout.\<close>

record 's queue_config =
  qc_dispatcher :: "'s CommandDispatcher"
  qc_workers :: nat
  qc_capacity :: nat
  qc_role_capacity :: nat
  qc_timeout :: duration

type_synonym commandResult = "error + CommandResponse"

text \<open>Where the caller of \<^verbatim>\<open>Dispatch\<close> stands: before each \<^verbatim>\<open>select\<close>, or returned.\<close>

datatype caller = Starting | Admitted | InLane | Waiting | Returned commandResult

text \<open>Where the lane stands with the job.\<close>

datatype stage = Unqueued | Queued | Begun | Acquiring | Serving | Finishing | Handled

text \<open>Where the goroutine stands that calls the dispatcher.\<close>

datatype worker = NoWorker | Running | Releasing | Exited

text \<open>
  A job. \<open>cj_held\<close> and \<open>cj_slot\<close> say that the job has put a token into the capacity and the worker
  channel and that the \<^verbatim>\<open>sync.Once\<close> of its release has not run.
\<close>

record commandJob =
  cj_req :: CommandRequest
  cj_parent :: "error option"
  cj_ctx :: "error option"
  cj_held :: bool
  cj_result :: "commandResult option"
  cj_caller :: caller
  cj_stage :: stage
  cj_worker :: worker
  cj_slot :: bool
  cj_inner :: "commandResult option"

record commandRoleLane =
  ln_jobs :: "nat list"
  ln_current :: "nat option"
  ln_exited :: bool

record 's CommandRequestQueue =
  q_capacity :: nat
  q_slots :: nat
  q_done :: bool
  q_lanes :: "int \<rightharpoonup> commandRoleLane"
  q_jobs :: "commandJob list"
  q_world :: 's

definition queue_options :: "CommandQueueOptions \<Rightarrow> CommandQueueOptions" where
  "queue_options opts = opts
     \<lparr>qo_Workers := (if qo_Workers opts \<le> 0 then 4 else qo_Workers opts),
      qo_Capacity := (if qo_Capacity opts \<le> 0 then 1024 else qo_Capacity opts),
      qo_RoleQueueCapacity := (if qo_RoleQueueCapacity opts \<le> 0 then 32 else qo_RoleQueueCapacity opts)\<rparr>"

definition NewCommandRequestQueue ::
  "'s CommandDispatcher \<Rightarrow> CommandQueueOptions \<Rightarrow> 's \<Rightarrow> 's queue_config \<times> 's CommandRequestQueue" where
  "NewCommandRequestQueue dispatcher opts world = (let opts = queue_options opts in
     (\<lparr>qc_dispatcher = dispatcher, qc_workers = nat (qo_Workers opts), qc_capacity = nat (qo_Capacity opts),
       qc_role_capacity = nat (qo_RoleQueueCapacity opts), qc_timeout = qo_RequestTimeout opts\<rparr>,
      \<lparr>q_capacity = 0, q_slots = 0, q_done = False, q_lanes = Map.empty, q_jobs = [], q_world = world\<rparr>))"

definition ErrCommandQueueClosed :: error where
  "ErrCommandQueueClosed = ErrorNew ''command queue closed''"

definition commandRoleID :: "CommandRequest \<Rightarrow> int" where
  "commandRoleID req = (if req_RoleId req \<noteq> 0 then req_RoleId req else req_Uid req)"

definition commandQueueFullResponse :: "CommandRequest \<Rightarrow> CommandResponse" where
  "commandQueueFullResponse req = \<lparr>resp_CommandId = req_CommandId req, resp_Seq = req_Seq req, resp_Code = 429,
     resp_Message = ''command queue full'', resp_Payload = None\<rparr>"

definition commandTimeoutResponse :: "CommandRequest \<Rightarrow> CommandResponse" where
  "commandTimeoutResponse req = \<lparr>resp_CommandId = req_CommandId req, resp_Seq = req_Seq req, resp_Code = 504,
     resp_Message = ''command request timeout'', resp_Payload = None\<rparr>"

definition contextDoneResponse :: "error option \<Rightarrow> error \<Rightarrow> CommandRequest \<Rightarrow> commandResult" where
  "contextDoneResponse parent dispatch req =
     (if dispatch = ContextDeadlineExceeded \<and> parent = None then Inr (commandTimeoutResponse req) else Inl dispatch)"

section \<open>Tokens\<close>

definition set_job :: "nat \<Rightarrow> (commandJob \<Rightarrow> commandJob) \<Rightarrow> 's CommandRequestQueue \<Rightarrow> 's CommandRequestQueue" where
  "set_job j f s = s\<lparr>q_jobs := (q_jobs s)[j := f (q_jobs s ! j)]\<rparr>"

text \<open>Receiving from an empty channel blocks: \<open>None\<close>.\<close>

definition releaseCapacity :: "nat \<Rightarrow> 's CommandRequestQueue \<Rightarrow> 's CommandRequestQueue option" where
  "releaseCapacity j s =
     (if \<not> cj_held (q_jobs s ! j) then Some s
      else if q_capacity s = 0 then None
      else Some (set_job j (cj_held_update (\<lambda>_. False)) (s\<lparr>q_capacity := q_capacity s - 1\<rparr>)))"

definition releaseWorker :: "nat \<Rightarrow> 's CommandRequestQueue \<Rightarrow> 's CommandRequestQueue option" where
  "releaseWorker j s =
     (if \<not> cj_slot (q_jobs s ! j) then Some s
      else if q_slots s = 0 then None
      else Some (set_job j (cj_slot_update (\<lambda>_. False)) (s\<lparr>q_slots := q_slots s - 1\<rparr>)))"

section \<open>The caller\<close>

datatype select_case = CtxDone | QueueDone | Ready | Default

text \<open>\<^verbatim>\<open>return\<close> from \<^verbatim>\<open>Dispatch\<close>, with the deferred \<^verbatim>\<open>cancel\<close> of the context that has the timeout.\<close>

definition dispatch_return :: "'s queue_config \<Rightarrow> nat \<Rightarrow> commandResult \<Rightarrow> 's CommandRequestQueue \<Rightarrow> 's CommandRequestQueue" where
  "dispatch_return c j r = set_job j (\<lambda>job. job\<lparr>cj_caller := Returned r,
     cj_ctx := (if qc_timeout c > 0 \<and> cj_ctx job = None then Some ContextCanceled else cj_ctx job)\<rparr>)"

definition context_return :: "'s queue_config \<Rightarrow> nat \<Rightarrow> 's CommandRequestQueue \<Rightarrow> 's CommandRequestQueue option" where
  "context_return c j s = (let job = q_jobs s ! j in case cj_ctx job of
       None \<Rightarrow> None
     | Some e \<Rightarrow> Some (dispatch_return c j (contextDoneResponse (cj_parent job) e (cj_req job)) s))"

definition closed_return :: "'s queue_config \<Rightarrow> nat \<Rightarrow> 's CommandRequestQueue \<Rightarrow> 's CommandRequestQueue option" where
  "closed_return c j s =
     (if q_done s then Some (dispatch_return c j (Inl ErrCommandQueueClosed) s) else None)"

definition full_return :: "'s queue_config \<Rightarrow> nat \<Rightarrow> 's CommandRequestQueue \<Rightarrow> 's CommandRequestQueue option" where
  "full_return c j s = (let job = q_jobs s ! j in
     if cj_ctx job \<noteq> None \<or> q_done s then None
     else Some (dispatch_return c j (Inr (commandQueueFullResponse (cj_req job))) s))"

definition dispatch_start :: "CommandRequest \<Rightarrow> error option \<Rightarrow> 's CommandRequestQueue \<Rightarrow> 's CommandRequestQueue" where
  "dispatch_start req parent s = s\<lparr>q_jobs := q_jobs s @ [\<lparr>cj_req = req, cj_parent = parent, cj_ctx = parent,
     cj_held = False, cj_result = None, cj_caller = Starting, cj_stage = Unqueued, cj_worker = NoWorker,
     cj_slot = False, cj_inner = None\<rparr>]\<rparr>"

text \<open>The first \<^verbatim>\<open>select\<close>: a token of the capacity.\<close>

fun dispatch_admit :: "'s queue_config \<Rightarrow> select_case \<Rightarrow> nat \<Rightarrow> 's CommandRequestQueue \<Rightarrow> 's CommandRequestQueue option" where
  "dispatch_admit c CtxDone j s = context_return c j s"
| "dispatch_admit c QueueDone j s = closed_return c j s"
| "dispatch_admit c Ready j s =
     (if q_capacity s < qc_capacity c
      then Some (set_job j (\<lambda>job. job\<lparr>cj_held := True, cj_caller := Admitted\<rparr>) (s\<lparr>q_capacity := q_capacity s + 1\<rparr>))
      else None)"
| "dispatch_admit c Default j s = (if q_capacity s < qc_capacity c then None else full_return c j s)"

text \<open>The lane of a role, with its goroutine, is made on the first use.\<close>

definition laneFor :: "nat \<Rightarrow> 's CommandRequestQueue \<Rightarrow> 's CommandRequestQueue" where
  "laneFor j s = (let roleID = commandRoleID (cj_req (q_jobs s ! j)) in
     set_job j (cj_caller_update (\<lambda>_. InLane))
       (case q_lanes s roleID of
          Some _ \<Rightarrow> s
        | None \<Rightarrow> s\<lparr>q_lanes := (q_lanes s)(roleID \<mapsto> \<lparr>ln_jobs = [], ln_current = None, ln_exited = False\<rparr>)\<rparr>))"

text \<open>The second \<^verbatim>\<open>select\<close>: a place in the lane.\<close>

fun dispatch_enqueue :: "'s queue_config \<Rightarrow> select_case \<Rightarrow> nat \<Rightarrow> 's CommandRequestQueue \<Rightarrow> 's CommandRequestQueue option" where
  "dispatch_enqueue c CtxDone j s =
     (if cj_ctx (q_jobs s ! j) = None then None else Option.bind (releaseCapacity j s) (context_return c j))"
| "dispatch_enqueue c QueueDone j s =
     (if \<not> q_done s then None else Option.bind (releaseCapacity j s) (closed_return c j))"
| "dispatch_enqueue c Ready j s = (let roleID = commandRoleID (cj_req (q_jobs s ! j)) in case q_lanes s roleID of
       None \<Rightarrow> None
     | Some lane \<Rightarrow>
         if length (ln_jobs lane) < qc_role_capacity c
         then Some (set_job j (\<lambda>job. job\<lparr>cj_caller := Waiting, cj_stage := Queued\<rparr>)
                (s\<lparr>q_lanes := (q_lanes s)(roleID \<mapsto> lane\<lparr>ln_jobs := ln_jobs lane @ [j]\<rparr>)\<rparr>))
         else None)"
| "dispatch_enqueue c Default j s = (case q_lanes s (commandRoleID (cj_req (q_jobs s ! j))) of
       None \<Rightarrow> None
     | Some lane \<Rightarrow>
         if length (ln_jobs lane) < qc_role_capacity c \<or> cj_ctx (q_jobs s ! j) \<noteq> None \<or> q_done s then None
         else Option.bind (releaseCapacity j s) (full_return c j))"

text \<open>The third \<^verbatim>\<open>select\<close>: the result.\<close>

fun dispatch_wait :: "'s queue_config \<Rightarrow> select_case \<Rightarrow> nat \<Rightarrow> 's CommandRequestQueue \<Rightarrow> 's CommandRequestQueue option" where
  "dispatch_wait c CtxDone j s =
     (if cj_ctx (q_jobs s ! j) = None then None else Option.bind (releaseCapacity j s) (context_return c j))"
| "dispatch_wait c QueueDone j s =
     (if \<not> q_done s then None else Option.bind (releaseCapacity j s) (closed_return c j))"
| "dispatch_wait c Ready j s = (case cj_result (q_jobs s ! j) of
       None \<Rightarrow> None
     | Some res \<Rightarrow> Some (dispatch_return c j
         (if res = Inl ContextDeadlineExceeded then Inr (commandTimeoutResponse (cj_req (q_jobs s ! j))) else res)
         (set_job j (cj_result_update (\<lambda>_. None)) s)))"
| "dispatch_wait c Default j s = None"

section \<open>Lanes and workers\<close>

definition set_lane :: "int \<Rightarrow> commandRoleLane \<Rightarrow> 's CommandRequestQueue \<Rightarrow> 's CommandRequestQueue" where
  "set_lane r lane s = s\<lparr>q_lanes := (q_lanes s)(r \<mapsto> lane)\<rparr>"

text \<open>The \<^verbatim>\<open>select\<close> in the loop of the lane, between two jobs.\<close>

definition lane_run :: "select_case \<Rightarrow> int \<Rightarrow> 's CommandRequestQueue \<Rightarrow> 's CommandRequestQueue option" where
  "lane_run choice r s = (case q_lanes s r of
       None \<Rightarrow> None
     | Some lane \<Rightarrow>
         if ln_exited lane \<or> ln_current lane \<noteq> None then None
         else (case choice of
             QueueDone \<Rightarrow> if q_done s then Some (set_lane r (lane\<lparr>ln_exited := True\<rparr>) s) else None
           | Ready \<Rightarrow> (case ln_jobs lane of
                 [] \<Rightarrow> None
               | j # jobs \<Rightarrow> Some (set_job j (cj_stage_update (\<lambda>_. Begun))
                     (set_lane r (lane\<lparr>ln_jobs := jobs, ln_current := Some j\<rparr>) s)))
           | _ \<Rightarrow> None))"

text \<open>\<^verbatim>\<open>job.result <- r\<close>: the channel has room for the one result of the job.\<close>

definition send_result :: "nat \<Rightarrow> commandResult \<Rightarrow> 's CommandRequestQueue \<Rightarrow> 's CommandRequestQueue" where
  "send_result j r = set_job j (\<lambda>job. job\<lparr>cj_result := Some r, cj_stage := Finishing\<rparr>)"

definition send_context_error :: "nat \<Rightarrow> 's CommandRequestQueue \<Rightarrow> 's CommandRequestQueue option" where
  "send_context_error j s = map_option (\<lambda>e. send_result j (Inl e) s) (cj_ctx (q_jobs s ! j))"

fun handle_begin :: "select_case \<Rightarrow> nat \<Rightarrow> 's CommandRequestQueue \<Rightarrow> 's CommandRequestQueue option" where
  "handle_begin CtxDone j s = send_context_error j s"
| "handle_begin Default j s = (if cj_ctx (q_jobs s ! j) \<noteq> None then None
     else Some (set_job j (cj_stage_update (\<lambda>_. Acquiring)) s))"
| "handle_begin _ j s = None"

text \<open>The \<^verbatim>\<open>select\<close> of \<^verbatim>\<open>acquireWorker\<close>: the error it returns, none when it has put a token into the worker channel.\<close>

fun acquireWorker :: "'s queue_config \<Rightarrow> select_case \<Rightarrow> nat \<Rightarrow> 's CommandRequestQueue \<Rightarrow> (error option \<times> 's CommandRequestQueue) option" where
  "acquireWorker c CtxDone j s = map_option (\<lambda>e. (Some e, s)) (cj_ctx (q_jobs s ! j))"
| "acquireWorker c QueueDone j s = (if q_done s then Some (Some ErrCommandQueueClosed, s) else None)"
| "acquireWorker c Ready j s = (if q_slots s < qc_workers c then Some (None, s\<lparr>q_slots := q_slots s + 1\<rparr>) else None)"
| "acquireWorker c Default j s = None"

text \<open>An error goes to the caller; with a slot the goroutine of the dispatcher is started.\<close>

definition handle_acquire :: "'s queue_config \<Rightarrow> select_case \<Rightarrow> nat \<Rightarrow> 's CommandRequestQueue \<Rightarrow> 's CommandRequestQueue option" where
  "handle_acquire c choice j s = map_option (\<lambda>(err, s). case err of
       Some e \<Rightarrow> send_result j (Inl e) s
     | None \<Rightarrow> set_job j (\<lambda>job. job\<lparr>cj_stage := Serving, cj_worker := Running, cj_slot := True\<rparr>) s) (acquireWorker c choice j s)"

lemma handle_acquire_simps [simp]:
  "handle_acquire c CtxDone j s = send_context_error j s"
  "handle_acquire c QueueDone j s = (if q_done s then Some (send_result j (Inl ErrCommandQueueClosed) s) else None)"
  "handle_acquire c Ready j s = (if q_slots s < qc_workers c
     then Some (set_job j (\<lambda>job. job\<lparr>cj_stage := Serving, cj_worker := Running, cj_slot := True\<rparr>)
            (s\<lparr>q_slots := q_slots s + 1\<rparr>))
     else None)"
  "handle_acquire c Default j s = None"
  by (simp_all add: handle_acquire_def send_context_error_def option.map_comp comp_def)

fun handle_serve :: "select_case \<Rightarrow> nat \<Rightarrow> 's CommandRequestQueue \<Rightarrow> 's CommandRequestQueue option" where
  "handle_serve CtxDone j s = (if cj_ctx (q_jobs s ! j) = None then None
     else Option.bind (releaseWorker j s) (send_context_error j))"
| "handle_serve Ready j s = (case cj_inner (q_jobs s ! j) of
       None \<Rightarrow> None
     | Some r \<Rightarrow> Some (send_result j r (set_job j (cj_inner_update (\<lambda>_. None)) s)))"
| "handle_serve _ j s = None"

text \<open>The deferred release at the end of \<^verbatim>\<open>handle\<close>, and back to the loop of the lane.\<close>

definition handle_return :: "nat \<Rightarrow> 's CommandRequestQueue \<Rightarrow> 's CommandRequestQueue option" where
  "handle_return j s = (let r = commandRoleID (cj_req (q_jobs s ! j)) in case q_lanes s r of
       None \<Rightarrow> None
     | Some lane \<Rightarrow> map_option (\<lambda>s. set_job j (cj_stage_update (\<lambda>_. Handled)) (set_lane r (lane\<lparr>ln_current := None\<rparr>) s))
         (releaseCapacity j s))"

definition worker_dispatch :: "'s queue_config \<Rightarrow> nat \<Rightarrow> 's CommandRequestQueue \<Rightarrow> 's CommandRequestQueue option" where
  "worker_dispatch c j s = (case qc_dispatcher c (cj_req (q_jobs s ! j)) (q_world s) of
       None \<Rightarrow> None
     | Some (r, w) \<Rightarrow> Some (set_job j (\<lambda>job. job\<lparr>cj_inner := Some r, cj_worker := Releasing\<rparr>) (s\<lparr>q_world := w\<rparr>)))"

definition worker_release :: "nat \<Rightarrow> 's CommandRequestQueue \<Rightarrow> 's CommandRequestQueue option" where
  "worker_release j s = map_option (set_job j (cj_worker_update (\<lambda>_. Exited))) (releaseWorker j s)"

section \<open>Steps\<close>

text \<open>\<^verbatim>\<open>Close\<close> closes the channel \<^verbatim>\<open>done\<close> once and then waits for the lanes.\<close>

definition queue_Close :: "'s CommandRequestQueue \<Rightarrow> 's CommandRequestQueue" where
  "queue_Close s = s\<lparr>q_done := True\<rparr>"

definition Close_returns :: "'s CommandRequestQueue \<Rightarrow> bool" where
  "Close_returns s \<longleftrightarrow> q_done s \<and> (\<forall>r lane. q_lanes s r = Some lane \<longrightarrow> ln_exited lane)"

datatype action =
    Submit CommandRequest "error option" | ParentDone nat error | TimeoutFires nat | Close
  | Admit select_case nat | LaneFor nat | Enqueue select_case nat | Wait select_case nat
  | LaneRun select_case int
  | HandleBegin select_case nat | Acquire select_case nat | Serve select_case nat | HandleReturn nat
  | WorkerDispatch nat | WorkerRelease nat

text \<open>The goroutine of the action is at the place in the code where it does it.\<close>

fun at_action :: "'s CommandRequestQueue \<Rightarrow> action \<Rightarrow> bool" where
  "at_action s (Submit req parent) \<longleftrightarrow> True"
| "at_action s (ParentDone j e) \<longleftrightarrow> j < length (q_jobs s) \<and> cj_parent (q_jobs s ! j) = None"
| "at_action s (TimeoutFires j) \<longleftrightarrow> j < length (q_jobs s) \<and> cj_ctx (q_jobs s ! j) = None"
| "at_action s Close \<longleftrightarrow> True"
| "at_action s (Admit choice j) \<longleftrightarrow> j < length (q_jobs s) \<and> cj_caller (q_jobs s ! j) = Starting"
| "at_action s (LaneFor j) \<longleftrightarrow> j < length (q_jobs s) \<and> cj_caller (q_jobs s ! j) = Admitted"
| "at_action s (Enqueue choice j) \<longleftrightarrow> j < length (q_jobs s) \<and> cj_caller (q_jobs s ! j) = InLane"
| "at_action s (Wait choice j) \<longleftrightarrow> j < length (q_jobs s) \<and> cj_caller (q_jobs s ! j) = Waiting"
| "at_action s (LaneRun choice r) \<longleftrightarrow> True"
| "at_action s (HandleBegin choice j) \<longleftrightarrow> j < length (q_jobs s) \<and> cj_stage (q_jobs s ! j) = Begun"
| "at_action s (Acquire choice j) \<longleftrightarrow> j < length (q_jobs s) \<and> cj_stage (q_jobs s ! j) = Acquiring"
| "at_action s (Serve choice j) \<longleftrightarrow> j < length (q_jobs s) \<and> cj_stage (q_jobs s ! j) = Serving"
| "at_action s (HandleReturn j) \<longleftrightarrow> j < length (q_jobs s) \<and> cj_stage (q_jobs s ! j) = Finishing"
| "at_action s (WorkerDispatch j) \<longleftrightarrow> j < length (q_jobs s) \<and> cj_worker (q_jobs s ! j) = Running"
| "at_action s (WorkerRelease j) \<longleftrightarrow> j < length (q_jobs s) \<and> cj_worker (q_jobs s ! j) = Releasing"

fun do_action :: "'s queue_config \<Rightarrow> action \<Rightarrow> 's CommandRequestQueue \<Rightarrow> 's CommandRequestQueue option" where
  "do_action c (Submit req parent) s = Some (dispatch_start req parent s)"
| "do_action c (ParentDone j e) s = Some (set_job j (\<lambda>job. job\<lparr>cj_parent := Some e,
     cj_ctx := (if cj_ctx job = None then Some e else cj_ctx job)\<rparr>) s)"
| "do_action c (TimeoutFires j) s = (if qc_timeout c > 0
     then Some (set_job j (cj_ctx_update (\<lambda>_. Some ContextDeadlineExceeded)) s) else None)"
| "do_action c Close s = Some (queue_Close s)"
| "do_action c (Admit choice j) s = dispatch_admit c choice j s"
| "do_action c (LaneFor j) s = Some (laneFor j s)"
| "do_action c (Enqueue choice j) s = dispatch_enqueue c choice j s"
| "do_action c (Wait choice j) s = dispatch_wait c choice j s"
| "do_action c (LaneRun choice r) s = lane_run choice r s"
| "do_action c (HandleBegin choice j) s = handle_begin choice j s"
| "do_action c (Acquire choice j) s = handle_acquire c choice j s"
| "do_action c (Serve choice j) s = handle_serve choice j s"
| "do_action c (HandleReturn j) s = handle_return j s"
| "do_action c (WorkerDispatch j) s = worker_dispatch c j s"
| "do_action c (WorkerRelease j) s = worker_release j s"

definition queue_step :: "'s queue_config \<Rightarrow> action \<Rightarrow> 's CommandRequestQueue \<Rightarrow> 's CommandRequestQueue option" where
  "queue_step c a s = (if at_action s a then do_action c a s else None)"

fun queue_steps :: "'s queue_config \<Rightarrow> action list \<Rightarrow> 's CommandRequestQueue \<Rightarrow> 's CommandRequestQueue option" where
  "queue_steps c [] s = Some s"
| "queue_steps c (a # as) s = Option.bind (queue_step c a s) (queue_steps c as)"

section \<open>The jobs\<close>

lemmas queue_defs = set_job_def releaseCapacity_def releaseWorker_def dispatch_return_def context_return_def
  closed_return_def full_return_def dispatch_start_def laneFor_def set_lane_def lane_run_def send_result_def
  send_context_error_def handle_return_def worker_dispatch_def worker_release_def queue_Close_def queue_step_def Let_def

text \<open>What a caller can get: a refusal, an error of its context, or what the dispatcher has answered.\<close>

definition served :: "'s queue_config \<Rightarrow> commandJob \<Rightarrow> commandResult \<Rightarrow> bool" where
  "served c job r \<longleftrightarrow> (\<exists>w w'. qc_dispatcher c (cj_req job) w = Some (r, w'))"

definition result_ok :: "'s queue_config \<Rightarrow> commandJob \<Rightarrow> commandResult \<Rightarrow> bool" where
  "result_ok c job r \<longleftrightarrow> served c job r \<or> r = Inl ErrCommandQueueClosed \<or> (\<exists>e. cj_ctx job = Some e \<and> r = Inl e)"

definition answer_ok :: "'s queue_config \<Rightarrow> commandJob \<Rightarrow> commandResult \<Rightarrow> bool" where
  "answer_ok c job r \<longleftrightarrow> result_ok c job r \<or> r = Inr (commandQueueFullResponse (cj_req job)) \<or>
     r = Inr (commandTimeoutResponse (cj_req job)) \<and>
       (cj_ctx job = Some ContextDeadlineExceeded \<or> served c job (Inl ContextDeadlineExceeded))"

text \<open>The program counters of a job fit together.\<close>

definition pcs_ok :: "commandJob \<Rightarrow> bool" where
  "pcs_ok job \<longleftrightarrow>
     (case cj_caller job of
        Starting \<Rightarrow> \<not> cj_held job \<and> cj_stage job = Unqueued
      | Admitted \<Rightarrow> cj_held job \<and> cj_stage job = Unqueued
      | InLane \<Rightarrow> cj_held job \<and> cj_stage job = Unqueued
      | Waiting \<Rightarrow> cj_stage job \<noteq> Unqueued \<and> (cj_stage job \<in> {Finishing, Handled} \<longrightarrow> cj_result job \<noteq> None)
      | Returned r \<Rightarrow> True) \<and>
     (case cj_worker job of
        NoWorker \<Rightarrow> cj_inner job = None \<and> \<not> cj_slot job \<and> cj_stage job \<noteq> Serving
      | Running \<Rightarrow> cj_inner job = None \<and> (cj_stage job = Serving \<and> cj_slot job \<or>
          cj_stage job \<in> {Finishing, Handled} \<and> cj_ctx job \<noteq> None)
      | Releasing \<Rightarrow> cj_stage job \<in> {Serving, Finishing, Handled} \<and>
          (cj_stage job = Serving \<longrightarrow> cj_slot job \<and> cj_inner job \<noteq> None)
      | Exited \<Rightarrow> \<not> cj_slot job \<and> cj_stage job \<in> {Serving, Finishing, Handled} \<and>
          (cj_stage job = Serving \<longrightarrow> cj_inner job \<noteq> None))"

definition results_ok :: "'s queue_config \<Rightarrow> commandJob \<Rightarrow> bool" where
  "results_ok c job \<longleftrightarrow>
     (case cj_inner job of None \<Rightarrow> True | Some r \<Rightarrow> served c job r) \<and>
     (case cj_result job of None \<Rightarrow> True | Some r \<Rightarrow> result_ok c job r) \<and>
     (case cj_caller job of Returned r \<Rightarrow> answer_ok c job r | _ \<Rightarrow> True)"

lemmas result_defs = results_ok_def answer_ok_def result_ok_def served_def contextDoneResponse_def

lemma list_all_update: "list_all P xs \<Longrightarrow> P v \<Longrightarrow> list_all P (xs[j := v])"
  using set_update_subset_insert [of xs j v] by (auto simp: list_all_iff)

text \<open>What a step does to the jobs, for a predicate on jobs that does not look at the rest of the state.\<close>

inductive job_move :: "'s queue_config \<Rightarrow> bool \<Rightarrow> commandJob \<Rightarrow> commandJob \<Rightarrow> bool" for c :: "'s queue_config" where
  parent: "job_move c True job (job\<lparr>cj_parent := Some e, cj_ctx := (if cj_ctx job = None then Some e else cj_ctx job)\<rparr>)"
| timeout: "cj_ctx job = None \<Longrightarrow> job_move c True job (job\<lparr>cj_ctx := Some ContextDeadlineExceeded\<rparr>)"
| admit: "cj_caller job = Starting \<Longrightarrow> job_move c False job (job\<lparr>cj_held := True, cj_caller := Admitted\<rparr>)"
| lane_for: "cj_caller job = Admitted \<Longrightarrow> job_move c False job (job\<lparr>cj_caller := InLane\<rparr>)"
| enqueue: "cj_caller job = InLane \<Longrightarrow> job_move c False job (job\<lparr>cj_caller := Waiting, cj_stage := Queued\<rparr>)"
| refuse: "cj_caller job \<in> {Starting, InLane, Waiting} \<Longrightarrow>
    r = Inl ErrCommandQueueClosed \<or> r = Inr (commandQueueFullResponse (cj_req job)) \<or>
    (\<exists>e. cj_ctx job = Some e \<and> r = contextDoneResponse (cj_parent job) e (cj_req job)) \<Longrightarrow>
    job_move c False job (job\<lparr>cj_held := False, cj_caller := Returned r,
      cj_ctx := (if qc_timeout c > 0 \<and> cj_ctx job = None then Some ContextCanceled else cj_ctx job)\<rparr>)"
| take_result: "cj_caller job = Waiting \<Longrightarrow> cj_result job = Some res \<Longrightarrow>
    r = (if res = Inl ContextDeadlineExceeded then Inr (commandTimeoutResponse (cj_req job)) else res) \<Longrightarrow>
    job_move c False job (job\<lparr>cj_result := None, cj_caller := Returned r,
      cj_ctx := (if qc_timeout c > 0 \<and> cj_ctx job = None then Some ContextCanceled else cj_ctx job)\<rparr>)"
| take_job: "cj_stage job = Queued \<Longrightarrow> job_move c False job (job\<lparr>cj_stage := Begun\<rparr>)"
| handle_error: "cj_stage job \<in> {Begun, Acquiring, Serving} \<Longrightarrow>
    r = Inl ErrCommandQueueClosed \<and> cj_stage job = Acquiring \<or> (\<exists>e. cj_ctx job = Some e \<and> r = Inl e) \<Longrightarrow>
    job_move c False job (job\<lparr>cj_slot := False, cj_result := Some r, cj_stage := Finishing\<rparr>)"
| acquiring: "cj_stage job = Begun \<Longrightarrow> job_move c False job (job\<lparr>cj_stage := Acquiring\<rparr>)"
| start: "cj_stage job = Acquiring \<Longrightarrow>
    job_move c False job (job\<lparr>cj_stage := Serving, cj_worker := Running, cj_slot := True\<rparr>)"
| serve: "cj_stage job = Serving \<Longrightarrow> cj_inner job = Some r \<Longrightarrow>
    job_move c False job (job\<lparr>cj_inner := None, cj_result := Some r, cj_stage := Finishing\<rparr>)"
| finish: "cj_stage job = Finishing \<Longrightarrow> job_move c False job (job\<lparr>cj_held := False, cj_stage := Handled\<rparr>)"
| answer: "cj_worker job = Running \<Longrightarrow> qc_dispatcher c (cj_req job) w = Some (r, w') \<Longrightarrow>
    job_move c False job (job\<lparr>cj_inner := Some r, cj_worker := Releasing\<rparr>)"
| exit: "cj_worker job = Releasing \<Longrightarrow> job_move c False job (job\<lparr>cj_slot := False, cj_worker := Exited\<rparr>)"

lemma move_pcs: "job_move c x job job' \<Longrightarrow> pcs_ok job \<Longrightarrow> pcs_ok job'"
  by (induction rule: job_move.induct) (auto simp: pcs_ok_def split: caller.splits worker.splits)

lemma move_context:
  "job_move c x job job' \<Longrightarrow> cj_req job' = cj_req job \<and> (cj_ctx job = None \<or> cj_ctx job' = cj_ctx job)"
  by (induction rule: job_move.induct) auto

lemma answer_ok_mono:
  assumes "cj_req job' = cj_req job" "cj_ctx job = None \<or> cj_ctx job' = cj_ctx job"
  shows "served c job r \<Longrightarrow> served c job' r" "result_ok c job r \<Longrightarrow> result_ok c job' r"
    "answer_ok c job r \<Longrightarrow> answer_ok c job' r"
  using assms by (auto simp: answer_ok_def result_ok_def served_def)

lemma answer_okI:
  "served c job r \<Longrightarrow> result_ok c job r" "result_ok c job (Inl ErrCommandQueueClosed)"
  "cj_ctx job = Some e \<Longrightarrow> result_ok c job (Inl e)" "result_ok c job r \<Longrightarrow> answer_ok c job r"
  "answer_ok c job (Inr (commandQueueFullResponse (cj_req job)))"
  "cj_ctx job = Some e \<Longrightarrow> answer_ok c job (contextDoneResponse p e (cj_req job))"
  by (auto simp: answer_ok_def result_ok_def contextDoneResponse_def)

lemma answer_ok_result:
  assumes "result_ok c job res"
  shows "answer_ok c job (if res = Inl ContextDeadlineExceeded then Inr (commandTimeoutResponse (cj_req job)) else res)"
  using assms by (auto simp: answer_ok_def result_ok_def ErrCommandQueueClosed_def)

lemma move_result:
  assumes "job_move c x job job'" "results_ok c job"
  shows "case cj_result job' of None \<Rightarrow> True | Some r \<Rightarrow> result_ok c job r"
  using assms
proof (induction rule: job_move.induct)
  case (handle_error job r)
  then show ?case using answer_okI(2,3) [where c = c and job = job] by auto
next
  case (serve job r)
  then show ?case using answer_okI(1) [of c job] by (simp add: results_ok_def)
qed (simp_all add: results_ok_def)

lemma move_answer:
  assumes "job_move c x job job'" "results_ok c job"
  shows "case cj_caller job' of Returned r \<Rightarrow> answer_ok c job r | _ \<Rightarrow> True"
  using assms
proof (induction rule: job_move.induct)
  case (refuse job r)
  then show ?case using answer_okI(2,4-6) [where c = c and job = job] by auto
next
  case (take_result job res r)
  then show ?case using answer_ok_result [of c job res] by (simp add: results_ok_def)
qed (simp_all add: results_ok_def split: caller.splits)

lemma move_inner:
  assumes "job_move c x job job'" "results_ok c job"
  shows "case cj_inner job' of None \<Rightarrow> True | Some r \<Rightarrow> served c job r"
  using assms
proof (induction rule: job_move.induct)
  case (answer job w r w')
  then show ?case by (auto simp: served_def)
qed (simp_all add: results_ok_def)

lemma move_results:
  assumes "job_move c x job job'" "results_ok c job"
  shows "results_ok c job'"
proof -
  note mono = answer_ok_mono [of job' job c, OF conjunct1 [OF move_context] conjunct2 [OF move_context], OF assms(1) assms(1)]
  from move_inner [OF assms] move_result [OF assms] move_answer [OF assms] show ?thesis
    unfolding results_ok_def by (auto split: option.splits caller.splits intro: mono)
qed

section \<open>The lanes\<close>

abbreviation job_role :: "commandJob \<Rightarrow> int" where
  "job_role job \<equiv> commandRoleID (cj_req job)"

definition in_handle :: "stage \<Rightarrow> bool" where
  "in_handle st \<longleftrightarrow> st \<in> {Begun, Acquiring, Serving, Finishing}"

text \<open>A lane holds exactly the jobs of its role that are queued, and works on the one that is being handled.\<close>

definition lane_ok :: "'s queue_config \<Rightarrow> commandJob list \<Rightarrow> bool \<Rightarrow> int \<Rightarrow> commandRoleLane \<Rightarrow> bool" where
  "lane_ok c jobs closed r lane \<longleftrightarrow> length (ln_jobs lane) \<le> qc_role_capacity c \<and> distinct (ln_jobs lane) \<and>
     (\<forall>j. j \<in> set (ln_jobs lane) \<longleftrightarrow> j < length jobs \<and> cj_stage (jobs ! j) = Queued \<and> job_role (jobs ! j) = r) \<and>
     (\<forall>j. ln_current lane = Some j \<longleftrightarrow> j < length jobs \<and> in_handle (cj_stage (jobs ! j)) \<and> job_role (jobs ! j) = r) \<and>
     (ln_exited lane \<longrightarrow> closed \<and> ln_current lane = None)"

definition lanes_ok :: "'s queue_config \<Rightarrow> 's CommandRequestQueue \<Rightarrow> bool" where
  "lanes_ok c s \<longleftrightarrow> finite (dom (q_lanes s)) \<and>
     (\<forall>job\<in>set (q_jobs s). cj_stage job \<noteq> Unqueued \<or> cj_caller job = InLane \<longrightarrow> q_lanes s (job_role job) \<noteq> None) \<and>
     (\<forall>r lane. q_lanes s r = Some lane \<longrightarrow> lane_ok c (q_jobs s) (q_done s) r lane)"

definition tokens_ok :: "'s queue_config \<Rightarrow> 's CommandRequestQueue \<Rightarrow> bool" where
  "tokens_ok c s \<longleftrightarrow>
     q_capacity s = length (filter cj_held (q_jobs s)) \<and> q_capacity s \<le> qc_capacity c \<and>
     q_slots s = length (filter cj_slot (q_jobs s)) \<and> q_slots s \<le> qc_workers c"

definition queue_ok :: "'s queue_config \<Rightarrow> 's CommandRequestQueue \<Rightarrow> bool" where
  "queue_ok c s \<longleftrightarrow> tokens_ok c s \<and> lanes_ok c s \<and>
     (\<forall>job\<in>set (q_jobs s). pcs_ok job \<and> results_ok c job)"

text \<open>What a step changes: one job and the tokens it holds, and the lane of its role when the job enters or leaves it.\<close>

definition tokens_follow :: "'s queue_config \<Rightarrow> bool \<Rightarrow> nat \<Rightarrow> commandJob \<Rightarrow> 's CommandRequestQueue \<Rightarrow> 's CommandRequestQueue \<Rightarrow> bool" where
  "tokens_follow c x j job' s s' \<longleftrightarrow> j < length (q_jobs s) \<and> q_jobs s' = (q_jobs s)[j := job'] \<and> q_done s' = q_done s \<and>
     job_move c x (q_jobs s ! j) job' \<and>
     q_capacity s' + of_bool (cj_held (q_jobs s ! j)) = q_capacity s + of_bool (cj_held job') \<and>
     (q_capacity s' \<le> q_capacity s \<or> q_capacity s' \<le> qc_capacity c) \<and>
     q_slots s' + of_bool (cj_slot (q_jobs s ! j)) = q_slots s + of_bool (cj_slot job') \<and>
     (q_slots s' \<le> q_slots s \<or> q_slots s' \<le> qc_workers c)"

definition same_place :: "commandJob \<Rightarrow> commandJob \<Rightarrow> bool" where
  "same_place job job' \<longleftrightarrow> (cj_stage job' = Unqueued \<longleftrightarrow> cj_stage job = Unqueued) \<and>
     (cj_stage job' = Queued \<longleftrightarrow> cj_stage job = Queued) \<and> (in_handle (cj_stage job') \<longleftrightarrow> in_handle (cj_stage job)) \<and>
     (cj_caller job' = InLane \<longrightarrow> cj_caller job = InLane)"

inductive change :: "'s queue_config \<Rightarrow> bool \<Rightarrow> 's CommandRequestQueue \<Rightarrow> 's CommandRequestQueue \<Rightarrow> bool"
  for c :: "'s queue_config" where
  submit: "change c True s (dispatch_start req parent s)"
| close: "change c True s (queue_Close s)"
| job: "tokens_follow c x j job' s s' \<Longrightarrow> same_place (q_jobs s ! j) job' \<Longrightarrow> q_lanes s' = q_lanes s \<Longrightarrow> change c x s s'"
| lane: "tokens_follow c False j job' s s' \<Longrightarrow> job' = (q_jobs s ! j)\<lparr>cj_caller := InLane\<rparr> \<Longrightarrow>
    q_lanes s' = (if q_lanes s (job_role job') = None
      then (q_lanes s)(job_role job' \<mapsto> \<lparr>ln_jobs = [], ln_current = None, ln_exited = False\<rparr>) else q_lanes s) \<Longrightarrow>
    cj_caller (q_jobs s ! j) = Admitted \<Longrightarrow> cj_stage job' = Unqueued \<Longrightarrow> change c False s s'"
| enter: "tokens_follow c x j job' s s' \<Longrightarrow> cj_stage (q_jobs s ! j) = Unqueued \<Longrightarrow> cj_stage job' = Queued \<Longrightarrow>
    q_lanes s (job_role job') = Some l \<Longrightarrow> length (ln_jobs l) < qc_role_capacity c \<Longrightarrow>
    q_lanes s' = (q_lanes s)(job_role job' \<mapsto> l\<lparr>ln_jobs := ln_jobs l @ [j]\<rparr>) \<Longrightarrow> change c x s s'"
| take: "tokens_follow c x j job' s s' \<Longrightarrow> cj_stage job' = Begun \<Longrightarrow>
    q_lanes s (job_role job') = Some l \<Longrightarrow> ln_jobs l = j # js \<Longrightarrow> \<not> ln_exited l \<Longrightarrow> ln_current l = None \<Longrightarrow>
    q_lanes s' = (q_lanes s)(job_role job' \<mapsto> l\<lparr>ln_jobs := js, ln_current := Some j\<rparr>) \<Longrightarrow> change c x s s'"
| leave: "tokens_follow c x j job' s s' \<Longrightarrow> cj_stage (q_jobs s ! j) = Finishing \<Longrightarrow> cj_stage job' = Handled \<Longrightarrow>
    q_lanes s (job_role job') = Some l \<Longrightarrow>
    q_lanes s' = (q_lanes s)(job_role job' \<mapsto> l\<lparr>ln_current := None\<rparr>) \<Longrightarrow> change c x s s'"
| exit: "q_done s \<Longrightarrow> q_lanes s r = Some l \<Longrightarrow> ln_current l = None \<Longrightarrow> \<not> ln_exited l \<Longrightarrow>
    s' = set_lane r (l\<lparr>ln_exited := True\<rparr>) s \<Longrightarrow> change c False s s'"

lemma release_jobs:
  assumes "releaseCapacity j s = Some s1" "j < length (q_jobs s)"
  shows "q_jobs s1 = (q_jobs s)[j := (q_jobs s ! j)\<lparr>cj_held := False\<rparr>]" "q_lanes s1 = q_lanes s" "q_done s1 = q_done s"
    "q_slots s1 = q_slots s" "q_capacity s1 + of_bool (cj_held (q_jobs s ! j)) = q_capacity s"
    "q_world s1 = q_world s"
proof -
  have "job\<lparr>cj_held := False\<rparr> = job" if "\<not> cj_held job" for job :: commandJob
    using that by (cases job) simp
  note same = this
  show "q_jobs s1 = (q_jobs s)[j := (q_jobs s ! j)\<lparr>cj_held := False\<rparr>]" "q_lanes s1 = q_lanes s" "q_done s1 = q_done s"
    "q_slots s1 = q_slots s" "q_capacity s1 + of_bool (cj_held (q_jobs s ! j)) = q_capacity s" "q_world s1 = q_world s"
    using assms by (auto simp: releaseCapacity_def set_job_def same split: if_splits)
qed

lemma release_slot:
  assumes "releaseWorker j s = Some s1" "j < length (q_jobs s)"
  shows "q_jobs s1 = (q_jobs s)[j := (q_jobs s ! j)\<lparr>cj_slot := False\<rparr>]" "q_lanes s1 = q_lanes s" "q_done s1 = q_done s"
    "q_capacity s1 = q_capacity s" "q_slots s1 + of_bool (cj_slot (q_jobs s ! j)) = q_slots s" "q_world s1 = q_world s"
proof -
  have "job\<lparr>cj_slot := False\<rparr> = job" if "\<not> cj_slot job" for job :: commandJob
    using that by (cases job) simp
  note same = this
  show "q_jobs s1 = (q_jobs s)[j := (q_jobs s ! j)\<lparr>cj_slot := False\<rparr>]" "q_lanes s1 = q_lanes s" "q_done s1 = q_done s"
    "q_capacity s1 = q_capacity s" "q_slots s1 + of_bool (cj_slot (q_jobs s ! j)) = q_slots s" "q_world s1 = q_world s"
    using assms by (auto simp: releaseWorker_def set_job_def same split: if_splits)
qed

lemma follow_jobI:
  assumes "j < length (q_jobs s)" "job_move c x (q_jobs s ! j) job'" "q_jobs s' = (q_jobs s)[j := job']"
    and "q_done s' = q_done s" "q_capacity s' = q_capacity s" "q_slots s' = q_slots s"
    and "cj_held job' = cj_held (q_jobs s ! j)" "cj_slot job' = cj_slot (q_jobs s ! j)"
  shows "tokens_follow c x j job' s s'"
  using assms by (simp add: tokens_follow_def)

text \<open>The caller returns after it has given its token back.\<close>

lemma refused_change:
  assumes "j < length (q_jobs s)" "cj_caller (q_jobs s ! j) \<in> {Starting, InLane, Waiting}" "pcs_ok (q_jobs s ! j)"
    and "releaseCapacity j s = Some s1" "s' = dispatch_return c j r s1"
    and "r = Inl ErrCommandQueueClosed \<or> r = Inr (commandQueueFullResponse (cj_req (q_jobs s ! j))) \<or>
      (\<exists>e. cj_ctx (q_jobs s ! j) = Some e \<and>
         r = contextDoneResponse (cj_parent (q_jobs s ! j)) e (cj_req (q_jobs s ! j)))"
  shows "change c False s s'"
proof -
  note m = job_move.refuse [OF assms(2,6), where c = c]
  note s1 = release_jobs [OF assms(4,1)]
  have "tokens_follow c False j ((q_jobs s ! j)\<lparr>cj_held := False, cj_caller := Returned r,
      cj_ctx := (if qc_timeout c > 0 \<and> cj_ctx (q_jobs s ! j) = None then Some ContextCanceled else cj_ctx (q_jobs s ! j))\<rparr>) s s'"
    using assms(1,5) s1 m by (auto simp: tokens_follow_def dispatch_return_def set_job_def)
  then show ?thesis
    by (rule change.job) (use s1(2) assms(5) in \<open>simp_all add: same_place_def dispatch_return_def set_job_def\<close>)
qed

text \<open>An error of the context, or of the closed queue, ends the handling.\<close>

lemma failed_change:
  assumes "j < length (q_jobs s)" "cj_stage (q_jobs s ! j) \<in> {Begun, Acquiring, Serving}"
    and "releaseWorker j s = Some s1" "s' = send_result j r s1"
    and "r = Inl ErrCommandQueueClosed \<and> cj_stage (q_jobs s ! j) = Acquiring \<or>
      (\<exists>e. cj_ctx (q_jobs s ! j) = Some e \<and> r = Inl e)"
  shows "change c False s s'"
proof -
  note m = job_move.handle_error [OF assms(2,5), where c = c]
  note s1 = release_slot [OF assms(3,1)]
  have "tokens_follow c False j ((q_jobs s ! j)\<lparr>cj_slot := False, cj_result := Some r, cj_stage := Finishing\<rparr>) s s'"
    using assms(1,4) s1 m by (auto simp: tokens_follow_def send_result_def set_job_def)
  then show ?thesis
    by (rule change.job)
      (use s1(2) assms(2,4) in \<open>auto simp: same_place_def in_handle_def send_result_def set_job_def\<close>)
qed

lemma context_error_change:
  assumes "j < length (q_jobs s)" "cj_stage (q_jobs s ! j) \<in> {Begun, Acquiring, Serving}"
    and "releaseWorker j s = Some s1" "send_context_error j s1 = Some s'"
  shows "change c False s s'"
proof -
  have "cj_ctx (q_jobs s1 ! j) = cj_ctx (q_jobs s ! j)" using release_slot(1) [OF assms(3,1)] assms(1) by simp
  with assms(4) obtain e where "cj_ctx (q_jobs s ! j) = Some e" "s' = send_result j (Inl e) s1"
    by (auto simp: send_context_error_def)
  then show ?thesis by (intro failed_change [OF assms(1-3)]) auto
qed

lemma no_slot: "pcs_ok (q_jobs s ! j) \<Longrightarrow> cj_stage (q_jobs s ! j) \<in> {Begun, Acquiring} \<Longrightarrow> releaseWorker j s = Some s"
  by (auto simp: pcs_ok_def releaseWorker_def split: worker.splits)

lemma not_held: "pcs_ok (q_jobs s ! j) \<Longrightarrow> cj_caller (q_jobs s ! j) = Starting \<Longrightarrow> releaseCapacity j s = Some s"
  by (auto simp: pcs_ok_def releaseCapacity_def)

lemma caller_change:
  assumes "do_action c a s = Some s'" "at_action s a" "\<forall>job\<in>set (q_jobs s). pcs_ok job"
    and "a = Admit choice j \<or> a = Enqueue choice j \<or> a = Wait choice j" "choice \<noteq> Ready"
  shows "change c False s s'"
proof -
  have j: "j < length (q_jobs s)" "cj_caller (q_jobs s ! j) \<in> {Starting, InLane, Waiting}"
    using assms(2,4) by auto
  then have pc: "pcs_ok (q_jobs s ! j)" using assms(3) by simp
  obtain s1 where s1: "releaseCapacity j s = Some s1"
    and "choice = CtxDone \<and> cj_ctx (q_jobs s ! j) \<noteq> None \<and> context_return c j s1 = Some s' \<or>
      choice = QueueDone \<and> closed_return c j s1 = Some s' \<or> choice = Default \<and> full_return c j s1 = Some s'"
    using assms(1,2,4,5) not_held [OF pc]
    by (cases choice) (auto simp: bind_eq_Some_conv context_return_def Let_def split: if_splits option.splits)
  moreover have "cj_req (q_jobs s1 ! j) = cj_req (q_jobs s ! j)" "cj_ctx (q_jobs s1 ! j) = cj_ctx (q_jobs s ! j)"
    "cj_parent (q_jobs s1 ! j) = cj_parent (q_jobs s ! j)"
    using release_jobs(1) [OF s1 j(1)] j(1) by simp_all
  ultimately show ?thesis
    using refused_change [OF j pc s1]
    by (auto simp: context_return_def closed_return_def full_return_def Let_def split: if_splits option.splits)
qed

lemma entering_change:
  assumes "at_action s (Enqueue Ready j)" "dispatch_enqueue c Ready j s = Some s'" "pcs_ok (q_jobs s ! j)"
  shows "change c False s s'"
proof -
  let ?job = "q_jobs s ! j"
  from assms obtain l where l: "q_lanes s (job_role ?job) = Some l" "length (ln_jobs l) < qc_role_capacity c"
    "s' = set_job j (\<lambda>job. job\<lparr>cj_caller := Waiting, cj_stage := Queued\<rparr>)
       (s\<lparr>q_lanes := (q_lanes s)(job_role ?job \<mapsto> l\<lparr>ln_jobs := ln_jobs l @ [j]\<rparr>)\<rparr>)"
    by (auto simp: Let_def split: option.splits if_splits)
  have "tokens_follow c False j (?job\<lparr>cj_caller := Waiting, cj_stage := Queued\<rparr>) s s'"
    using assms(1) l(3) by (intro follow_jobI job_move.enqueue) (auto simp: set_job_def)
  then show ?thesis
    by (rule change.enter [where l = l]) (use assms(1,3) l in \<open>auto simp: set_job_def pcs_ok_def\<close>)
qed

lemma taking_change:
  assumes "lanes_ok c s" "lane_run choice r s = Some s'"
  shows "change c False s s'"
proof -
  from assms(2) obtain l where l: "q_lanes s r = Some l" "\<not> ln_exited l" "ln_current l = None"
    by (auto simp: lane_run_def split: option.splits if_splits)
  then have lane: "lane_ok c (q_jobs s) (q_done s) r l" using assms(1) by (simp add: lanes_ok_def)
  from assms(2) l consider "choice = QueueDone" "q_done s" "s' = set_lane r (l\<lparr>ln_exited := True\<rparr>) s"
    | j js where "choice = Ready" "ln_jobs l = j # js" "s' = set_job j (cj_stage_update (\<lambda>_. Begun))
        (set_lane r (l\<lparr>ln_jobs := js, ln_current := Some j\<rparr>) s)"
    by (cases choice) (auto simp: lane_run_def split: list.splits if_splits)
  then show ?thesis
  proof cases
    case 1
    with l show ?thesis by (auto intro: change.exit)
  next
    case (2 j js)
    with lane have j: "j < length (q_jobs s)" "cj_stage (q_jobs s ! j) = Queued" "job_role (q_jobs s ! j) = r"
      by (auto simp: lane_ok_def)
    have "tokens_follow c False j ((q_jobs s ! j)\<lparr>cj_stage := Begun\<rparr>) s s'"
      using j 2(3) by (intro follow_jobI job_move.take_job) (auto simp: set_job_def set_lane_def)
    then show ?thesis
      by (rule change.take [where l = l and js = js]) (use j l 2 in \<open>auto simp: set_job_def set_lane_def\<close>)
  qed
qed

lemma leaving_change:
  assumes "at_action s (HandleReturn j)" "handle_return j s = Some s'"
  shows "change c False s s'"
proof -
  let ?job = "q_jobs s ! j"
  from assms obtain l s1 where l: "q_lanes s (job_role ?job) = Some l" and s1: "releaseCapacity j s = Some s1"
    and s': "s' = set_job j (cj_stage_update (\<lambda>_. Handled)) (set_lane (job_role ?job) (l\<lparr>ln_current := None\<rparr>) s1)"
    by (auto simp: handle_return_def Let_def split: option.splits)
  note rel = release_jobs [OF s1]
  have "tokens_follow c False j (?job\<lparr>cj_held := False, cj_stage := Handled\<rparr>) s s'"
    using assms(1) rel s' job_move.finish [of ?job c] by (auto simp: tokens_follow_def set_job_def set_lane_def)
  then show ?thesis
    by (rule change.leave [where l = l]) (use assms(1) rel s' l in \<open>auto simp: set_job_def set_lane_def\<close>)
qed

text \<open>The other steps of the lane and of the goroutine of the dispatcher stay in their place.\<close>

lemma handling_change:
  assumes "do_action c a s = Some s'" "at_action s a" "\<forall>job\<in>set (q_jobs s). pcs_ok job"
    and "a = HandleBegin choice j \<or> a = Acquire choice j \<or> a = Serve choice j"
  shows "change c False s s'"
proof -
  let ?job = "q_jobs s ! j"
  have j: "j < length (q_jobs s)" using assms(2,4) by auto
  then have pc: "pcs_ok ?job" using assms(3) by simp
  have move: "change c False s s'" if "job_move c False ?job job'" "same_place ?job job'" "q_lanes s' = q_lanes s"
    "q_jobs s' = (q_jobs s)[j := job']" "q_done s' = q_done s" "q_capacity s' = q_capacity s"
    "q_slots s' + of_bool (cj_slot ?job) = q_slots s + of_bool (cj_slot job')"
    "q_slots s' \<le> q_slots s \<or> q_slots s' \<le> qc_workers c" "cj_held job' = cj_held ?job" for job'
    by (rule change.job [of c False j job']) (use that j in \<open>simp_all add: tokens_follow_def\<close>)
  show ?thesis
  proof (cases "choice = CtxDone \<or> choice = QueueDone")
    case True
    from assms(4) show ?thesis
    proof (elim disjE)
      assume "a = HandleBegin choice j"
      with True assms(1,2) have "cj_stage ?job = Begun" "send_context_error j s = Some s'" by auto
      with context_error_change [OF j] no_slot [OF pc] show ?thesis by simp
    next
      assume a: "a = Acquire choice j"
      then have st: "cj_stage ?job = Acquiring" using assms(2) by simp
      with no_slot [OF pc] have free: "releaseWorker j s = Some s" by simp
      from True show ?thesis
      proof
        assume "choice = CtxDone"
        with a assms(1) st context_error_change [OF j _ free] show ?thesis by simp
      next
        assume "choice = QueueDone"
        with a assms(1) st failed_change [OF j _ free refl] show ?thesis by (auto split: if_splits)
      qed
    next
      assume "a = Serve choice j"
      with True assms(1,2) context_error_change [OF j] show ?thesis
        by (auto simp: bind_eq_Some_conv split: if_splits)
    qed
  next
    case False
    from assms(4) show ?thesis
    proof (elim disjE)
      assume a: "a = HandleBegin choice j"
      show ?thesis
        by (rule move [OF job_move.acquiring])
          (use a assms(1,2) False in \<open>cases choice; auto simp: set_job_def same_place_def in_handle_def split: if_splits\<close>)+
    next
      assume a: "a = Acquire choice j"
      show ?thesis
        by (rule move [OF job_move.start])
          (use a assms(1,2) False pc in \<open>cases choice; auto simp: set_job_def same_place_def in_handle_def pcs_ok_def split: if_splits worker.splits\<close>)+
    next
      assume a: "a = Serve choice j"
      with assms(1) False obtain r where r: "cj_inner ?job = Some r"
        "s' = send_result j r (set_job j (cj_inner_update (\<lambda>_. None)) s)"
        by (cases choice) (auto split: option.splits)
      show ?thesis
        by (rule move [OF job_move.serve [OF _ r(1)]])
          (use a r assms(2) j in \<open>auto simp: send_result_def set_job_def same_place_def in_handle_def\<close>)
    qed
  qed
qed

lemma working_change:
  assumes "do_action c a s = Some s'" "at_action s a"
    and "a = WorkerDispatch j \<or> a = WorkerRelease j"
  shows "change c False s s'"
proof -
  let ?job = "q_jobs s ! j"
  have j: "j < length (q_jobs s)" using assms(2,3) by auto
  from assms(3) show ?thesis
  proof
    assume a: "a = WorkerDispatch j"
    with assms(1) obtain r w where "qc_dispatcher c (cj_req ?job) (q_world s) = Some (r, w)"
      "s' = set_job j (\<lambda>job. job\<lparr>cj_inner := Some r, cj_worker := Releasing\<rparr>) (s\<lparr>q_world := w\<rparr>)"
      by (auto simp: worker_dispatch_def split: option.splits)
    moreover from this have "tokens_follow c False j (?job\<lparr>cj_inner := Some r, cj_worker := Releasing\<rparr>) s s'"
      using a assms(2) by (intro follow_jobI job_move.answer) (auto simp: set_job_def)
    ultimately show ?thesis by (intro change.job) (auto simp: same_place_def set_job_def)
  next
    assume a: "a = WorkerRelease j"
    with assms(1) obtain s1 where s1: "releaseWorker j s = Some s1" "s' = set_job j (cj_worker_update (\<lambda>_. Exited)) s1"
      by (auto simp: worker_release_def)
    note rel = release_slot [OF s1(1) j]
    have "tokens_follow c False j (?job\<lparr>cj_slot := False, cj_worker := Exited\<rparr>) s s'"
      using a j assms(2) rel s1(2) job_move.exit [of ?job c] by (auto simp: tokens_follow_def set_job_def)
    then show ?thesis by (rule change.job) (use rel s1(2) in \<open>auto simp: same_place_def set_job_def\<close>)
  qed
qed

lemma context_change:
  assumes "do_action c a s = Some s'" "at_action s a" "a = ParentDone j e \<or> a = TimeoutFires j"
  shows "change c True s s'"
proof -
  have j: "j < length (q_jobs s)" using assms(2,3) by auto
  from assms(3) show ?thesis
  proof
    assume "a = ParentDone j e"
    with assms(1) have s': "s' = set_job j (\<lambda>job. job\<lparr>cj_parent := Some e,
        cj_ctx := (if cj_ctx job = None then Some e else cj_ctx job)\<rparr>) s" by simp
    show ?thesis
      by (rule change.job [OF follow_jobI [OF j job_move.parent [of c _ e]]])
        (simp_all add: s' set_job_def same_place_def)
  next
    assume "a = TimeoutFires j"
    with assms(1,2) j show ?thesis
      by (intro change.job [OF follow_jobI [OF j job_move.timeout]])
        (auto simp: set_job_def same_place_def split: if_splits)
  qed
qed

lemma admitted_change:
  assumes "at_action s a" "do_action c a s = Some s'" "\<forall>job\<in>set (q_jobs s). pcs_ok job"
    and "a = Admit Ready j \<or> a = LaneFor j \<or> a = Wait Ready j"
  shows "change c False s s'"
proof -
  let ?job = "q_jobs s ! j"
  have j: "j < length (q_jobs s)" using assms(1,4) by auto
  then have pc: "pcs_ok ?job" using assms(3) by simp
  from assms(4) show ?thesis
  proof (elim disjE)
    assume a: "a = Admit Ready j"
    with assms(1,2) have s': "q_capacity s < qc_capacity c" "s' = set_job j (\<lambda>job. job\<lparr>cj_held := True, cj_caller := Admitted\<rparr>)
        (s\<lparr>q_capacity := q_capacity s + 1\<rparr>)" "cj_caller ?job = Starting"
      by (auto split: if_splits)
    then have "tokens_follow c False j (?job\<lparr>cj_held := True, cj_caller := Admitted\<rparr>) s s'"
      using j pc job_move.admit [of ?job c] by (auto simp: tokens_follow_def set_job_def pcs_ok_def)
    then show ?thesis by (rule change.job) (use s' in \<open>auto simp: same_place_def set_job_def\<close>)
  next
    assume "a = LaneFor j"
    with assms(1,2) pc have s': "s' = laneFor j s" "cj_caller ?job = Admitted" "cj_stage ?job = Unqueued"
      by (auto simp: pcs_ok_def)
    then have "tokens_follow c False j (?job\<lparr>cj_caller := InLane\<rparr>) s s'"
      using j by (intro follow_jobI job_move.lane_for) (auto simp: laneFor_def set_job_def Let_def split: option.splits)
    then show ?thesis
      by (rule change.lane) (use s' in \<open>auto simp: laneFor_def set_job_def Let_def split: option.splits\<close>)
  next
    assume "a = Wait Ready j"
    with assms(1,2) obtain res where res: "cj_result ?job = Some res" "cj_caller ?job = Waiting"
      and s': "s' = dispatch_return c j
         (if res = Inl ContextDeadlineExceeded then Inr (commandTimeoutResponse (cj_req ?job)) else res)
         (set_job j (cj_result_update (\<lambda>_. None)) s)" by (auto split: option.splits)
    show ?thesis
      by (rule change.job [OF follow_jobI [OF j job_move.take_result [OF res(2,1) refl]]])
        (use j s' in \<open>auto simp: dispatch_return_def set_job_def same_place_def\<close>)
  qed
qed

fun external :: "action \<Rightarrow> bool" where
  "external (Submit req parent) \<longleftrightarrow> True"
| "external (ParentDone j e) \<longleftrightarrow> True"
| "external (TimeoutFires j) \<longleftrightarrow> True"
| "external Close \<longleftrightarrow> True"
| "external a \<longleftrightarrow> False"

lemma step_change:
  assumes step: "queue_step c a s = Some s'" and ok: "queue_ok c s"
  shows "change c (external a) s s'"
proof -
  have a: "at_action s a" "do_action c a s = Some s'" using step by (auto simp: queue_step_def split: if_splits)
  have pcs: "\<forall>job\<in>set (q_jobs s). pcs_ok job" and lanes: "lanes_ok c s" using ok by (auto simp: queue_ok_def)
  show ?thesis
  proof (cases a)
    case (Enqueue choice j)
    then have "change c False s s'" if "choice = Ready"
      using that a pcs entering_change [of s j c s'] by auto
    moreover have "change c False s s'" if "choice \<noteq> Ready"
      using caller_change [OF a(2,1) pcs _ that, of j] Enqueue by simp
    ultimately show ?thesis using Enqueue by (cases "choice = Ready") simp_all
  next
    case (Admit choice j)
    then show ?thesis
      using caller_change [OF a(2,1) pcs, of choice j] admitted_change [OF a pcs, of j] by (cases "choice = Ready") simp_all
  next
    case (Wait choice j)
    then show ?thesis
      using caller_change [OF a(2,1) pcs, of choice j] admitted_change [OF a pcs, of j] by (cases "choice = Ready") simp_all
  next
    case (LaneRun choice r)
    then show ?thesis using a lanes taking_change by auto
  next
    case (Submit req parent)
    then show ?thesis using a change.submit by auto
  next
    case Close
    then show ?thesis using a change.close by auto
  next
    case (HandleReturn j)
    then show ?thesis using a leaving_change by auto
  next
    case (HandleBegin choice j)
    then show ?thesis using handling_change [OF a(2,1) pcs, of choice j] by simp
  next
    case (Acquire choice j)
    then show ?thesis using handling_change [OF a(2,1) pcs, of choice j] by simp
  next
    case (Serve choice j)
    then show ?thesis using handling_change [OF a(2,1) pcs, of choice j] by simp
  next
    case (LaneFor j)
    then show ?thesis using admitted_change [OF a pcs, of j] by simp
  next
    case (ParentDone j e)
    then show ?thesis using context_change [OF a(2,1), of j e] by simp
  next
    case (TimeoutFires j)
    then show ?thesis using context_change [OF a(2,1), of j] by simp
  next
    case (WorkerDispatch j)
    then show ?thesis using working_change [OF a(2,1), of j] by simp
  next
    case (WorkerRelease j)
    then show ?thesis using working_change [OF a(2,1), of j] by simp
  qed
qed

section \<open>Reachable queues\<close>

lemma length_filter_update:
  "j < length xs \<Longrightarrow>
    length (filter P (xs[j := v])) + of_bool (P (xs ! j)) = length (filter P xs) + of_bool (P v)"
proof (induction xs arbitrary: j)
  case (Cons x xs)
  then show ?case by (cases j) auto
qed simp

lemma tokens_kept:
  assumes "tokens_follow c x j job' s s'" "tokens_ok c s"
  shows "tokens_ok c s'"
proof -
  from assms(1) have j: "j < length (q_jobs s)" and jobs: "q_jobs s' = (q_jobs s)[j := job']"
    by (simp_all add: tokens_follow_def)
  from assms length_filter_update [OF j, of cj_held job'] length_filter_update [OF j, of cj_slot job']
  show ?thesis unfolding tokens_ok_def tokens_follow_def jobs by linarith
qed

lemma in_handle_simps [simp]:
  "\<not> in_handle Unqueued" "\<not> in_handle Queued" "in_handle Begun" "in_handle Acquiring" "in_handle Serving"
  "in_handle Finishing" "\<not> in_handle Handled"
  by (simp_all add: in_handle_def)

lemma lane_okD:
  assumes "lane_ok c jobs closed r lane"
  shows "length (ln_jobs lane) \<le> qc_role_capacity c" "distinct (ln_jobs lane)"
    "\<And>j. j \<in> set (ln_jobs lane) \<longleftrightarrow> j < length jobs \<and> cj_stage (jobs ! j) = Queued \<and> job_role (jobs ! j) = r"
    "\<And>j. ln_current lane = Some j \<longleftrightarrow> j < length jobs \<and> in_handle (cj_stage (jobs ! j)) \<and> job_role (jobs ! j) = r"
    "ln_exited lane \<Longrightarrow> closed \<and> ln_current lane = None"
  using assms by (auto simp: lane_ok_def)

lemma lanes_okD: "lanes_ok c s \<Longrightarrow> q_lanes s r = Some l \<Longrightarrow> lane_ok c (q_jobs s) (q_done s) r l"
  by (simp add: lanes_ok_def)

lemma lane_ok_other:
  assumes "lane_ok c jobs closed r lane" "j < length jobs" "job_role job' = job_role (jobs ! j)"
    and "job_role (jobs ! j) \<noteq> r \<or> (cj_stage job' = Queued \<longleftrightarrow> cj_stage (jobs ! j) = Queued) \<and>
      (in_handle (cj_stage job') \<longleftrightarrow> in_handle (cj_stage (jobs ! j)))"
  shows "lane_ok c (jobs[j := job']) closed r lane"
proof -
  have "cj_stage (jobs[j := job'] ! i) = Queued \<and> job_role (jobs[j := job'] ! i) = r \<longleftrightarrow>
      cj_stage (jobs ! i) = Queued \<and> job_role (jobs ! i) = r"
    "in_handle (cj_stage (jobs[j := job'] ! i)) \<and> job_role (jobs[j := job'] ! i) = r \<longleftrightarrow>
      in_handle (cj_stage (jobs ! i)) \<and> job_role (jobs ! i) = r" for i
    using assms(2-4) by (cases "i = j"; auto)+
  with assms(1) show ?thesis by (simp add: lane_ok_def)
qed

lemma lane_ok_enter:
  assumes lane: "lane_ok c jobs closed r lane" and j: "j < length jobs" "job_role job' = r"
    and st: "cj_stage (jobs ! j) = Unqueued" "cj_stage job' = Queued" and room: "length (ln_jobs lane) < qc_role_capacity c"
  shows "lane_ok c (jobs[j := job']) closed r (lane\<lparr>ln_jobs := ln_jobs lane @ [j]\<rparr>)"
proof -
  have q: "i \<in> set (ln_jobs lane) \<or> i = j \<longleftrightarrow>
      i < length jobs \<and> cj_stage (jobs[j := job'] ! i) = Queued \<and> job_role (jobs[j := job'] ! i) = r" for i
    using lane_okD(3) [OF lane, of i] j st by (cases "i = j") auto
  have h: "ln_current lane = Some i \<longleftrightarrow>
      i < length jobs \<and> in_handle (cj_stage (jobs[j := job'] ! i)) \<and> job_role (jobs[j := job'] ! i) = r" for i
    using lane_okD(4) [OF lane, of i] j st by (cases "i = j") auto
  have "j \<notin> set (ln_jobs lane)" using lane_okD(3) [OF lane] st by simp
  with lane_okD(2,5) [OF lane] room q h show ?thesis by (auto simp: lane_ok_def)
qed

lemma lane_ok_take:
  assumes lane: "lane_ok c jobs closed r lane" and job': "job_role job' = r" "cj_stage job' = Begun"
    and l: "ln_jobs lane = j # js" "ln_current lane = None" "\<not> ln_exited lane"
  shows "lane_ok c (jobs[j := job']) closed r (lane\<lparr>ln_jobs := js, ln_current := Some j\<rparr>)"
proof -
  have j: "j < length jobs" "cj_stage (jobs ! j) = Queued" using lane_okD(3) [OF lane, of j] l(1) by auto
  have "j \<notin> set js" using lane_okD(2) [OF lane] l(1) by simp
  then have q: "i \<in> set js \<longleftrightarrow>
      i < length jobs \<and> cj_stage (jobs[j := job'] ! i) = Queued \<and> job_role (jobs[j := job'] ! i) = r" for i
    using lane_okD(3) [OF lane, of i] l(1) j job' by (cases "i = j") auto
  have h: "j = i \<longleftrightarrow>
      i < length jobs \<and> in_handle (cj_stage (jobs[j := job'] ! i)) \<and> job_role (jobs[j := job'] ! i) = r" for i
    using lane_okD(4) [OF lane, of i] l(2) j job' by (cases "i = j") auto
  show ?thesis using lane_okD(1,2) [OF lane] l(1,3) by (simp add: lane_ok_def q [symmetric] h [symmetric])
qed

lemma lane_ok_leave:
  assumes lane: "lane_ok c jobs closed r lane" and j: "j < length jobs" "job_role (jobs ! j) = r"
    and st: "cj_stage (jobs ! j) = Finishing" "cj_stage job' = Handled"
  shows "lane_ok c (jobs[j := job']) closed r (lane\<lparr>ln_current := None\<rparr>)"
proof -
  have q: "i \<in> set (ln_jobs lane) \<longleftrightarrow>
      i < length jobs \<and> cj_stage (jobs[j := job'] ! i) = Queued \<and> job_role (jobs[j := job'] ! i) = r" for i
    using lane_okD(3) [OF lane, of i] j st by (cases "i = j") auto
  have cur: "ln_current lane = Some j" using lane_okD(4) [OF lane, of j] j st by simp
  have h: "\<not> (i < length jobs \<and> in_handle (cj_stage (jobs[j := job'] ! i)) \<and> job_role (jobs[j := job'] ! i) = r)" for i
  proof (cases "i = j")
    case False
    with lane_okD(4) [OF lane, of i] cur show ?thesis by simp
  qed (use j st in simp)
  have "\<not> ln_exited lane" using lane_okD(5) [OF lane] cur by auto
  then show ?thesis using lane_okD(1,2) [OF lane] q h by (simp add: lane_ok_def)
qed

lemma lane_ok_exit:
  "lane_ok c jobs True r lane \<Longrightarrow> ln_current lane = None \<Longrightarrow> lane_ok c jobs True r (lane\<lparr>ln_exited := True\<rparr>)"
  by (simp add: lane_ok_def)

lemma follow_role: "tokens_follow c x j job' s s' \<Longrightarrow> job_role job' = job_role (q_jobs s ! j)"
  using move_context by (fastforce simp: tokens_follow_def)

text \<open>The lanes stay in order when the step keeps the lane of its role in order and leaves the others alone.\<close>

lemma lanes_follow:
  assumes f: "tokens_follow c x j job' s s'" and ok: "lanes_ok c s"
    and r: "\<And>l'. q_lanes s' (job_role job') = Some l' \<Longrightarrow> lane_ok c (q_jobs s') (q_done s) (job_role job') l'"
    and other: "\<And>r. r \<noteq> job_role job' \<Longrightarrow> q_lanes s' r = q_lanes s r"
    and grows: "q_lanes s (job_role job') \<noteq> None \<longrightarrow> q_lanes s' (job_role job') \<noteq> None"
    and here: "cj_stage job' \<noteq> Unqueued \<or> cj_caller job' = InLane \<longrightarrow> q_lanes s' (job_role job') \<noteq> None"
  shows "lanes_ok c s'"
proof -
  from f have j: "j < length (q_jobs s)" and jobs: "q_jobs s' = (q_jobs s)[j := job']" and d: "q_done s' = q_done s"
    by (simp_all add: tokens_follow_def)
  note role = follow_role [OF f]
  have "dom (q_lanes s') \<subseteq> insert (job_role job') (dom (q_lanes s))" using other by (auto simp: dom_def)
  then have "finite (dom (q_lanes s'))" using ok by (meson finite.insertI finite_subset lanes_ok_def)
  moreover have "q_lanes s' (job_role job) \<noteq> None"
    if "job \<in> set (q_jobs s')" "cj_stage job \<noteq> Unqueued \<or> cj_caller job = InLane" for job
  proof (cases "job = job'")
    case False
    then have "job \<in> set (q_jobs s)" using that(1) jobs set_update_subset_insert by fastforce
    then have "q_lanes s (job_role job) \<noteq> None" using that(2) ok by (simp add: lanes_ok_def)
    then show ?thesis using other grows by (cases "job_role job = job_role job'") simp_all
  qed (use that here in simp)
  moreover have "lane_ok c (q_jobs s') (q_done s') x l" if "q_lanes s' x = Some l" for x l
  proof (cases "x = job_role job'")
    case False
    with that other ok have "lane_ok c (q_jobs s) (q_done s) x l" by (simp add: lanes_ok_def)
    then show ?thesis using lane_ok_other [OF _ j role, of c "q_done s" x l] role False jobs d by simp
  qed (use that r d in simp)
  ultimately show ?thesis by (simp add: lanes_ok_def)
qed

lemma lanes_kept:
  assumes "change c x s s'" "lanes_ok c s"
  shows "lanes_ok c s'"
  using assms
proof (induction rule: change.induct)
  case (submit s req parent)
  let ?s = "dispatch_start req parent s"
  have "lane_ok c (q_jobs ?s) (q_done ?s) r l" if "lane_ok c (q_jobs s) (q_done s) r l" for r l
  proof -
    have "i < length (q_jobs ?s) \<and> P (cj_stage (q_jobs ?s ! i)) \<and> job_role (q_jobs ?s ! i) = r \<longleftrightarrow>
        i < length (q_jobs s) \<and> P (cj_stage (q_jobs s ! i)) \<and> job_role (q_jobs s ! i) = r" if "\<not> P Unqueued" for i P
      using that by (auto simp: dispatch_start_def nth_append less_Suc_eq)
    from this [of "\<lambda>st. st = Queued"] this [of in_handle] \<open>lane_ok c (q_jobs s) (q_done s) r l\<close>
    show ?thesis by (simp add: lane_ok_def) (simp add: dispatch_start_def)
  qed
  with submit show ?case by (auto simp: lanes_ok_def) (auto simp: dispatch_start_def)
next
  case (close s)
  then show ?case by (auto simp: lanes_ok_def lane_ok_def queue_Close_def)
next
  case (exit s r l s')
  then have "lane_ok c (q_jobs s) True r l" by (simp add: lanes_ok_def)
  with exit lane_ok_exit [OF this] show ?case by (auto simp: lanes_ok_def set_lane_def)
next
  case (job x j job' s s')
  have jobs: "j < length (q_jobs s)" "q_jobs s' = (q_jobs s)[j := job']"
    using job(1) by (simp_all add: tokens_follow_def)
  note role = follow_role [OF job(1)]
  have "cj_stage job' \<noteq> Unqueued \<or> cj_caller job' = InLane \<longrightarrow> q_lanes s (job_role (q_jobs s ! j)) \<noteq> None"
    using job(2,4) nth_mem [OF jobs(1)] by (auto simp: lanes_ok_def same_place_def)
  moreover have "lane_ok c (q_jobs s') (q_done s) (job_role job') l" if "q_lanes s (job_role job') = Some l" for l
    using lane_ok_other [OF lanes_okD [OF job(4) that] jobs(1) role] job(2) by (simp add: jobs(2) same_place_def)
  ultimately show ?case
    by (intro lanes_follow [OF job(1,4)]) (simp_all add: job(3) role)
next
  case (lane j job' s s')
  have jobs: "j < length (q_jobs s)" "q_jobs s' = (q_jobs s)[j := job']"
    using lane(1) by (simp_all add: tokens_follow_def)
  note role = follow_role [OF lane(1)]
  have old: "lane_ok c (q_jobs s') (q_done s) (job_role job') l" if "q_lanes s (job_role job') = Some l" for l
    using lane_ok_other [OF lanes_okD [OF lane(6) that] jobs(1) role] lane(2) by (simp add: jobs(2))
  have "cj_stage (q_jobs s' ! i) = Unqueued"
    if none: "q_lanes s (job_role job') = None" and i: "i < length (q_jobs s)" "job_role (q_jobs s' ! i) = job_role job'" for i
  proof (cases "i = j")
    case False
    then have "q_jobs s' ! i = q_jobs s ! i" by (simp add: jobs(2))
    with none i nth_mem [OF i(1)] lane(6) show ?thesis unfolding lanes_ok_def by metis
  qed (use jobs lane(5) in simp)
  then have new: "lane_ok c (q_jobs s') (q_done s) (job_role job') \<lparr>ln_jobs = [], ln_current = None, ln_exited = False\<rparr>"
    if "q_lanes s (job_role job') = None"
    using that by (auto simp: lane_ok_def jobs(2))
  show ?case
    by (rule lanes_follow [OF lane(1,6)]) (use old new in \<open>auto simp: lane(3) split: if_splits\<close>)
next
  case (enter x j job' s s' l)
  have jobs: "j < length (q_jobs s)" "q_jobs s' = (q_jobs s)[j := job']"
    using enter(1) by (simp_all add: tokens_follow_def)
  have "lane_ok c (q_jobs s) (q_done s) (job_role job') l" using enter(4,7) by (simp add: lanes_ok_def)
  from lane_ok_enter [OF this jobs(1) refl enter(2,3,5)] show ?case
    by (intro lanes_follow [OF enter(1,7)]) (auto simp: enter(6) jobs(2))
next
  case (take x j job' s s' l js)
  have jobs: "q_jobs s' = (q_jobs s)[j := job']"
    using take(1) by (simp_all add: tokens_follow_def)
  have "lane_ok c (q_jobs s) (q_done s) (job_role job') l" using take(3,8) by (simp add: lanes_ok_def)
  from lane_ok_take [OF this refl take(2,4,6,5)] show ?case
    by (intro lanes_follow [OF take(1,8)]) (auto simp: take(7) jobs)
next
  case (leave x j job' s s' l)
  have jobs: "j < length (q_jobs s)" "q_jobs s' = (q_jobs s)[j := job']"
    using leave(1) by (simp_all add: tokens_follow_def)
  have "lane_ok c (q_jobs s) (q_done s) (job_role job') l" using leave(4,6) by (simp add: lanes_ok_def)
  from lane_ok_leave [OF this jobs(1) follow_role [OF leave(1), symmetric] leave(2,3)] show ?case
    by (intro lanes_follow [OF leave(1,6)]) (auto simp: leave(5) jobs(2))
qed

lemma queue_ok_step:
  assumes "queue_step c a s = Some s'" "queue_ok c s"
  shows "queue_ok c s'"
proof -
  have ch: "change c (external a) s s'" by (rule step_change [OF assms])
  have ok: "tokens_ok c s" "\<forall>job\<in>set (q_jobs s). pcs_ok job \<and> results_ok c job"
    using assms(2) by (auto simp: queue_ok_def)
  have follow: "tokens_ok c t' \<and> (\<forall>job\<in>set (q_jobs t'). pcs_ok job \<and> results_ok c job)"
    if "tokens_follow c x j job' t t'" "tokens_ok c t" "\<forall>job\<in>set (q_jobs t). pcs_ok job \<and> results_ok c job" for x j job' t t'
  proof -
    have j: "j < length (q_jobs t)" "q_jobs t' = (q_jobs t)[j := job']" "job_move c x (q_jobs t ! j) job'"
      using that(1) by (auto simp: tokens_follow_def)
    then have "pcs_ok job' \<and> results_ok c job'" using that(3) move_pcs move_results by (metis nth_mem)
    with that(3) have "\<forall>job\<in>set (q_jobs t'). pcs_ok job \<and> results_ok c job"
      using set_update_subset_insert [of "q_jobs t" j job'] by (auto simp: j(2))
    with tokens_kept [OF that(1,2)] show ?thesis by blast
  qed
  from ch consider req parent where "s' = dispatch_start req parent s" | "s' = queue_Close s"
    | x j job' where "tokens_follow c x j job' s s'" | r l where "s' = set_lane r l s"
    by (cases rule: change.cases) blast+
  then have "tokens_ok c s' \<and> (\<forall>job\<in>set (q_jobs s'). pcs_ok job \<and> results_ok c job)"
  proof cases
    case 1
    with ok show ?thesis
      by (simp add: tokens_ok_def dispatch_start_def ball_Un) (simp add: pcs_ok_def results_ok_def)
  next
    case 2
    with ok show ?thesis by (simp add: tokens_ok_def queue_Close_def)
  next
    case (3 x j job')
    then show ?thesis using follow ok by blast
  next
    case 4
    with ok show ?thesis by (simp add: tokens_ok_def set_lane_def)
  qed
  with lanes_kept [OF ch] assms(2) show ?thesis by (simp add: queue_ok_def)
qed

lemma new_queue_ok:
  assumes "NewCommandRequestQueue d opts w = (c, s)"
  shows "queue_ok c s"
  using assms by (auto simp: NewCommandRequestQueue_def Let_def queue_ok_def tokens_ok_def lanes_ok_def)

lemma steps_ok: "queue_steps c as s = Some s' \<Longrightarrow> queue_ok c s \<Longrightarrow> queue_ok c s'"
  by (induction "as" arbitrary: s) (auto simp: bind_eq_Some_conv dest: queue_ok_step)

section \<open>Every caller gets an answer\<close>

lemma capacity_free:
  assumes "tokens_ok c s" "j < length (q_jobs s)"
  shows "\<exists>s1. releaseCapacity j s = Some s1"
proof (cases "cj_held (q_jobs s ! j)")
  case True
  with assms(2) have "q_jobs s ! j \<in> set (filter cj_held (q_jobs s))" by simp
  then have "0 < length (filter cj_held (q_jobs s))" by (rule length_pos_if_in_set)
  with True assms(1) show ?thesis by (simp add: releaseCapacity_def tokens_ok_def)
qed (simp add: releaseCapacity_def)

lemma slot_free:
  assumes "tokens_ok c s" "j < length (q_jobs s)"
  shows "\<exists>s1. releaseWorker j s = Some s1"
proof (cases "cj_slot (q_jobs s ! j)")
  case True
  with assms(2) have "q_jobs s ! j \<in> set (filter cj_slot (q_jobs s))" by simp
  then have "0 < length (filter cj_slot (q_jobs s))" by (rule length_pos_if_in_set)
  with True assms(1) show ?thesis by (simp add: releaseWorker_def tokens_ok_def)
qed (simp add: releaseWorker_def)

definition can_move :: "'s queue_config \<Rightarrow> 's CommandRequestQueue \<Rightarrow> bool" where
  "can_move c s \<longleftrightarrow> (\<exists>a s'. \<not> external a \<and> queue_step c a s = Some s')"

lemma can_moveI:
  assumes "\<not> external a" "at_action s a" "do_action c a s \<noteq> None"
  shows "can_move c s"
proof -
  from assms(3) obtain s' where "do_action c a s = Some s'" by blast
  with assms(1,2) have "\<not> external a \<and> queue_step c a s = Some s'" by (simp add: queue_step_def)
  then show ?thesis unfolding can_move_def by blast
qed

lemma worker_moves:
  assumes "tokens_ok c s" "j < length (q_jobs s)" "\<forall>req w. qc_dispatcher c req w \<noteq> None"
    and "cj_worker (q_jobs s ! j) \<in> {Running, Releasing}"
  shows "can_move c s"
proof (cases "cj_worker (q_jobs s ! j) = Running")
  case True
  from assms(3) obtain r w where "qc_dispatcher c (cj_req (q_jobs s ! j)) (q_world s) = Some (r, w)" by fastforce
  with True assms(2) show ?thesis by (intro can_moveI [where a = "WorkerDispatch j"]) (auto simp: worker_dispatch_def)
next
  case False
  with slot_free [OF assms(1,2)] assms(2,4) show ?thesis
    by (auto simp: worker_release_def intro!: can_moveI [where a = "WorkerRelease j"])
qed

lemma handle_moves:
  assumes ok: "queue_ok c s" and j: "j < length (q_jobs s)" "in_handle (cj_stage (q_jobs s ! j))"
    and total: "\<forall>req w. qc_dispatcher c req w \<noteq> None" and workers: "0 < qc_workers c"
  shows "can_move c s"
proof -
  let ?job = "q_jobs s ! j"
  have tok: "tokens_ok c s" and pc: "pcs_ok ?job" and lane: "q_lanes s (job_role ?job) \<noteq> None"
    using ok j nth_mem [OF j(1)] by (auto simp: queue_ok_def lanes_ok_def in_handle_def)
  consider "cj_stage ?job = Begun" | "cj_stage ?job = Acquiring" | "cj_stage ?job = Serving" | "cj_stage ?job = Finishing"
    using j(2) by (auto simp: in_handle_def)
  then show ?thesis
  proof cases
    case 1
    show ?thesis
    proof (cases "cj_ctx ?job")
      case None
      with 1 j(1) show ?thesis by (intro can_moveI [where a = "HandleBegin Default j"]) auto
    next
      case (Some e)
      with 1 j(1) show ?thesis
        by (intro can_moveI [where a = "HandleBegin CtxDone j"]) (auto simp: send_context_error_def)
    qed
  next
    case 2
    show ?thesis
    proof (cases "q_slots s < qc_workers c")
      case True
      with 2 j(1) show ?thesis by (intro can_moveI [where a = "Acquire Ready j"]) auto
    next
      case False
      with tok workers have "filter cj_slot (q_jobs s) \<noteq> []" by (auto simp: tokens_ok_def)
      then obtain k where k: "k < length (q_jobs s)" "cj_slot (q_jobs s ! k)"
        by (auto simp: filter_empty_conv in_set_conv_nth)
      with ok have "pcs_ok (q_jobs s ! k)" by (simp add: queue_ok_def)
      with k(2) have "cj_worker (q_jobs s ! k) \<in> {Running, Releasing}" by (auto simp: pcs_ok_def split: worker.splits)
      with worker_moves [OF tok k(1) total] show ?thesis by simp
    qed
  next
    case 3
    show ?thesis
    proof (cases "cj_worker ?job \<in> {Running, Releasing}")
      case True
      then show ?thesis by (rule worker_moves [OF tok j(1) total])
    next
      case False
      with pc 3 obtain r where "cj_inner ?job = Some r" by (auto simp: pcs_ok_def split: worker.splits)
      with 3 j(1) show ?thesis by (intro can_moveI [where a = "Serve Ready j"]) auto
    qed
  next
    case 4
    with capacity_free [OF tok j(1)] lane j(1) show ?thesis
      by (auto simp: handle_return_def Let_def intro!: can_moveI [where a = "HandleReturn j"])
  qed
qed

text \<open>A caller that has to give its token back can always do so and return.\<close>

lemma caller_returns:
  assumes "tokens_ok c s" "j < length (q_jobs s)"
    and "a = Enqueue choice j \<and> cj_caller (q_jobs s ! j) = InLane \<or> a = Wait choice j \<and> cj_caller (q_jobs s ! j) = Waiting"
    and "choice = CtxDone \<and> cj_ctx (q_jobs s ! j) \<noteq> None \<or> choice = QueueDone \<and> q_done s"
  shows "can_move c s"
proof -
  from capacity_free [OF assms(1,2)] obtain s1 where s1: "releaseCapacity j s = Some s1" ..
  note rel = release_jobs [OF s1 assms(2)]
  from assms(2) rel(1) have ctx: "cj_ctx (q_jobs s1 ! j) = cj_ctx (q_jobs s ! j)" by simp
  have at: "at_action s a" "\<not> external a" using assms(2,3) by auto
  from assms(4) show ?thesis
  proof
    assume c: "choice = CtxDone \<and> cj_ctx (q_jobs s ! j) \<noteq> None"
    with s1 ctx assms(3) show ?thesis
      by (intro can_moveI [OF at(2,1)]) (auto simp: context_return_def Let_def)
  next
    assume c: "choice = QueueDone \<and> q_done s"
    with s1 rel(3) assms(3) show ?thesis
      by (intro can_moveI [OF at(2,1)]) (auto simp: closed_return_def)
  qed
qed

lemma starting_moves:
  assumes "j < length (q_jobs s)" "cj_caller (q_jobs s ! j) = Starting"
  shows "can_move c s"
proof -
  have at: "at_action s (Admit choice j)" "\<not> external (Admit choice j)" for choice using assms by simp_all
  consider "q_capacity s < qc_capacity c" | "cj_ctx (q_jobs s ! j) \<noteq> None" | "q_done s"
    | "\<not> q_capacity s < qc_capacity c" "cj_ctx (q_jobs s ! j) = None" "\<not> q_done s" by blast
  then show ?thesis
  proof cases
    case 1
    then show ?thesis by (intro can_moveI [OF at(2) at(1) [of Ready]]) simp
  next
    case 2
    then show ?thesis by (intro can_moveI [OF at(2) at(1) [of CtxDone]]) (auto simp: context_return_def Let_def)
  next
    case 3
    then show ?thesis by (intro can_moveI [OF at(2) at(1) [of QueueDone]]) (simp add: closed_return_def)
  next
    case 4
    then show ?thesis by (intro can_moveI [OF at(2) at(1) [of Default]]) (auto simp: full_return_def)
  qed
qed

lemma in_lane_moves:
  assumes tok: "tokens_ok c s" and j: "j < length (q_jobs s)" "cj_caller (q_jobs s ! j) = InLane"
    and lane: "q_lanes s (job_role (q_jobs s ! j)) = Some l"
  shows "can_move c s"
proof (cases "cj_ctx (q_jobs s ! j) \<noteq> None \<or> q_done s")
  case True
  then show ?thesis using caller_returns [OF tok j(1)] j(2) by blast
next
  case False
  have at: "at_action s (Enqueue choice j)" "\<not> external (Enqueue choice j)" for choice using j by simp_all
  show ?thesis
  proof (cases "length (ln_jobs l) < qc_role_capacity c")
    case True
    then show ?thesis by (intro can_moveI [OF at(2) at(1) [of Ready]]) (simp add: lane)
  next
    case full: False
    from capacity_free [OF tok j(1)] obtain s1 where s1: "releaseCapacity j s = Some s1" ..
    from release_jobs(1,3) [OF this j(1)] j(1) have "cj_ctx (q_jobs s1 ! j) = cj_ctx (q_jobs s ! j)" "q_done s1 = q_done s"
      by simp_all
    with s1 full False show ?thesis
      by (intro can_moveI [OF at(2) at(1) [of Default]]) (auto simp: lane full_return_def)
  qed
qed

lemma waiting_moves:
  assumes ok: "queue_ok c s" and j: "j < length (q_jobs s)" "cj_caller (q_jobs s ! j) = Waiting"
    and total: "\<forall>req w. qc_dispatcher c req w \<noteq> None" and workers: "0 < qc_workers c"
  shows "can_move c s"
proof -
  let ?job = "q_jobs s ! j"
  have pc: "pcs_ok ?job" and tok: "tokens_ok c s" and lanes: "lanes_ok c s"
    using ok nth_mem [OF j(1)] by (auto simp: queue_ok_def)
  then have st: "cj_stage ?job \<noteq> Unqueued" using j(2) by (simp add: pcs_ok_def)
  with lanes nth_mem [OF j(1)] obtain l where l: "q_lanes s (job_role ?job) = Some l" by (auto simp: lanes_ok_def)
  note lane = lane_okD [OF lanes_okD [OF lanes l]]
  consider "cj_stage ?job = Queued" | "in_handle (cj_stage ?job)" | "cj_stage ?job = Handled"
    using st by (cases "cj_stage ?job") simp_all
  then show ?thesis
  proof cases
    case 1
    then have q: "j \<in> set (ln_jobs l)" using lane(3) j(1) by simp
    show ?thesis
    proof (cases "ln_exited l")
      case True
      with lane(5) have "q_done s" by simp
      then show ?thesis using caller_returns [OF tok j(1)] j(2) by blast
    next
      case False
      show ?thesis
      proof (cases "ln_current l")
        case None
        with False q l show ?thesis
          by (intro can_moveI [where a = "LaneRun Ready (job_role ?job)"])
            (auto simp: lane_run_def split: list.splits)
      next
        case (Some k)
        with lane(4) handle_moves [OF ok _ _ total workers] show ?thesis by blast
      qed
    qed
  next
    case 2
    then show ?thesis by (rule handle_moves [OF ok j(1) _ total workers])
  next
    case 3
    with pc j(2) obtain r where "cj_result ?job = Some r" by (auto simp: pcs_ok_def)
    with j show ?thesis by (intro can_moveI [where a = "Wait Ready j"]) auto
  qed
qed

lemma callers_move:
  assumes ok: "queue_ok c s" and j: "j < length (q_jobs s)" "\<nexists>r. cj_caller (q_jobs s ! j) = Returned r"
    and total: "\<forall>req w. qc_dispatcher c req w \<noteq> None" and workers: "0 < qc_workers c"
  shows "can_move c s"
proof (cases "cj_caller (q_jobs s ! j)")
  case Starting
  then show ?thesis by (rule starting_moves [OF j(1)])
next
  case Admitted
  with j(1) show ?thesis by (intro can_moveI [where a = "LaneFor j"]) auto
next
  case InLane
  with ok nth_mem [OF j(1)] have "q_lanes s (job_role (q_jobs s ! j)) \<noteq> None" by (auto simp: queue_ok_def lanes_ok_def)
  with ok InLane j(1) show ?thesis by (auto simp: queue_ok_def intro: in_lane_moves)
next
  case Waiting
  then show ?thesis by (rule waiting_moves [OF ok j(1) _ total workers])
qed (use j(2) in blast)

text \<open>Each step of the queue itself brings some goroutine further.\<close>

fun caller_rank :: "caller \<Rightarrow> nat" where
  "caller_rank Starting = 5" | "caller_rank Admitted = 4" | "caller_rank InLane = 2" | "caller_rank Waiting = 1"
| "caller_rank (Returned r) = 0"

fun stage_rank :: "stage \<Rightarrow> nat" where
  "stage_rank Unqueued = 6" | "stage_rank Queued = 5" | "stage_rank Begun = 4" | "stage_rank Acquiring = 3"
| "stage_rank Serving = 2" | "stage_rank Finishing = 1" | "stage_rank Handled = 0"

fun worker_rank :: "worker \<Rightarrow> nat" where
  "worker_rank NoWorker = 3" | "worker_rank Running = 2" | "worker_rank Releasing = 1" | "worker_rank Exited = 0"

definition job_rank :: "commandJob \<Rightarrow> nat" where
  "job_rank job = caller_rank (cj_caller job) + stage_rank (cj_stage job) + worker_rank (cj_worker job)"

definition open_lanes :: "'s CommandRequestQueue \<Rightarrow> int set" where
  "open_lanes s = {r. \<exists>l. q_lanes s r = Some l \<and> \<not> ln_exited l}"

definition queue_rank :: "'s CommandRequestQueue \<Rightarrow> nat" where
  "queue_rank s = sum_list (map job_rank (q_jobs s)) + card (open_lanes s)"

lemma move_rank:
  assumes "job_move c x job job'" "\<not> x" "pcs_ok job"
  shows "job_rank job' < job_rank job"
  using assms
proof (induction rule: job_move.induct)
  case (enqueue job)
  then show ?case by (simp add: job_rank_def pcs_ok_def)
next
  case (start job)
  then have "cj_worker job = NoWorker" by (simp add: pcs_ok_def split: worker.splits)
  with start show ?case by (simp add: job_rank_def)
qed (auto simp: job_rank_def)

lemma sum_list_update_nat:
  "j < length xs \<Longrightarrow> sum_list (map f (xs[j := v])) + f (xs ! j) = sum_list (map f xs) + (f v :: nat)"
proof (induction xs arbitrary: j)
  case (Cons x xs)
  then show ?case by (cases j) auto
qed simp

lemma follow_rank:
  assumes "tokens_follow c x j job' s s'" "\<forall>job\<in>set (q_jobs s). pcs_ok job"
  shows "sum_list (map job_rank (q_jobs s')) + job_rank (q_jobs s ! j) = sum_list (map job_rank (q_jobs s)) + job_rank job'"
    "\<not> x \<Longrightarrow> job_rank job' < job_rank (q_jobs s ! j)"
  using assms sum_list_update_nat [of j "q_jobs s" job_rank job'] move_rank [of c x "q_jobs s ! j" job']
  by (simp_all add: tokens_follow_def)

lemma open_lanes_finite: "lanes_ok c s \<Longrightarrow> finite (open_lanes s)"
  by (rule finite_subset [of _ "dom (q_lanes s)"]) (auto simp: open_lanes_def lanes_ok_def)

lemma change_rank:
  assumes "change c x s s'" "\<not> x" "lanes_ok c s" "\<forall>job\<in>set (q_jobs s). pcs_ok job"
  shows "queue_rank s' < queue_rank s"
  using assms
proof (induction rule: change.induct)
  case (job x j job' s s')
  have "open_lanes s' = open_lanes s" by (simp add: open_lanes_def job(3))
  with follow_rank [OF job(1,6)] job(4) show ?case by (simp add: queue_rank_def)
next
  case (lane j job' s s')
  have "card (open_lanes s') \<le> card (insert (job_role job') (open_lanes s))"
    using open_lanes_finite [OF lane(7)] by (intro card_mono) (auto simp: open_lanes_def lane(3))
  also have "\<dots> \<le> Suc (card (open_lanes s))" using open_lanes_finite [OF lane(7)] by (simp add: card_insert_if)
  finally have "card (open_lanes s') \<le> Suc (card (open_lanes s))" .
  moreover have "job_rank job' + 2 \<le> job_rank (q_jobs s ! j)" by (simp add: lane(2,4) job_rank_def)
  ultimately show ?case using follow_rank(1) [OF lane(1,8)] by (simp add: queue_rank_def)
next
  case (enter x j job' s s' l)
  have "open_lanes s' = open_lanes s" by (auto simp: open_lanes_def enter(4,6))
  with follow_rank [OF enter(1,9)] enter(7) show ?case by (simp add: queue_rank_def)
next
  case (take x j job' s s' l js)
  have "open_lanes s' = open_lanes s" by (auto simp: open_lanes_def take(3,7))
  with follow_rank [OF take(1,10)] take(8) show ?case by (simp add: queue_rank_def)
next
  case (leave x j job' s s' l)
  have "open_lanes s' = open_lanes s" by (auto simp: open_lanes_def leave(4,5))
  with follow_rank [OF leave(1,8)] leave(6) show ?case by (simp add: queue_rank_def)
next
  case (exit s r l s')
  have "open_lanes s' = open_lanes s - {r}" "r \<in> open_lanes s"
    using exit(2,4) by (auto simp: open_lanes_def exit(5) set_lane_def)
  with open_lanes_finite [OF exit(7)] have "card (open_lanes s') < card (open_lanes s)" by (metis card_Diff1_less)
  then show ?case by (simp add: queue_rank_def exit(5) set_lane_def)
qed auto

lemma step_rank:
  assumes "queue_step c a s = Some s'" "\<not> external a" "queue_ok c s"
  shows "queue_rank s' < queue_rank s"
  using change_rank [OF step_change [OF assms(1,3)] assms(2)] assms(3) by (simp add: queue_ok_def)

lemma steps_rank:
  assumes "queue_steps c as s = Some s'" "\<forall>a\<in>set as. \<not> external a" "queue_ok c s"
  shows "length as + queue_rank s' \<le> queue_rank s"
  using assms
proof (induction "as" arbitrary: s)
  case (Cons a "as")
  from Cons.prems(1) obtain s1 where s1: "queue_step c a s = Some s1" "queue_steps c as s1 = Some s'"
    by (auto simp: bind_eq_Some_conv)
  with Cons.prems Cons.IH [OF s1(2)] queue_ok_step [OF s1(1)] step_rank [OF s1(1)] show ?case by simp
qed simp

section \<open>Order in a lane\<close>

definition lane_queue :: "'s CommandRequestQueue \<Rightarrow> int \<Rightarrow> nat list" where
  "lane_queue s r = (case q_lanes s r of None \<Rightarrow> [] | Some l \<Rightarrow> ln_jobs l)"

text \<open>The jobs that the actions of a run put into the lane of a role, and those that the lane begins.\<close>

fun enters :: "action \<Rightarrow> 's CommandRequestQueue \<Rightarrow> int \<Rightarrow> nat list" where
  "enters (Enqueue Ready j) s r = (if job_role (q_jobs s ! j) = r then [j] else [])"
| "enters a s r = []"

fun begins :: "action \<Rightarrow> 's CommandRequestQueue \<Rightarrow> int \<Rightarrow> nat list" where
  "begins (LaneRun Ready r') s r = (if r' = r then take 1 (lane_queue s r) else [])"
| "begins a s r = []"

fun logged :: "(action \<Rightarrow> 's CommandRequestQueue \<Rightarrow> nat list) \<Rightarrow> 's queue_config \<Rightarrow> action list \<Rightarrow>
    's CommandRequestQueue \<Rightarrow> nat list" where
  "logged f c [] s = []"
| "logged f c (a # as) s = (case queue_step c a s of None \<Rightarrow> [] | Some s' \<Rightarrow> f a s @ logged f c as s')"

lemma set_job_lanes [simp]: "q_lanes (set_job j f s) = q_lanes s"
  by (simp add: set_job_def)

lemma release_lanes:
  "releaseCapacity j s = Some s1 \<Longrightarrow> q_lanes s1 = q_lanes s"
  "releaseWorker j s = Some s1 \<Longrightarrow> q_lanes s1 = q_lanes s"
  by (auto simp: releaseCapacity_def releaseWorker_def split: if_splits)

lemma lanes_alone:
  "dispatch_return c j r s = s1 \<Longrightarrow> q_lanes s1 = q_lanes s" "context_return c j s = Some s1 \<Longrightarrow> q_lanes s1 = q_lanes s"
  "closed_return c j s = Some s1 \<Longrightarrow> q_lanes s1 = q_lanes s" "full_return c j s = Some s1 \<Longrightarrow> q_lanes s1 = q_lanes s"
  "send_context_error j s = Some s1 \<Longrightarrow> q_lanes s1 = q_lanes s"
  by (auto simp: dispatch_return_def context_return_def closed_return_def full_return_def send_context_error_def
      send_result_def Let_def split: if_splits option.splits)

lemma lane_queue_step:
  assumes "queue_step c a s = Some s'"
  shows "lane_queue s r @ enters a s r = begins a s r @ lane_queue s' r"
proof -
  have a: "do_action c a s = Some s'" using assms by (auto simp: queue_step_def split: if_splits)
  show ?thesis
  proof (cases a)
    case (Enqueue choice j)
    with a show ?thesis
      by (cases choice) (auto simp: lane_queue_def bind_eq_Some_conv Let_def dest!: release_lanes lanes_alone
          split: if_splits option.splits)
  next
    case (LaneRun choice r')
    with a show ?thesis
      by (cases choice) (auto simp: lane_queue_def lane_run_def set_lane_def split: if_splits option.splits list.splits)
  next
    case (LaneFor j)
    with a show ?thesis by (auto simp: lane_queue_def laneFor_def Let_def split: option.splits if_splits)
  next
    case (HandleReturn j)
    with a show ?thesis
      by (auto simp: lane_queue_def handle_return_def Let_def set_lane_def dest!: release_lanes split: option.splits if_splits)
  next
    case (Admit choice j)
    with a show ?thesis by (cases choice) (auto simp: lane_queue_def dest!: lanes_alone split: if_splits)
  next
    case (Wait choice j)
    with a show ?thesis
      by (cases choice) (auto simp: lane_queue_def dispatch_return_def bind_eq_Some_conv dest!: release_lanes lanes_alone
          split: if_splits option.splits)
  next
    case (Serve choice j)
    with a show ?thesis
      by (cases choice) (auto simp: lane_queue_def send_result_def bind_eq_Some_conv dest!: release_lanes lanes_alone
          split: if_splits option.splits)
  next
    case (HandleBegin choice j)
    with a show ?thesis by (cases choice) (auto simp: lane_queue_def dest!: lanes_alone split: if_splits)
  next
    case (Acquire choice j)
    with a show ?thesis
      by (cases choice) (auto simp: lane_queue_def send_result_def dest!: lanes_alone split: if_splits)
  qed (use a in \<open>auto simp: lane_queue_def dispatch_start_def queue_Close_def worker_dispatch_def worker_release_def
      dest!: release_lanes split: if_splits option.splits\<close>)
qed

lemma lane_queue_steps:
  assumes "queue_steps c as s = Some s'"
  shows "lane_queue s r @ logged (\<lambda>a s. enters a s r) c as s = logged (\<lambda>a s. begins a s r) c as s @ lane_queue s' r"
  using assms
proof (induction "as" arbitrary: s)
  case (Cons a "as")
  then obtain s1 where s1: "queue_step c a s = Some s1" "queue_steps c as s1 = Some s'"
    by (auto simp: bind_eq_Some_conv)
  have "lane_queue s r @ enters a s r @ logged (\<lambda>a s. enters a s r) c as s1 =
      begins a s r @ lane_queue s1 r @ logged (\<lambda>a s. enters a s r) c as s1"
    using lane_queue_step [OF s1(1), of r] by (simp add: append_assoc [symmetric] del: append_assoc)
  with Cons.IH [OF s1(2)] show ?case by (simp add: s1(1))
qed simp

section \<open>Properties\<close>

text \<open>
  C12. The queue keeps its bounds after any sequence of steps: the tokens in the capacity channel are
  those of the jobs that hold one, and so for the worker slots, never more than the options allow; no
  lane holds more jobs than its channel has room; and giving a token back never blocks.
\<close>

theorem request_queue_bounded:
  assumes "NewCommandRequestQueue d opts w = (c, s0)" "queue_steps c as s0 = Some s"
  shows "q_capacity s = length (filter cj_held (q_jobs s)) \<and>
    int (q_capacity s) \<le> (if qo_Capacity opts \<le> 0 then 1024 else qo_Capacity opts) \<and>
    q_slots s = length (filter cj_slot (q_jobs s)) \<and>
    int (q_slots s) \<le> (if qo_Workers opts \<le> 0 then 4 else qo_Workers opts) \<and>
    (\<forall>r. int (length (lane_queue s r)) \<le> (if qo_RoleQueueCapacity opts \<le> 0 then 32 else qo_RoleQueueCapacity opts)) \<and>
    (\<forall>j<length (q_jobs s). releaseCapacity j s \<noteq> None \<and> releaseWorker j s \<noteq> None)"
proof -
  have ok: "queue_ok c s" by (rule steps_ok [OF assms(2) new_queue_ok [OF assms(1)]])
  then have tok: "tokens_ok c s" and lanes: "lanes_ok c s" by (simp_all add: queue_ok_def)
  have c: "qc_capacity c = nat (qo_Capacity (queue_options opts))" "qc_workers c = nat (qo_Workers (queue_options opts))"
    "qc_role_capacity c = nat (qo_RoleQueueCapacity (queue_options opts))"
    using assms(1) by (auto simp: NewCommandRequestQueue_def Let_def)
  have "length (lane_queue s r) \<le> qc_role_capacity c" for r
    using lane_okD(1) [OF lanes_okD [OF lanes]] by (auto simp: lane_queue_def split: option.splits)
  then have lane: "int (length (lane_queue s r)) \<le> (if qo_RoleQueueCapacity opts \<le> 0 then 32 else qo_RoleQueueCapacity opts)" for r
    by (auto simp: c queue_options_def le_nat_iff)
  have "q_capacity s \<le> qc_capacity c" "q_slots s \<le> qc_workers c" using tok by (simp_all add: tokens_ok_def)
  then have "int (q_capacity s) \<le> (if qo_Capacity opts \<le> 0 then 1024 else qo_Capacity opts)"
    "int (q_slots s) \<le> (if qo_Workers opts \<le> 0 then 4 else qo_Workers opts)"
    by (simp_all add: c queue_options_def split: if_splits)
  with lane tok capacity_free [OF tok] slot_free [OF tok] show ?thesis unfolding tokens_ok_def by fastforce
qed

text \<open>
  C15. A caller that has returned got an answer to its own request: what the dispatcher answers to
  it, the refusal of the full queue, the error of the closed queue, the error of its own context, or the
  timeout, and the timeout only if its context or the dispatcher ran into a deadline.
\<close>

theorem queue_answers_own_request:
  assumes "NewCommandRequestQueue d opts w = (c, s0)" "queue_steps c as s0 = Some s"
    and "job \<in> set (q_jobs s)" "cj_caller job = Returned r"
  shows "(\<exists>w1 w2. d (cj_req job) w1 = Some (r, w2)) \<or> r = Inl ErrCommandQueueClosed \<or>
    r = Inr (commandQueueFullResponse (cj_req job)) \<or> (\<exists>e. cj_ctx job = Some e \<and> r = Inl e) \<or>
    r = Inr (commandTimeoutResponse (cj_req job)) \<and>
      (cj_ctx job = Some ContextDeadlineExceeded \<or> (\<exists>w1 w2. d (cj_req job) w1 = Some (Inl ContextDeadlineExceeded, w2)))"
proof -
  have "queue_ok c s" by (rule steps_ok [OF assms(2) new_queue_ok [OF assms(1)]])
  with assms(3,4) have "answer_ok c job r" by (auto simp: queue_ok_def results_ok_def)
  moreover have "qc_dispatcher c = d" using assms(1) by (auto simp: NewCommandRequestQueue_def Let_def)
  ultimately show ?thesis by (auto simp: answer_ok_def result_ok_def served_def)
qed

text \<open>
  C14. A lane is a queue: whatever is interleaved, the jobs that a role has begun are, in this order,
  the first ones that entered its lane, and the rest is what the lane still holds.
\<close>

theorem lane_begins_in_order:
  assumes "NewCommandRequestQueue d opts w = (c, s0)" "queue_steps c as s0 = Some s"
  shows "logged (\<lambda>a s. enters a s r) c as s0 = logged (\<lambda>a s. begins a s r) c as s0 @ lane_queue s r"
proof -
  have "lane_queue s0 r = []" using assms(1) by (auto simp: NewCommandRequestQueue_def Let_def lane_queue_def)
  with lane_queue_steps [OF assms(2), of r] show ?thesis by simp
qed

text \<open>
  C13. The commands of a role do not overlap as long as their contexts last: when the dispatcher
  runs for two jobs of one role at the same time, the context of one of them has ended.
\<close>

theorem one_command_per_role:
  assumes "NewCommandRequestQueue d opts w = (c, s0)" "queue_steps c as s0 = Some s"
    and "i < length (q_jobs s)" "j < length (q_jobs s)" "i \<noteq> j"
    and "cj_worker (q_jobs s ! i) = Running" "cj_worker (q_jobs s ! j) = Running"
    and "commandRoleID (cj_req (q_jobs s ! i)) = commandRoleID (cj_req (q_jobs s ! j))"
  shows "cj_ctx (q_jobs s ! i) \<noteq> None \<or> cj_ctx (q_jobs s ! j) \<noteq> None"
proof (rule ccontr)
  assume no: "\<not> ?thesis"
  have ok: "queue_ok c s" by (rule steps_ok [OF assms(2) new_queue_ok [OF assms(1)]])
  then have "pcs_ok (q_jobs s ! i)" "pcs_ok (q_jobs s ! j)" using assms(3,4) by (simp_all add: queue_ok_def)
  with assms(6,7) no have st: "cj_stage (q_jobs s ! i) = Serving" "cj_stage (q_jobs s ! j) = Serving"
    by (auto simp: pcs_ok_def)
  from ok st(1) nth_mem [OF assms(3)] obtain l where l: "q_lanes s (job_role (q_jobs s ! i)) = Some l"
    by (fastforce simp: queue_ok_def lanes_ok_def)
  have "lanes_ok c s" using ok by (simp add: queue_ok_def)
  from lane_okD(4) [OF lanes_okD [OF this l]] st assms(3,4,8) have "ln_current l = Some i" "ln_current l = Some j" by simp_all
  with assms(5) show False by simp
qed

text \<open>
  C11. Every caller gets an answer. If the dispatcher always returns, then from every state that the
  queue can reach, with no new requests and no help from contexts or \<^verbatim>\<open>Close\<close>, the goroutines can make only a bounded
  number of steps, in whatever order, and as long as a caller has not returned some goroutine can make one:
  when none can, every caller has returned.
\<close>

theorem queue_drains:
  assumes "NewCommandRequestQueue d opts w = (c, s0)" "queue_steps c as s0 = Some s"
    and "\<forall>req w. d req w \<noteq> None"
    and "queue_steps c bs s = Some s'" "\<forall>b\<in>set bs. \<not> external b"
  shows "length bs \<le> queue_rank s \<and>
    ((\<exists>b s''. \<not> external b \<and> queue_step c b s' = Some s'') \<or>
     (\<forall>job\<in>set (q_jobs s'). \<exists>r. cj_caller job = Returned r))"
proof -
  have ok: "queue_ok c s" by (rule steps_ok [OF assms(2) new_queue_ok [OF assms(1)]])
  then have ok': "queue_ok c s'" by (rule steps_ok [OF assms(4)])
  have c: "\<forall>req w. qc_dispatcher c req w \<noteq> None" "0 < qc_workers c"
    using assms(1,3) by (auto simp: NewCommandRequestQueue_def queue_options_def Let_def)
  have "can_move c s' \<or> (\<forall>job\<in>set (q_jobs s'). \<exists>r. cj_caller job = Returned r)"
    using callers_move [OF ok' _ _ c] by (metis in_set_conv_nth)
  with steps_rank [OF assms(4,5) ok] show ?thesis by (auto simp: can_move_def)
qed

section \<open>Runs\<close>

text \<open>A queue with one worker and a timeout of a second, in front of a dispatcher that answers every command.\<close>

definition queue_dispatcher :: "unit CommandDispatcher" where
  "queue_dispatcher req w = Some (Inr \<lparr>resp_CommandId = req_CommandId req, resp_Seq = req_Seq req, resp_Code = 0,
     resp_Message = ''ok'', resp_Payload = None\<rparr>, w)"

definition one_worker :: CommandQueueOptions where
  "one_worker = \<lparr>qo_Workers = 1, qo_Capacity = 0, qo_RoleQueueCapacity = 2, qo_RequestTimeout = time_second\<rparr>"

abbreviation "one_config \<equiv> fst (NewCommandRequestQueue queue_dispatcher one_worker ())"
abbreviation "one_queue \<equiv> snd (NewCommandRequestQueue queue_dispatcher one_worker ())"

definition enqueue_run :: "nat \<Rightarrow> action list" where
  "enqueue_run j = [Submit (repeat_request ''a'') None, Admit Ready j, LaneFor j, Enqueue Ready j]"

definition begin_run :: "nat \<Rightarrow> action list" where
  "begin_run j = [LaneRun Ready (commandRoleID (repeat_request ''a'')), HandleBegin Default j, Acquire Ready j]"

definition finish_run :: "nat \<Rightarrow> action list" where
  "finish_run j = [WorkerDispatch j, WorkerRelease j, Serve Ready j, HandleReturn j, Wait Ready j]"

definition overlap_run :: "action list" where
  "overlap_run = enqueue_run 0 @ begin_run 0 @ enqueue_run 1 @ [TimeoutFires 0, Serve CtxDone 0, HandleReturn 0] @ begin_run 1"

lemma one_queue: "NewCommandRequestQueue queue_dispatcher one_worker () = (one_config, one_queue)"
  by simp

lemma queue_run_obtain:
  assumes "case queue_steps c as s of None \<Rightarrow> False | Some s' \<Rightarrow> P s'"
  obtains s' where "queue_steps c as s = Some s'" "P s'"
  using assms by (cases "queue_steps c as s") auto

theorem request_queue_bounded_witness:
  "\<exists>s. queue_steps one_config overlap_run one_queue = Some s \<and> int (q_slots s) \<le> 1 \<and> int (q_capacity s) \<le> 1024 \<and>
     length (filter (\<lambda>job. cj_worker job = Running) (q_jobs s)) = 2"
proof -
  have "case queue_steps one_config overlap_run one_queue of None \<Rightarrow> False
      | Some s \<Rightarrow> length (filter (\<lambda>job. cj_worker job = Running) (q_jobs s)) = 2" by code_simp
  then obtain s where run: "queue_steps one_config overlap_run one_queue = Some s"
    "length (filter (\<lambda>job. cj_worker job = Running) (q_jobs s)) = 2" by (rule queue_run_obtain)
  from request_queue_bounded [OF one_queue run(1)] run show ?thesis by (simp add: one_worker_def)
qed

theorem queue_answers_own_request_witness:
  "\<exists>s job r. queue_steps one_config (enqueue_run 0 @ begin_run 0 @ finish_run 0) one_queue = Some s \<and>
     job \<in> set (q_jobs s) \<and> cj_caller job = Returned r \<and>
     ((\<exists>w1 w2. queue_dispatcher (cj_req job) w1 = Some (r, w2)) \<or> isl r \<or> r = Inr (commandQueueFullResponse (cj_req job)) \<or>
      r = Inr (commandTimeoutResponse (cj_req job)))"
proof -
  have "case queue_steps one_config (enqueue_run 0 @ begin_run 0 @ finish_run 0) one_queue of None \<Rightarrow> False
      | Some s \<Rightarrow> q_jobs s \<noteq> [] \<and> (case cj_caller (hd (q_jobs s)) of Returned r \<Rightarrow> True | _ \<Rightarrow> False)" by code_simp
  then obtain s where run: "queue_steps one_config (enqueue_run 0 @ begin_run 0 @ finish_run 0) one_queue = Some s"
    "q_jobs s \<noteq> [] \<and> (case cj_caller (hd (q_jobs s)) of Returned r \<Rightarrow> True | _ \<Rightarrow> False)" by (rule queue_run_obtain)
  from run(2) obtain r where r: "hd (q_jobs s) \<in> set (q_jobs s)" "cj_caller (hd (q_jobs s)) = Returned r"
    by (auto split: caller.splits)
  from queue_answers_own_request [OF one_queue run(1) r] r run(1) show ?thesis by auto
qed

theorem lane_begins_in_order_witness:
  "\<exists>s. queue_steps one_config overlap_run one_queue = Some s \<and>
     logged (\<lambda>a s. enters a s 1) one_config overlap_run one_queue =
     logged (\<lambda>a s. begins a s 1) one_config overlap_run one_queue @ lane_queue s 1"
proof -
  have "case queue_steps one_config overlap_run one_queue of None \<Rightarrow> False | Some s \<Rightarrow> True" by code_simp
  then obtain s where run: "queue_steps one_config overlap_run one_queue = Some s" by (rule queue_run_obtain)
  from lane_begins_in_order [OF one_queue run, of 1] run show ?thesis by simp
qed

theorem one_command_per_role_witness:
  "\<exists>s. queue_steps one_config overlap_run one_queue = Some s \<and>
     cj_worker (q_jobs s ! 0) = Running \<and> cj_worker (q_jobs s ! 1) = Running \<and>
     (cj_ctx (q_jobs s ! 0) \<noteq> None \<or> cj_ctx (q_jobs s ! 1) \<noteq> None)"
proof -
  have "case queue_steps one_config overlap_run one_queue of None \<Rightarrow> False
      | Some s \<Rightarrow> length (q_jobs s) = 2 \<and> cj_worker (q_jobs s ! 0) = Running \<and> cj_worker (q_jobs s ! 1) = Running \<and>
         commandRoleID (cj_req (q_jobs s ! 0)) = commandRoleID (cj_req (q_jobs s ! 1))" by code_simp
  then obtain s where run: "queue_steps one_config overlap_run one_queue = Some s"
    "length (q_jobs s) = 2 \<and> cj_worker (q_jobs s ! 0) = Running \<and> cj_worker (q_jobs s ! 1) = Running \<and>
         commandRoleID (cj_req (q_jobs s ! 0)) = commandRoleID (cj_req (q_jobs s ! 1))" by (rule queue_run_obtain)
  from one_command_per_role [OF one_queue run(1), of 0 1] run show ?thesis by simp
qed

theorem queue_drains_witness:
  "\<exists>s s'. queue_steps one_config (enqueue_run 0) one_queue = Some s \<and>
     queue_steps one_config (begin_run 0 @ finish_run 0) s = Some s' \<and>
     length (begin_run 0 @ finish_run 0) \<le> queue_rank s \<and>
     ((\<exists>b s''. \<not> external b \<and> queue_step one_config b s' = Some s'') \<or>
      (\<forall>job\<in>set (q_jobs s'). \<exists>r. cj_caller job = Returned r))"
proof -
  have "case queue_steps one_config (enqueue_run 0) one_queue of None \<Rightarrow> False
      | Some s \<Rightarrow> queue_steps one_config (begin_run 0 @ finish_run 0) s \<noteq> None" by code_simp
  then obtain s s' where run: "queue_steps one_config (enqueue_run 0) one_queue = Some s"
    "queue_steps one_config (begin_run 0 @ finish_run 0) s = Some s'" by (rule queue_run_obtain) blast
  have "\<forall>req w. queue_dispatcher req w \<noteq> None" by (simp add: queue_dispatcher_def)
  moreover have "\<forall>b\<in>set (begin_run 0 @ finish_run 0). \<not> external b" by (simp add: begin_run_def finish_run_def)
  ultimately show ?thesis using queue_drains [OF one_queue run(1) _ run(2)] run by blast
qed

end
