(* ===== verification/Hash_Ring.thy ===== *)
theory Hash_Ring
  imports Prelude "HOL-Library.Word"
begin

unbundle bit_operations_syntax

text \<open>
  The consistent hash ring of the gateway (\<^verbatim>\<open>app/gatewaysrv/router.go\<close>), with what it uses of the
  Go library: the CRC-32 of \<^verbatim>\<open>hash/crc32\<close> on 32-bit words and the binary search \<^verbatim>\<open>sort.Search\<close>.
\<close>

section \<open>CRC-32 and binary search\<close>

text \<open>
  \<^verbatim>\<open>crc32.ChecksumIEEE\<close>: the reflected polynomial \<^verbatim>\<open>0xedb88320\<close>, one bit at a time, between two
  complements.
\<close>

definition crc32_bit :: "32 word \<Rightarrow> 32 word" where
  "crc32_bit crc = (if bit crc 0 then drop_bit 1 crc XOR 0xedb88320 else drop_bit 1 crc)"

fun crc32_bits :: "nat \<Rightarrow> 32 word \<Rightarrow> 32 word" where
  "crc32_bits 0 crc = crc"
| "crc32_bits (Suc n) crc = crc32_bits n (crc32_bit crc)"

definition crc32_byte :: "32 word \<Rightarrow> char \<Rightarrow> 32 word" where
  "crc32_byte crc b = crc32_bits 8 (crc XOR of_char b)"

definition ChecksumIEEE :: "string \<Rightarrow> 32 word" where
  "ChecksumIEEE data = NOT (foldl crc32_byte (NOT 0) data)"

text \<open>\<^verbatim>\<open>sort.Search\<close>: the smallest index in \<^verbatim>\<open>[i, j)\<close> at which \<^verbatim>\<open>f\<close> holds, by halving.\<close>

function sort_search :: "(nat \<Rightarrow> bool) \<Rightarrow> nat \<Rightarrow> nat \<Rightarrow> nat" where
  "sort_search f i j =
     (if i < j then (let h = (i + j) div 2 in if \<not> f h then sort_search f (h + 1) j else sort_search f i h)
      else i)"
  by pat_completeness auto

termination by (relation "measure (\<lambda>(f, i, j). j - i)") auto

declare sort_search.simps [simp del]

section \<open>The ring\<close>

record PlayerServerInstance =
  psi_InstanceID :: string
  psi_GrpcAddr :: string
  psi_FrpcAddr :: string
  psi_Weight :: int

definition zero_instance :: PlayerServerInstance where
  "zero_instance = \<lparr>psi_InstanceID = [], psi_GrpcAddr = [], psi_FrpcAddr = [], psi_Weight = 0\<rparr>"

record ConsistentHashRouter =
  chr_virtualNodes :: int
  chr_ring :: "32 word list"
  chr_nodes :: "32 word \<rightharpoonup> PlayerServerInstance"

definition ErrNoPlayerServer :: error where
  "ErrNoPlayerServer = ErrorNew ''no available playersrv instance''"

text \<open>The division of Go rounds towards zero; the product may wrap around.\<close>

definition int_quot :: "int \<Rightarrow> int \<Rightarrow> int" where
  "int_quot a b = sgn a * (abs a div b)"

definition replicas :: "int \<Rightarrow> PlayerServerInstance \<Rightarrow> nat" where
  "replicas virtualNodes instance =
     (let weight = (if psi_Weight instance \<le> 0 then 100 else psi_Weight instance);
          n = int_quot (wrap64 (virtualNodes * weight)) 100
      in nat (if n \<le> 0 then 1 else n))"

definition virtual_points :: "int \<Rightarrow> PlayerServerInstance \<Rightarrow> 32 word list" where
  "virtual_points virtualNodes instance =
     map (\<lambda>i. ChecksumIEEE (psi_InstanceID instance @ ''#'' @ show_int (int i))) [0..<replicas virtualNodes instance]"

definition add_point ::
  "PlayerServerInstance \<Rightarrow> 32 word \<Rightarrow> 32 word list \<times> (32 word \<rightharpoonup> PlayerServerInstance) \<Rightarrow>
   32 word list \<times> (32 word \<rightharpoonup> PlayerServerInstance)" where
  "add_point instance hash = (\<lambda>(ring, nodes). (ring @ [hash], nodes(hash \<mapsto> instance)))"

definition add_instance ::
  "int \<Rightarrow> PlayerServerInstance \<Rightarrow> 32 word list \<times> (32 word \<rightharpoonup> PlayerServerInstance) \<Rightarrow>
   32 word list \<times> (32 word \<rightharpoonup> PlayerServerInstance)" where
  "add_instance virtualNodes instance acc =
     (if psi_InstanceID instance = [] then acc
      else fold (add_point instance) (virtual_points virtualNodes instance) acc)"

definition router_Update :: "PlayerServerInstance list \<Rightarrow> ConsistentHashRouter \<Rightarrow> ConsistentHashRouter" where
  "router_Update instances r =
     (let (ring, nodes) = fold (add_instance (chr_virtualNodes r)) instances ([], Map.empty)
      in r\<lparr>chr_ring := sort ring, chr_nodes := nodes\<rparr>)"

definition NewConsistentHashRouter :: "PlayerServerInstance list \<Rightarrow> int \<Rightarrow> ConsistentHashRouter" where
  "NewConsistentHashRouter instances virtualNodes = router_Update instances
     \<lparr>chr_virtualNodes = (if virtualNodes \<le> 0 then 100 else virtualNodes), chr_ring = [], chr_nodes = Map.empty\<rparr>"

definition RouteUID :: "ConsistentHashRouter \<Rightarrow> int \<Rightarrow> error + PlayerServerInstance" where
  "RouteUID r uid =
     (if chr_ring r = [] then Inl ErrNoPlayerServer
      else (let hash = ChecksumIEEE (show_int uid);
                idx = sort_search (\<lambda>i. chr_ring r ! i \<ge> hash) 0 (length (chr_ring r));
                idx = (if idx = length (chr_ring r) then 0 else idx)
            in Inr (case chr_nodes r (chr_ring r ! idx) of None \<Rightarrow> zero_instance | Some i \<Rightarrow> i)))"

section \<open>The search\<close>

lemma sort_search_first:
  assumes "i \<le> j" "\<And>a b. a \<le> b \<Longrightarrow> b < j \<Longrightarrow> f a \<Longrightarrow> f b"
  shows "i \<le> sort_search f i j \<and> sort_search f i j \<le> j \<and>
    (\<forall>k. i \<le> k \<and> k < sort_search f i j \<longrightarrow> \<not> f k) \<and> (sort_search f i j < j \<longrightarrow> f (sort_search f i j))"
  using assms
proof (induction f i j rule: sort_search.induct)
  case (1 f i j)
  show ?case
  proof (cases "i < j")
    case True
    define h where "h = (i + j) div 2"
    have h: "i \<le> h" "h < j" using True by (auto simp: h_def)
    show ?thesis
    proof (cases "f h")
      case False
      have "\<not> f k" if "k \<le> h" for k using "1.prems"(2) [OF that h(2)] False by blast
      moreover have "h + 1 \<le> sort_search f (h + 1) j \<and> sort_search f (h + 1) j \<le> j \<and>
          (\<forall>k. h + 1 \<le> k \<and> k < sort_search f (h + 1) j \<longrightarrow> \<not> f k) \<and>
          (sort_search f (h + 1) j < j \<longrightarrow> f (sort_search f (h + 1) j))"
        using "1.IH"(1) [OF True h_def False] h "1.prems"(2) by simp
      moreover have "sort_search f i j = sort_search f (h + 1) j"
        using True False by (simp add: sort_search.simps [of f i j] h_def Let_def)
      ultimately show ?thesis using h by (metis add_leD1 le_trans not_less_eq_eq Suc_eq_plus1)
    next
      case f: True
      have "i \<le> sort_search f i h \<and> sort_search f i h \<le> h \<and>
          (\<forall>k. i \<le> k \<and> k < sort_search f i h \<longrightarrow> \<not> f k) \<and>
          (sort_search f i h < h \<longrightarrow> f (sort_search f i h))"
        using "1.IH"(2) [OF True h_def] f h "1.prems"(2) by simp
      moreover have "sort_search f i j = sort_search f i h"
        using True f by (simp add: sort_search.simps [of f i j] h_def Let_def)
      ultimately show ?thesis using h f by (metis le_neq_implies_less less_imp_le le_less_trans)
    qed
  qed (use "1.prems"(1) in \<open>auto simp: sort_search.simps\<close>)
qed


section \<open>What the ring holds\<close>

lemma fold_add_point:
  "fold (add_point instance) ps (ring, nodes) =
     (ring @ ps, \<lambda>x. if x \<in> set ps then Some instance else nodes x)"
  by (induction ps arbitrary: ring nodes) (auto simp: add_point_def fun_eq_iff)

text \<open>The points of an instance; an instance without an id is skipped.\<close>

definition owned :: "int \<Rightarrow> PlayerServerInstance \<Rightarrow> 32 word set" where
  "owned virtualNodes instance =
     (if psi_InstanceID instance = [] then {} else set (virtual_points virtualNodes instance))"

definition ring_points :: "int \<Rightarrow> PlayerServerInstance list \<Rightarrow> 32 word set" where
  "ring_points virtualNodes instances = (\<Union>instance\<in>set instances. owned virtualNodes instance)"

text \<open>When points of two instances are equal, the later one has it.\<close>

fun owner :: "int \<Rightarrow> PlayerServerInstance list \<Rightarrow> 32 word \<rightharpoonup> PlayerServerInstance" where
  "owner virtualNodes [] x = None"
| "owner virtualNodes (instance # instances) x = (case owner virtualNodes instances x of
       Some i \<Rightarrow> Some i
     | None \<Rightarrow> if x \<in> owned virtualNodes instance then Some instance else None)"

lemma fold_add_instance:
  assumes "fold (add_instance n) instances (ring, nodes) = (ring', nodes')"
  shows "set ring' = set ring \<union> ring_points n instances \<and>
    (\<forall>x. nodes' x = (case owner n instances x of Some i \<Rightarrow> Some i | None \<Rightarrow> nodes x))"
  using assms
proof (induction instances arbitrary: ring nodes)
  case (Cons srv rest)
  show ?case
  proof (cases "psi_InstanceID srv = []")
    case True
    with Cons.prems Cons.IH [of ring nodes] show ?thesis
      by (simp add: add_instance_def ring_points_def owned_def split: option.splits)
  next
    case False
    let ?ps = "virtual_points n srv"
    have "fold (add_instance n) rest (ring @ ?ps, \<lambda>x. if x \<in> set ?ps then Some srv else nodes x) = (ring', nodes')"
      using Cons.prems False by (simp add: add_instance_def [of n srv] fold_add_point)
    from Cons.IH [OF this] False show ?thesis
      by (auto simp: ring_points_def owned_def split: option.splits)
  qed
qed (simp add: ring_points_def)

lemma owner_None: "owner n instances x = None \<longleftrightarrow> x \<notin> ring_points n instances"
  by (induction instances) (auto simp: ring_points_def split: option.splits)

lemma router_Update_content:
  "set (chr_ring (router_Update instances r)) = ring_points (chr_virtualNodes r) instances"
  "sorted (chr_ring (router_Update instances r))"
  "chr_nodes (router_Update instances r) = owner (chr_virtualNodes r) instances"
  "chr_virtualNodes (router_Update instances r) = chr_virtualNodes r"
proof -
  obtain ring nodes where f: "fold (add_instance (chr_virtualNodes r)) instances ([], Map.empty) = (ring, nodes)"
    by fastforce
  from fold_add_instance [OF f]
  show "set (chr_ring (router_Update instances r)) = ring_points (chr_virtualNodes r) instances"
    "sorted (chr_ring (router_Update instances r))"
    "chr_nodes (router_Update instances r) = owner (chr_virtualNodes r) instances"
    "chr_virtualNodes (router_Update instances r) = chr_virtualNodes r"
    by (auto simp: router_Update_def f fun_eq_iff split: option.splits)
qed

text \<open>The point that a hash belongs to: the next one on the ring, or the first.\<close>

definition successor :: "32 word set \<Rightarrow> 32 word \<Rightarrow> 32 word" where
  "successor S h = (if \<exists>x\<in>S. h \<le> x then Min {x \<in> S. h \<le> x} else Min S)"

lemma search_successor:
  assumes "sorted ring" "ring \<noteq> []"
  shows "(let idx = sort_search (\<lambda>i. ring ! i \<ge> h) 0 (length ring)
          in ring ! (if idx = length ring then 0 else idx)) = successor (set ring) h"
proof -
  define idx where "idx = sort_search (\<lambda>i. ring ! i \<ge> h) 0 (length ring)"
  have "0 \<le> idx \<and> idx \<le> length ring \<and> (\<forall>k. 0 \<le> k \<and> k < idx \<longrightarrow> \<not> ring ! k \<ge> h) \<and> (idx < length ring \<longrightarrow> ring ! idx \<ge> h)"
    unfolding idx_def
  proof (rule sort_search_first)
    fix a b
    assume "a \<le> b" "b < length ring" "h \<le> ring ! a"
    then show "h \<le> ring ! b" using sorted_nth_mono [OF assms(1), of a b] by (rule_tac order_trans)
  qed simp
  then have idx: "idx \<le> length ring" "\<And>k. k < idx \<Longrightarrow> ring ! k < h" "idx < length ring \<Longrightarrow> h \<le> ring ! idx"
    by (auto simp: not_le)
  show ?thesis
  proof (cases "idx = length ring")
    case True
    then have "\<not> (\<exists>x\<in>set ring. h \<le> x)" using idx(2) by (auto simp: in_set_conv_nth not_le)
    moreover have "ring ! 0 = Min (set ring)"
      using assms by (intro Min_eqI [symmetric]) (auto simp: in_set_conv_nth intro: sorted_nth_mono)
    ultimately show ?thesis using True by (simp add: successor_def idx_def [symmetric])
  next
    case False
    then have lt: "idx < length ring" using idx(1) by simp
    have "ring ! idx = Min {x \<in> set ring. h \<le> x}"
    proof (intro Min_eqI [symmetric])
      fix y
      assume "y \<in> {x \<in> set ring. h \<le> x}"
      then obtain k where k: "k < length ring" "y = ring ! k" "h \<le> ring ! k" by (auto simp: in_set_conv_nth)
      then have "idx \<le> k" using idx(2) [of k] by (meson leD leI)
      with k show "ring ! idx \<le> y" using sorted_nth_mono [OF assms(1)] by blast
    qed (use lt idx(3) in auto)
    moreover have "\<exists>x\<in>set ring. h \<le> x" using lt idx(3) nth_mem by blast
    ultimately show ?thesis using False by (simp add: successor_def idx_def [symmetric])
  qed
qed

section \<open>Properties of the ring\<close>

lemma RouteUID_successor:
  assumes "chr_ring r \<noteq> []" "sorted (chr_ring r)"
  shows "RouteUID r uid = Inr (case chr_nodes r (successor (set (chr_ring r)) (ChecksumIEEE (show_int uid))) of
    None \<Rightarrow> zero_instance | Some i \<Rightarrow> i)"
  using search_successor [OF assms(2,1), of "ChecksumIEEE (show_int uid)"] assms(1)
  by (simp add: RouteUID_def Let_def)

lemma successor_in: "finite S \<Longrightarrow> S \<noteq> {} \<Longrightarrow> successor S h \<in> S"
  using Min_in [of "{x \<in> S. h \<le> x}"] by (auto simp: successor_def)

lemma finite_points: "finite (ring_points n instances)"
  by (auto simp: ring_points_def owned_def)

text \<open>
  C26. The binary search on the sorted ring finds the server of the reference definition: a user
  belongs to the server that owns the next point of the ring from the hash of the user, or the first point of all
  when there is none; the last of the servers with an equal point owns it. Without points there is
  the error, and otherwise the server is one of those in the list.
\<close>

theorem route_is_successor:
  "RouteUID (NewConsistentHashRouter instances n) uid =
     (let v = (if n \<le> 0 then 100 else n); S = ring_points v instances
      in if S = {} then Inl ErrNoPlayerServer
         else Inr (the (owner v instances (successor S (ChecksumIEEE (show_int uid)))))) \<and>
   (case RouteUID (NewConsistentHashRouter instances n) uid of
      Inl e \<Rightarrow> e = ErrNoPlayerServer | Inr server \<Rightarrow> server \<in> set instances)"
proof -
  have in_list: "owner m xs x = Some i \<Longrightarrow> i \<in> set xs" for m x i and xs :: "PlayerServerInstance list"
    by (induction xs) (auto split: option.splits if_splits)
  have owned: "\<exists>i. owner m instances (successor (ring_points m instances) k) = Some i"
    if "ring_points m instances \<noteq> {}" for m k
    using owner_None [of m instances] successor_in [OF finite_points that] by blast
  define v where "v = (if n \<le> 0 then 100 else n)"
  let ?r = "NewConsistentHashRouter instances n" and ?S = "ring_points v instances"
  have r: "set (chr_ring ?r) = ?S" "sorted (chr_ring ?r)" "chr_nodes ?r = owner v instances"
    by (simp_all add: NewConsistentHashRouter_def router_Update_content v_def)
  show ?thesis
  proof (cases "?S = {}")
    case True
    with r(1) show ?thesis by (simp add: RouteUID_def v_def Let_def)
  next
    case False
    with r(1) have "chr_ring ?r \<noteq> []" by auto
    from owned [OF False] obtain i where
      i: "owner v instances (successor ?S (ChecksumIEEE (show_int uid))) = Some i" by blast
    with RouteUID_successor [OF \<open>chr_ring ?r \<noteq> []\<close> r(2), of uid] have "RouteUID ?r uid = Inr i" by (simp add: r(1,3))
    with i in_list [OF i] False show ?thesis by (simp add: v_def Let_def)
  qed
qed

lemma owner_filter:
  assumes "owner n instances x = Some i" "P i"
  shows "owner n (filter P instances) x = Some i"
  using assms
proof (induction instances)
  case (Cons srv rest)
  show ?case
  proof (cases "owner n rest x")
    case None
    have "owner n (filter P rest) x = None"
      using None by (auto simp: owner_None ring_points_def)
    with None Cons.prems show ?thesis by (auto split: if_splits)
  qed (use Cons in auto)
qed simp

lemma successor_subset:
  assumes "finite S" "T \<subseteq> S" "successor S h \<in> T"
  shows "successor T h = successor S h"
proof -
  have fin: "finite T" using assms(1,2) finite_subset by blast
  show ?thesis
  proof (cases "\<exists>x\<in>S. h \<le> x")
    case True
    then have s: "successor S h = Min {x \<in> S. h \<le> x}" by (simp add: successor_def)
    have "Min {x \<in> S. h \<le> x} \<in> {x \<in> S. h \<le> x}" using True assms(1) by (intro Min_in) auto
    then have h: "h \<le> successor S h" by (simp add: s)
    have "Min {x \<in> T. h \<le> x} = successor S h"
    proof (intro Min_eqI)
      fix y assume "y \<in> {x \<in> T. h \<le> x}"
      then show "successor S h \<le> y" using assms(1,2) by (auto simp: s intro!: Min_le)
    qed (use fin h assms(3) in auto)
    then show ?thesis using h assms(3) by (auto simp: successor_def)
  next
    case False
    then have s: "successor S h = Min S" "\<not> (\<exists>x\<in>T. h \<le> x)" using assms(2) by (auto simp: successor_def)
    have "Min T = Min S" using fin assms by (intro Min_eqI) (auto simp: s)
    then show ?thesis using s by (simp add: successor_def)
  qed
qed

text \<open>
  C25. Routing is consistent: taking servers away moves only the users of these servers. A user
  whose server stays is routed to the same server, whatever the hashes are; so new servers take users only for
  themselves.
\<close>

theorem routing_consistent:
  assumes "RouteUID (NewConsistentHashRouter instances n) uid = Inr server" "keep server"
  shows "RouteUID (NewConsistentHashRouter (filter keep instances) n) uid = Inr server"
proof -
  define v where "v = (if n \<le> 0 then 100 else n)"
  let ?h = "ChecksumIEEE (show_int uid)" and ?S = "ring_points v instances" and ?T = "ring_points v (filter keep instances)"
  have r: "set (chr_ring (NewConsistentHashRouter xs n)) = ring_points v xs" "sorted (chr_ring (NewConsistentHashRouter xs n))"
    "chr_nodes (NewConsistentHashRouter xs n) = owner v xs" for xs
    by (simp_all add: NewConsistentHashRouter_def router_Update_content v_def)
  have S: "chr_ring (NewConsistentHashRouter instances n) \<noteq> []" "?S \<noteq> {}"
    using assms(1) r(1) [of instances] by (auto simp: RouteUID_def split: if_splits)
  have "successor ?S ?h \<in> ?S" by (rule successor_in [OF finite_points S(2)])
  then obtain i where i: "owner v instances (successor ?S ?h) = Some i" using owner_None [of v instances] by fastforce
  with assms(1) RouteUID_successor [OF S(1) r(2)] have "i = server" by (simp add: r(1,3))
  with i owner_filter assms(2) have o: "owner v (filter keep instances) (successor ?S ?h) = Some server" by blast
  then have T: "successor ?S ?h \<in> ?T" using owner_None [of v "filter keep instances" "successor ?S ?h"] by simp
  have "?T \<subseteq> ?S" by (auto simp: ring_points_def)
  from successor_subset [OF finite_points this T] have s: "successor ?T ?h = successor ?S ?h" .
  have "chr_ring (NewConsistentHashRouter (filter keep instances) n) \<noteq> []" using T r(1) [of "filter keep instances"] by auto
  from RouteUID_successor [OF this r(2)] show ?thesis by (simp add: r(1,3) s o)
qed

definition sample_instance :: "string \<Rightarrow> PlayerServerInstance" where
  "sample_instance i = \<lparr>psi_InstanceID = i, psi_GrpcAddr = i @ '':9000'', psi_FrpcAddr = [], psi_Weight = 100\<rparr>"

theorem routing_consistent_witness:
  "RouteUID (NewConsistentHashRouter (map sample_instance [''a'', ''b'']) 1) 7 = Inr (sample_instance ''b'') \<and>
   RouteUID (NewConsistentHashRouter [sample_instance ''b''] 1) 7 = Inr (sample_instance ''b'')"
proof -
  have run: "RouteUID (NewConsistentHashRouter (map sample_instance [''a'', ''b'']) 1) 7 = Inr (sample_instance ''b'')"
    by code_simp
  have "filter (\<lambda>i. psi_InstanceID i = ''b'') (map sample_instance [''a'', ''b'']) = [sample_instance ''b'']"
    "psi_InstanceID (sample_instance ''b'') = ''b''"
    by (simp_all add: sample_instance_def)
  with routing_consistent [OF run, of "\<lambda>i. psi_InstanceID i = ''b''"] run show ?thesis by simp
qed

end
