(* ===== verification/Route_Service.thy ===== *)
theory Route_Service
  imports Hash_Ring Redis_Routing Mem_World Rpc_Types
begin

text \<open>
  Routing in the gateway: the service registry in etcd (\<^verbatim>\<open>infra/etcd/registry.go\<close>,
  \<^verbatim>\<open>infra/etcd/discovery.go\<close>, \<^verbatim>\<open>app/gatewaysrv/etcd_provider.go\<close>), the routes of the users
  (\<^verbatim>\<open>app/gatewaysrv/route_service.go\<close>, \<^verbatim>\<open>session.go\<close>) and the forwarding of commands to the player server of a
  user (\<^verbatim>\<open>command_forwarder.go\<close>). The clients of etcd and gRPC are parameters. The state of the gateway is the world
  and the data in memory.
\<close>

section \<open>Paths\<close>

text \<open>\<^verbatim>\<open>path.Clean\<close> and \<^verbatim>\<open>path.Join\<close> of the Go library, on the components of a path.\<close>

fun split_path :: "string \<Rightarrow> string list" where
  "split_path [] = [[]]"
| "split_path (c # cs) = (if c = CHR ''/'' then [] # split_path cs
     else (case split_path cs of [] \<Rightarrow> [[c]] | x # xs \<Rightarrow> (c # x) # xs))"

fun join_path :: "string list \<Rightarrow> string" where
  "join_path [] = []"
| "join_path [x] = x"
| "join_path (x # y # xs) = x @ ''/'' @ join_path (y # xs)"

fun clean_components :: "bool \<Rightarrow> string list \<Rightarrow> string list \<Rightarrow> string list" where
  "clean_components rooted acc [] = rev acc"
| "clean_components rooted acc (x # xs) =
     (if x = [] \<or> x = ''.'' then clean_components rooted acc xs
      else if x = ''..'' then
        (case acc of
           [] \<Rightarrow> if rooted then clean_components rooted [] xs else clean_components rooted [x] xs
         | y # ys \<Rightarrow> if y = ''..'' then clean_components rooted (x # acc) xs else clean_components rooted ys xs)
      else clean_components rooted (x # acc) xs)"

definition path_Clean :: "string \<Rightarrow> string" where
  "path_Clean p =
     (let rooted = (p \<noteq> [] \<and> hd p = CHR ''/''); body = join_path (clean_components rooted [] (split_path p))
      in if rooted then ''/'' @ body else if body = [] then ''.'' else body)"

definition path_Join :: "string list \<Rightarrow> string" where
  "path_Join elems = (let elems = filter (\<lambda>e. e \<noteq> []) elems in if elems = [] then [] else path_Clean (join_path elems))"

section \<open>The registry\<close>

record etcd_Instance =
  ei_ServiceName :: string
  ei_InstanceID :: string
  ei_PublicAddr :: string
  ei_GrpcAddr :: string
  ei_FrpcAddr :: string
  ei_Status :: string
  ei_Weight :: int
  ei_Zone :: string
  ei_Version :: string
  ei_UpdateTime :: go_time

definition marshal_instance :: "etcd_Instance \<Rightarrow> error + json" where
  "marshal_instance i = enc_struct
    [fld ''service_name'' (Inr (JStr (ei_ServiceName i))), fld ''instance_id'' (Inr (JStr (ei_InstanceID i))),
     fld ''public_addr'' (Inr (JStr (ei_PublicAddr i))), fld_omit_str ''grpc_addr'' (ei_GrpcAddr i),
     fld_omit_str ''frpc_addr'' (ei_FrpcAddr i), fld ''status'' (Inr (JStr (ei_Status i))),
     fld ''weight'' (Inr (JInt (ei_Weight i))), fld_omit_str ''zone'' (ei_Zone i),
     fld_omit_str ''version'' (ei_Version i), fld ''update_time'' (enc_time (ei_UpdateTime i))]"

fun unmarshal_instance :: "json \<Rightarrow> error + etcd_Instance" where
  "unmarshal_instance JNull = Inr \<lparr>ei_ServiceName = [], ei_InstanceID = [], ei_PublicAddr = [], ei_GrpcAddr = [],
     ei_FrpcAddr = [], ei_Status = [], ei_Weight = 0, ei_Zone = [], ei_Version = [], ei_UpdateTime = 0\<rparr>"
| "unmarshal_instance (JObj kvs) =
    res_bind (decode_string (json_field ''service_name'' kvs)) (\<lambda>service.
    res_bind (decode_string (json_field ''instance_id'' kvs)) (\<lambda>inst.
    res_bind (decode_string (json_field ''public_addr'' kvs)) (\<lambda>public.
    res_bind (decode_string (json_field ''grpc_addr'' kvs)) (\<lambda>grpc.
    res_bind (decode_string (json_field ''frpc_addr'' kvs)) (\<lambda>frpc.
    res_bind (decode_string (json_field ''status'' kvs)) (\<lambda>status.
    res_bind (decode_int (json_field ''weight'' kvs)) (\<lambda>weight.
    res_bind (decode_string (json_field ''zone'' kvs)) (\<lambda>zone.
    res_bind (decode_string (json_field ''version'' kvs)) (\<lambda>version.
    res_bind (decode_time (json_field ''update_time'' kvs)) (\<lambda>at.
      Inr \<lparr>ei_ServiceName = service, ei_InstanceID = inst, ei_PublicAddr = public, ei_GrpcAddr = grpc,
           ei_FrpcAddr = frpc, ei_Status = status, ei_Weight = weight, ei_Zone = zone, ei_Version = version,
           ei_UpdateTime = at\<rparr>))))))))))"
| "unmarshal_instance _ = Inl json_type_error"

text \<open>The calls of the etcd client that the registry makes: values by key, by prefix, and leases.\<close>

record 'w etcd_client =
  et_get :: "string \<Rightarrow> ('w, raw_message list) io"
  et_get_prefix :: "string \<Rightarrow> ('w, raw_message list) io"
  et_put :: "string \<Rightarrow> raw_message \<Rightarrow> int option \<Rightarrow> ('w, unit) io"
  et_delete :: "string \<Rightarrow> ('w, unit) io"
  et_grant :: "int \<Rightarrow> ('w, int) io"
  et_keepalive :: "int \<Rightarrow> ('w, unit) io"
  et_clock :: "'w clock"

record 'w Registry =
  rg_client :: "'w etcd_client"
  rg_ServiceKeyPrefix :: string
  rg_LeaseTTL :: duration

definition instanceKey :: "'w Registry \<Rightarrow> string \<Rightarrow> string \<Rightarrow> string" where
  "instanceKey r serviceName instanceID = path_Join [rg_ServiceKeyPrefix r, serviceName, instanceID]"

definition servicePrefix :: "'w Registry \<Rightarrow> string \<Rightarrow> string" where
  "servicePrefix r serviceName = path_Join [rg_ServiceKeyPrefix r, serviceName] @ ''/''"

definition registered_instance :: "go_time \<Rightarrow> etcd_Instance \<Rightarrow> etcd_Instance" where
  "registered_instance now i = i
     \<lparr>ei_ServiceName := (if ei_ServiceName i = [] then ''unknown'' else ei_ServiceName i),
      ei_Status := (if ei_Status i = [] then ''ready'' else ei_Status i),
      ei_Weight := (if ei_Weight i = 0 then 100 else ei_Weight i), ei_UpdateTime := now\<rparr>"

text \<open>\<^verbatim>\<open>int64(LeaseTTL.Seconds())\<close> rounds towards zero.\<close>

definition registry_Register :: "'w Registry \<Rightarrow> etcd_Instance \<Rightarrow> ('w, unit) io" where
  "registry_Register r i = (\<lambda>w.
     let (now, w1) = et_clock (rg_client r) w; i = registered_instance now i
     in io_bind (et_grant (rg_client r) (int_quot (rg_LeaseTTL r) time_second)) (\<lambda>lease.
          case marshal_instance i of
            Inl e \<Rightarrow> io_fail e
          | Inr payload \<Rightarrow>
              io_bind (et_put (rg_client r) (instanceKey r (ei_ServiceName i) (ei_InstanceID i)) (RawValid payload) (Some lease))
                (\<lambda>_. et_keepalive (rg_client r) lease)) w1)"

definition registry_UpdateStatus :: "'w Registry \<Rightarrow> string \<Rightarrow> string \<Rightarrow> string \<Rightarrow> ('w, unit) io" where
  "registry_UpdateStatus r serviceName instanceID status =
     (let key = instanceKey r serviceName instanceID
      in io_bind (et_get (rg_client r) key) (\<lambda>kvs. case kvs of
           [] \<Rightarrow> io_fail (ErrorNew (''service instance not found: '' @ serviceName @ ''/'' @ instanceID))
         | value # _ \<Rightarrow> (case Unmarshal unmarshal_instance value of
               Inl e \<Rightarrow> io_fail e
             | Inr i \<Rightarrow> (\<lambda>w. let (now, w1) = et_clock (rg_client r) w
                 in case marshal_instance (i\<lparr>ei_Status := status, ei_UpdateTime := now\<rparr>) of
                      Inl e \<Rightarrow> (Inl e, w1)
                    | Inr payload \<Rightarrow> et_put (rg_client r) key (RawValid payload) None w1))))"

definition registry_Unregister :: "'w Registry \<Rightarrow> string \<Rightarrow> string \<Rightarrow> ('w, unit) io" where
  "registry_Unregister r serviceName instanceID = et_delete (rg_client r) (instanceKey r serviceName instanceID)"

fun ready_instances :: "raw_message list \<Rightarrow> error + etcd_Instance list" where
  "ready_instances [] = Inr []"
| "ready_instances (value # values) = res_bind (Unmarshal unmarshal_instance value) (\<lambda>i.
     res_bind (ready_instances values) (\<lambda>is. Inr (if ei_Status i = ''ready'' then i # is else is)))"

definition registry_ListReady :: "'w Registry \<Rightarrow> string \<Rightarrow> ('w, etcd_Instance list) io" where
  "registry_ListReady r serviceName = io_bind (et_get_prefix (rg_client r) (servicePrefix r serviceName))
     (\<lambda>values w. (ready_instances values, w))"

definition player_server :: "etcd_Instance \<Rightarrow> PlayerServerInstance" where
  "player_server i = \<lparr>psi_InstanceID = ei_InstanceID i, psi_GrpcAddr = ei_GrpcAddr i, psi_FrpcAddr = ei_FrpcAddr i,
     psi_Weight = ei_Weight i\<rparr>"

definition ListReadyPlayerServers :: "'w Registry \<Rightarrow> ('w, PlayerServerInstance list) io" where
  "ListReadyPlayerServers registry = io_bind (registry_ListReady registry ''playersrv'')
     (\<lambda>is. io_return (map player_server is))"

section \<open>The routes of the users\<close>

type_synonym SessionRouteCache = "int \<rightharpoonup> PlayerServerInstance"

definition NewSessionRouteCache :: SessionRouteCache where
  "NewSessionRouteCache = Map.empty"

definition session_Get :: "int \<Rightarrow> SessionRouteCache \<Rightarrow> PlayerServerInstance option" where
  "session_Get uid routes = routes uid"

definition session_Set :: "int \<Rightarrow> PlayerServerInstance \<Rightarrow> SessionRouteCache \<Rightarrow> SessionRouteCache" where
  "session_Set uid route routes = routes(uid \<mapsto> route)"

definition session_Delete :: "int \<Rightarrow> SessionRouteCache \<Rightarrow> SessionRouteCache" where
  "session_Delete uid routes = routes(uid := None)"

record 'w SrvRouterStore =
  GetSrvRouter :: "int \<Rightarrow> ('w, SrvRouter option) io"
  SetSrvRouter :: "SrvRouter \<Rightarrow> duration \<Rightarrow> ('w, unit) io"
  DeleteSrvRouter :: "int \<Rightarrow> ('w, unit) io"

definition redis_SrvRouterStore :: "'w redis_repo \<Rightarrow> 'w SrvRouterStore" where
  "redis_SrvRouterStore r = \<lparr>GetSrvRouter = redis_GetSrvRouter r, SetSrvRouter = redis_SetSrvRouter r,
     DeleteSrvRouter = redis_DeleteSrvRouter r\<rparr>"

record 'w RouteService =
  rs_store :: "'w SrvRouterStore"
  rs_provider :: "('w, PlayerServerInstance list) io"
  rs_routeTTL :: duration
  rs_virtualNodes :: int
  rs_now :: "'w clock"

text \<open>What the service keeps in memory.\<close>

record route_state =
  rt_session :: SessionRouteCache
  rt_router :: ConsistentHashRouter

definition NewRouteService ::
  "'w SrvRouterStore \<Rightarrow> ('w, PlayerServerInstance list) io \<Rightarrow> duration \<Rightarrow> int \<Rightarrow> 'w clock \<Rightarrow>
   'w RouteService \<times> route_state" where
  "NewRouteService store provider routeTTL virtualNodes clock =
     (\<lparr>rs_store = store, rs_provider = provider, rs_routeTTL = (if routeTTL \<le> 0 then time_minute else routeTTL),
       rs_virtualNodes = virtualNodes, rs_now = clock\<rparr>,
      \<lparr>rt_session = NewSessionRouteCache, rt_router = NewConsistentHashRouter [] virtualNodes\<rparr>)"

definition stored_route :: "SrvRouter \<Rightarrow> PlayerServerInstance" where
  "stored_route stored = \<lparr>psi_InstanceID = sr_InstanceID stored, psi_GrpcAddr = sr_GrpcAddr stored,
     psi_FrpcAddr = sr_FrpcAddr stored, psi_Weight = 100\<rparr>"

definition srv_router :: "int \<Rightarrow> PlayerServerInstance \<Rightarrow> go_time \<Rightarrow> SrvRouter" where
  "srv_router uid route expireAt = \<lparr>sr_UID = uid, sr_SrvName = ''playersrv'', sr_InstanceID = psi_InstanceID route,
     sr_FrpcAddr = psi_FrpcAddr route, sr_GrpcAddr = psi_GrpcAddr route, sr_Version = 1, sr_ExpireAt = expireAt\<rparr>"

type_synonym ('w, 'a) route_io = "('w \<times> route_state, 'a) io"

text \<open>A new route: the ready servers, the ring, the store, the session.\<close>

definition resolve_new :: "'w RouteService \<Rightarrow> int \<Rightarrow> ('w, PlayerServerInstance) route_io" where
  "resolve_new s uid = (\<lambda>(w, st). case rs_provider s w of
       (Inl e, w1) \<Rightarrow> (Inl e, w1, st)
     | (Inr instances, w1) \<Rightarrow>
         let st1 = st\<lparr>rt_router := router_Update instances (rt_router st)\<rparr>
         in case RouteUID (rt_router st1) uid of
              Inl e \<Rightarrow> (Inl e, w1, st1)
            | Inr route \<Rightarrow>
                let (now, w2) = rs_now s w1
                in case SetSrvRouter (rs_store s) (srv_router uid route (now + rs_routeTTL s)) (rs_routeTTL s) w2 of
                     (Inl e, w3) \<Rightarrow> (Inl e, w3, st1)
                   | (Inr _, w3) \<Rightarrow> (Inr route, w3, st1\<lparr>rt_session := session_Set uid route (rt_session st1)\<rparr>))"

definition Resolve :: "'w RouteService \<Rightarrow> int \<Rightarrow> ('w, PlayerServerInstance) route_io" where
  "Resolve s uid = (\<lambda>(w, st). case session_Get uid (rt_session st) of
       Some route \<Rightarrow> (Inr route, w, st)
     | None \<Rightarrow> (case GetSrvRouter (rs_store s) uid w of
           (Inl e, w1) \<Rightarrow> (Inl e, w1, st)
         | (Inr None, w1) \<Rightarrow> resolve_new s uid (w1, st)
         | (Inr (Some stored), w1) \<Rightarrow>
             let (now, w2) = rs_now s w1
             in if now < sr_ExpireAt stored
                then (Inr (stored_route stored), w2, st\<lparr>rt_session := session_Set uid (stored_route stored) (rt_session st)\<rparr>)
                else resolve_new s uid (w2, st)))"

definition Clear :: "'w RouteService \<Rightarrow> int \<Rightarrow> ('w, unit) route_io" where
  "Clear s uid = (\<lambda>(w, st). case DeleteSrvRouter (rs_store s) uid w of
       (res, w1) \<Rightarrow> (res, w1, st\<lparr>rt_session := session_Delete uid (rt_session st)\<rparr>))"

section \<open>Forwarding\<close>

record 's CommandRouter =
  cr_Resolve :: "int \<Rightarrow> ('s, PlayerServerInstance) io"
  cr_Clear :: "int \<Rightarrow> ('s, unit) io"

type_synonym 's GameCommandClient = "CommandRequest \<Rightarrow> ('s, CommandResponse) io"
type_synonym 's GameCommandClientFactory = "PlayerServerInstance \<Rightarrow> ('s, 's GameCommandClient) io"

record 's CommandForwarder =
  cf_router :: "'s CommandRouter"
  cf_clients :: "'s GameCommandClientFactory"

definition NewCommandForwarder :: "'s CommandRouter \<Rightarrow> 's GameCommandClientFactory \<Rightarrow> 's CommandForwarder" where
  "NewCommandForwarder router clients = \<lparr>cf_router = router, cf_clients = clients\<rparr>"

text \<open>The error of \<^verbatim>\<open>Clear\<close> is dropped.\<close>

definition clear_and_fail :: "'s CommandForwarder \<Rightarrow> CommandRequest \<Rightarrow> error \<Rightarrow> ('s, CommandResponse) io" where
  "clear_and_fail f req e s = (Inl e, snd (cr_Clear (cf_router f) (req_Uid req) s))"

definition Forward :: "'s CommandForwarder \<Rightarrow> CommandRequest \<Rightarrow> ('s, CommandResponse) io" where
  "Forward f req = (\<lambda>s. case cr_Resolve (cf_router f) (req_Uid req) s of
       (Inl e, s1) \<Rightarrow> (Inl e, s1)
     | (Inr route, s1) \<Rightarrow> (case cf_clients f route s1 of
           (Inl e, s2) \<Rightarrow> clear_and_fail f req e s2
         | (Inr client, s2) \<Rightarrow> (case client req s2 of
               (Inl e, s3) \<Rightarrow> clear_and_fail f req e s3
             | (Inr resp, s3) \<Rightarrow> (Inr resp, s3))))"

text \<open>The connections of \<^verbatim>\<open>GRPCGameCommandClientFactory\<close> by address; \<^verbatim>\<open>dial\<close> and the calls of a connection are parameters.\<close>

definition grpc_ClientFor ::
  "(string \<Rightarrow> ('w, 'c) io) \<Rightarrow> PlayerServerInstance \<Rightarrow> ('w \<times> (string \<rightharpoonup> 'c), 'c) io" where
  "grpc_ClientFor dial route = (\<lambda>(w, conns). case conns (psi_GrpcAddr route) of
       Some conn \<Rightarrow> (Inr conn, w, conns)
     | None \<Rightarrow> (case dial (psi_GrpcAddr route) w of
           (Inl e, w1) \<Rightarrow> (Inl e, w1, conns)
         | (Inr conn, w1) \<Rightarrow> (Inr conn, w1, conns(psi_GrpcAddr route \<mapsto> conn))))"

text \<open>\<^verbatim>\<open>Close\<close> over the addresses in the order in which the map is traversed.\<close>

fun grpc_Close ::
  "('c \<Rightarrow> ('w, unit) io) \<Rightarrow> string list \<Rightarrow> error option \<Rightarrow> 'w \<times> (string \<rightharpoonup> 'c) \<Rightarrow> error option \<times> 'w \<times> (string \<rightharpoonup> 'c)" where
  "grpc_Close close [] firstErr s = (firstErr, s)"
| "grpc_Close close (addr # addrs) firstErr (w, conns) = (case conns addr of
       None \<Rightarrow> grpc_Close close addrs firstErr (w, conns)
     | Some conn \<Rightarrow> (case close conn w of
           (Inl e, w1) \<Rightarrow> grpc_Close close addrs (if firstErr = None then Some e else firstErr) (w1, conns(addr := None))
         | (Inr _, w1) \<Rightarrow> grpc_Close close addrs firstErr (w1, conns(addr := None))))"

definition route_router :: "'w RouteService \<Rightarrow> ('w \<times> route_state) CommandRouter" where
  "route_router s = \<lparr>cr_Resolve = Resolve s, cr_Clear = Clear s\<rparr>"

section \<open>A router that remembers\<close>

text \<open>
  What the forwarder and the server rely on: \<open>cached\<close> is what the router remembers. A remembered route is
  returned as it is, a resolved route is remembered, a cleared one is forgotten.
\<close>

locale route_cache =
  fixes R :: "'s CommandRouter" and cached :: "'s \<Rightarrow> int \<rightharpoonup> PlayerServerInstance"
  assumes hit: "cached s uid = Some i \<Longrightarrow> cr_Resolve R uid s = (Inr i, s)"
    and resolved: "cr_Resolve R uid s = (Inr i, s') \<Longrightarrow> cached s' = (cached s)(uid \<mapsto> i)"
    and failed: "cr_Resolve R uid s = (Inl e, s') \<Longrightarrow> cached s' = cached s \<and> cached s uid = None"
    and cleared: "cr_Clear R uid s = (ures, s') \<Longrightarrow> cached s' = (cached s)(uid := None)"
begin

lemma sticky:
  assumes "cr_Resolve R uid s = (Inr i, s1)" "cached s2 uid = cached s1 uid"
  shows "cr_Resolve R uid s2 = (Inr i, s2)"
  using hit resolved [OF assms(1)] assms(2) by simp

lemma forward_failed:
  assumes "cf_router f = R" "Forward f req s = (Inl e, s')"
    and clients: "\<And>route s. cached (snd (cf_clients f route s)) = cached s"
    and calls: "\<And>route s client s1. cf_clients f route s = (Inr client, s1) \<Longrightarrow> cached (snd (client req s1)) = cached s1"
  shows "cached s' (req_Uid req) = None \<and> (\<forall>u. u \<noteq> req_Uid req \<longrightarrow> cached s' u = cached s u)"
proof -
  obtain res s1 where r: "cr_Resolve R (req_Uid req) s = (res, s1)" by fastforce
  show ?thesis
  proof (cases res)
    case (Inl e')
    with assms(1,2) r have "s' = s1" by (simp add: Forward_def)
    with failed [of "req_Uid req" s e' s1] r Inl show ?thesis by simp
  next
    case (Inr route)
    have s1: "cached s1 = (cached s)(req_Uid req \<mapsto> route)" using resolved r Inr by simp
    obtain cres s2 where c: "cf_clients f route s1 = (cres, s2)" by fastforce
    have s2: "cached s2 = cached s1" using clients [of route s1] c by simp
    have "\<exists>s3. s' = snd (cr_Clear R (req_Uid req) s3) \<and> cached s3 = cached s2"
    proof (cases cres)
      case (Inl e')
      with assms(1,2) r \<open>res = Inr route\<close> c show ?thesis by (auto simp: Forward_def clear_and_fail_def)
    next
      case (Inr client)
      obtain dres s3 where d: "client req s2 = (dres, s3)" by fastforce
      have "cached s3 = cached s2" using calls [of route s1 client s2] c Inr d by simp
      with assms(1,2) r \<open>res = Inr route\<close> c Inr d show ?thesis
        by (auto simp: Forward_def clear_and_fail_def split: sum.splits)
    qed
    then obtain s3 where s3: "s' = snd (cr_Clear R (req_Uid req) s3)" "cached s3 = cached s2" by blast
    obtain ures s4 where "cr_Clear R (req_Uid req) s3 = (ures, s4)" by fastforce
    with cleared [OF this] s3 s2 s1 show ?thesis by simp
  qed
qed

end

lemma resolve_new_session:
  assumes "resolve_new s uid (w, st) = (res, w', st')"
  shows "rt_session st' = (case res of Inl _ \<Rightarrow> rt_session st | Inr i \<Rightarrow> (rt_session st)(uid \<mapsto> i))"
  using assms by (auto simp: resolve_new_def Let_def session_Set_def split: sum.splits prod.splits)

lemma Resolve_session:
  assumes "Resolve s uid (w, st) = (res, w', st')"
  shows "rt_session st' = (case res of Inl _ \<Rightarrow> rt_session st | Inr i \<Rightarrow> (rt_session st)(uid \<mapsto> i)) \<and>
    (case res of Inl _ \<Rightarrow> rt_session st uid = None | Inr i \<Rightarrow> True)"
proof (cases "rt_session st uid")
  case (Some i)
  then have "(rt_session st)(uid \<mapsto> i) = rt_session st" by auto
  with Some assms show ?thesis by (auto simp: Resolve_def session_Get_def)
next
  case None
  with assms show ?thesis
    by (auto simp: Resolve_def session_Get_def session_Set_def Let_def dest!: resolve_new_session
        split: sum.splits prod.splits option.splits if_splits)
qed

interpretation routes: route_cache "route_router s" "\<lambda>(w, st). rt_session st" for s :: "'w RouteService"
proof
  fix st :: "'w \<times> route_state" and uid i
  assume "(case st of (w, st) \<Rightarrow> rt_session st) uid = Some i"
  then show "cr_Resolve (route_router s) uid st = (Inr i, st)"
    by (cases st) (simp add: route_router_def Resolve_def session_Get_def)
next
  fix st st' :: "'w \<times> route_state" and uid i
  assume "cr_Resolve (route_router s) uid st = (Inr i, st')"
  then show "(case st' of (w, st) \<Rightarrow> rt_session st) = (case st of (w, st) \<Rightarrow> rt_session st)(uid \<mapsto> i)"
    using Resolve_session [of s uid "fst st" "snd st" "Inr i" "fst st'" "snd st'"]
    by (auto simp: route_router_def split: prod.splits)
next
  fix st st' :: "'w \<times> route_state" and uid e
  assume "cr_Resolve (route_router s) uid st = (Inl e, st')"
  then show "(case st' of (w, st) \<Rightarrow> rt_session st) = (case st of (w, st) \<Rightarrow> rt_session st) \<and>
      (case st of (w, st) \<Rightarrow> rt_session st) uid = None"
    using Resolve_session [of s uid "fst st" "snd st" "Inl e" "fst st'" "snd st'"]
    by (auto simp: route_router_def split: prod.splits)
next
  fix st st' :: "'w \<times> route_state" and uid ures
  assume "cr_Clear (route_router s) uid st = (ures, st')"
  then show "(case st' of (w, st) \<Rightarrow> rt_session st) = (case st of (w, st) \<Rightarrow> rt_session st)(uid := None)"
    by (auto simp: route_router_def Clear_def session_Delete_def split: prod.splits)
qed

section \<open>Entries in Redis\<close>

context redis
begin

text \<open>An entry that was written with a time to live is read back until it expires.\<close>

lemma set_entry:
  assumes "rd_set C k b ttl w = (Inr u, w')" "ttl > 0"
  shows "\<exists>x. ks w' k = Some (RString b, Some x) \<and> rnow w + ttl - time_millisecond < x"
proof -
  from set [OF assms(1)] obtain t e where "during rnow w w' t" "set_expiry t ttl e"
    "ks w' = (ks w)(k \<mapsto> (RString b, e))" by (auto simp: commits_def)
  then show ?thesis using assms(2) by (auto simp: set_expiry_def during_def)
qed

lemma get_entry:
  assumes "get_json C decode k w = (res, w')" "ks w k = Some (RString b, e)"
    and "\<forall>x. e = Some x \<longrightarrow> rnow w' < x" "Unmarshal decode (bytes_raw b) = Inr v"
  shows "ks w' = ks w \<and> (isl res \<or> res = Inr (Some v))"
proof -
  obtain gres w1 where g: "rd_get C k w = (gres, w1)" by fastforce
  from get [OF g] obtain t where t: "ks w1 = ks w" "during rnow w w1 t"
    "\<And>b'. gres = Inr b' \<Longrightarrow> string_at t (ks w) k = Some (Some b')"
    "gres = Inl RedisNil \<Longrightarrow> string_at t (ks w) k = Some None" by blast
  have w1: "w' = w1" using assms(1) g by (auto simp: get_json_def split: sum.splits if_splits)
  with t(2) assms(2,3) have "string_at t (ks w) k = Some (Some b)"
    by (auto simp: string_at_def ks_live_def during_def split: option.splits)
  with t(3,4) assms(1,4) g t(1) w1 show ?thesis
    by (auto simp: get_json_def split: sum.splits if_splits)
qed

lemma got_entry:
  assumes "get_json C decode k w = (Inr (Some v), w')"
  shows "ks w' = ks w \<and> (\<exists>b e. ks w k = Some (RString b, e) \<and> Unmarshal decode (bytes_raw b) = Inr v)"
proof -
  obtain gres w1 where g: "rd_get C k w = (gres, w1)" by fastforce
  from assms g obtain b where b: "gres = Inr b" "w' = w1" "Unmarshal decode (bytes_raw b) = Inr v"
    by (auto simp: get_json_def split: sum.splits if_splits)
  from get [OF g] b(1) obtain t where "ks w1 = ks w" "string_at t (ks w) k = Some (Some b)" by blast
  then show ?thesis using b
    by (auto simp: string_at_def ks_live_def split: option.splits rvalue.splits if_splits)
qed

end

section \<open>Properties\<close>

text \<open>A route in Redis: the entry under the key of the user decodes to it.\<close>

definition route_entry :: "keyspace \<Rightarrow> string \<Rightarrow> int \<Rightarrow> SrvRouter \<Rightarrow> go_time option \<Rightarrow> bool" where
  "route_entry d p uid route x \<longleftrightarrow>
     (\<exists>b. d (srvRouterKey p uid) = Some (RString b, x) \<and> Unmarshal unmarshal_srv_router (bytes_raw b) = Inr route)"

context redis
begin

lemma set_route:
  assumes "redis_SetSrvRouter \<lparr>rr_client = C, rr_prefix = p\<rparr> route ttl w = (Inr u, w')" "ttl > 0"
    and "in_int64 (sr_UID route)" "in_int64 (sr_Version route)"
  shows "\<exists>x. route_entry (ks w') p (sr_UID route) route (Some x) \<and> rnow w + ttl - time_millisecond < x"
proof -
  from assms(1,2) obtain payload where m: "marshal_srv_router route = Inr payload"
    and s: "rd_set C (srvRouterKey p (sr_UID route)) (BJson payload) ttl w = (Inr u, w')"
    by (auto simp: redis_SetSrvRouter_def entry_ttl_def split: sum.splits)
  from set_entry [OF s assms(2)] srv_router_roundtrip [OF m assms(3,4)] show ?thesis
    by (auto simp: route_entry_def)
qed

lemma resolve_stores:
  assumes store: "rs_store s = redis_SrvRouterStore \<lparr>rr_client = C, rr_prefix = p\<rparr>"
    and clock: "\<forall>w t w'. rs_now s w = (t, w') \<longrightarrow> ks w' = ks w"
    and ttl: "rs_routeTTL s > 0" and uid: "in_int64 uid" and none: "rt_session st uid = None"
    and run: "Resolve s uid (w, st) = (Inr server, w', st')"
  shows "\<exists>route x. route_entry (ks w') p uid route x \<and> stored_route route = server\<lparr>psi_Weight := 100\<rparr>"
proof -
  have new: "\<exists>route x. route_entry (ks w') p uid route x \<and> stored_route route = server\<lparr>psi_Weight := 100\<rparr>"
    if r: "resolve_new s uid (w1, st) = (Inr server, w', st')" for w1
  proof -
    from r obtain now w2 u where
      "SetSrvRouter (rs_store s) (srv_router uid server (now + rs_routeTTL s)) (rs_routeTTL s) w2 = (Inr u, w')"
      by (auto simp: resolve_new_def Let_def split: sum.splits prod.splits)
    then have "redis_SetSrvRouter \<lparr>rr_client = C, rr_prefix = p\<rparr> (srv_router uid server (now + rs_routeTTL s)) (rs_routeTTL s) w2
        = (Inr u, w')" by (simp add: store redis_SrvRouterStore_def)
    from set_route [OF this ttl] uid obtain x where
      "route_entry (ks w') p uid (srv_router uid server (now + rs_routeTTL s)) (Some x)"
      by (auto simp: srv_router_def in_int64_def)
    then show ?thesis by (auto simp: srv_router_def stored_route_def)
  qed
  obtain gres w1 where g: "redis_GetSrvRouter \<lparr>rr_client = C, rr_prefix = p\<rparr> uid w = (gres, w1)" by fastforce
  show ?thesis
  proof (cases "gres")
    case (Inr found)
    show ?thesis
    proof (cases found)
      case None
      with run none g Inr new [of w1] show ?thesis
        by (simp add: Resolve_def session_Get_def store redis_SrvRouterStore_def)
    next
      case (Some stored)
      obtain now w2 where now: "rs_now s w1 = (now, w2)" by fastforce
      from got_entry [of unmarshal_srv_router "srvRouterKey p uid" w stored w1] g Inr Some
      obtain x where e: "ks w1 = ks w" "route_entry (ks w) p uid stored x"
        by (auto simp: redis_GetSrvRouter_def route_entry_def)
      show ?thesis
      proof (cases "now < sr_ExpireAt stored")
        case True
        with run none g Inr Some now have "server = stored_route stored" "w' = w2"
          by (simp_all add: Resolve_def session_Get_def store redis_SrvRouterStore_def)
        with e clock now show ?thesis by (auto simp: stored_route_def)
      next
        case False
        with run none g Inr Some now new [of w2] show ?thesis
          by (simp add: Resolve_def session_Get_def store redis_SrvRouterStore_def)
      qed
    qed
  qed (use run none g in \<open>simp add: Resolve_def session_Get_def store redis_SrvRouterStore_def\<close>)
qed

lemma resolve_finds:
  assumes store: "rs_store s = redis_SrvRouterStore \<lparr>rr_client = C, rr_prefix = p\<rparr>"
    and none: "rt_session st uid = None" and entry: "route_entry (ks w) p uid route x"
    and found: "redis_GetSrvRouter \<lparr>rr_client = C, rr_prefix = p\<rparr> uid w = (gres, w1)"
    and alive: "\<forall>y. x = Some y \<longrightarrow> rnow w1 < y" "fst (rs_now s w1) < sr_ExpireAt route"
    and run: "Resolve s uid (w, st) = (res, w', st')"
  shows "isl res \<or> res = Inr (stored_route route)"
proof -
  from entry obtain b where b: "ks w (srvRouterKey p uid) = Some (RString b, x)"
    "Unmarshal unmarshal_srv_router (bytes_raw b) = Inr route" by (auto simp: route_entry_def)
  have "ks w1 = ks w \<and> (isl gres \<or> gres = Inr (Some route))"
    by (rule get_entry [OF _ b(1) alive(1) b(2)]) (use found in \<open>simp add: redis_GetSrvRouter_def\<close>)
  with run none found alive(2) show ?thesis
    by (auto simp: Resolve_def session_Get_def store redis_SrvRouterStore_def Let_def isl_def split: prod.splits)
qed

end


text \<open>
  C31. A command that cannot be delivered makes the gateway forget the route: whatever failed, the resolution, the
  connection or the call, the user has no route in the session afterwards, so that the next command is routed
  anew, and the routes of the other users are as before.
\<close>

theorem forward_failure_clears:
  assumes "Forward (NewCommandForwarder (route_router s) clients) req (w, st) = (Inl e, w', st')"
    and "\<forall>route w st. snd (snd (clients route (w, st))) = st"
    and "\<forall>route w st client w1 st1 req. clients route (w, st) = (Inr client, w1, st1) \<longrightarrow> snd (snd (client req (w1, st1))) = st1"
  shows "rt_session st' (req_Uid req) = None \<and> (\<forall>u. u \<noteq> req_Uid req \<longrightarrow> rt_session st' u = rt_session st u)"
proof -
  have r: "cf_router (NewCommandForwarder (route_router s) clients) = route_router s"
    "cf_clients (NewCommandForwarder (route_router s) clients) = clients" by (simp_all add: NewCommandForwarder_def)
  have "(case (w', st') of (w, st) \<Rightarrow> rt_session st) (req_Uid req) = None \<and>
      (\<forall>u. u \<noteq> req_Uid req \<longrightarrow> (case (w', st') of (w, st) \<Rightarrow> rt_session st) u = (case (w, st) of (w, st) \<Rightarrow> rt_session st) u)"
  proof (rule routes.forward_failed [OF r(1) assms(1)], unfold r(2))
    fix route and x :: "'a \<times> route_state"
    show "(case snd (clients route x) of (w, st) \<Rightarrow> rt_session st) = (case x of (w, st) \<Rightarrow> rt_session st)"
      using assms(2) by (cases x) (simp add: case_prod_beta)
  next
    fix route and x x1 :: "'a \<times> route_state" and client
    assume "clients route x = (Inr client, x1)"
    then show "(case snd (client req x1) of (w, st) \<Rightarrow> rt_session st) = (case x1 of (w, st) \<Rightarrow> rt_session st)"
      using assms(3) by (cases x; cases x1) (simp add: case_prod_beta)
  qed
  then show ?thesis by simp
qed

definition gateway_world :: mem_world where
  "gateway_world = \<lparr>mw_db = \<lparr>tb_global_mail = [], tb_condition = [], tb_state = [], tb_ledger = [], tb_backpack = [],
     tb_outbox = [], tb_idempotency = []\<rparr>, mw_keys = Map.empty, mw_topic = [], mw_ticks = 0, mw_next_id = 1, mw_faults = []\<rparr>"

definition gateway_service :: "mem_world RouteService" where
  "gateway_service = fst (NewRouteService (redis_SrvRouterStore \<lparr>rr_client = mem_redis, rr_prefix = ''p:''\<rparr>)
     (\<lambda>w. (Inr [sample_instance ''a''], w)) 0 1 mem_clock)"

definition gateway_state :: route_state where
  "gateway_state = \<lparr>rt_session = Map.empty, rt_router = NewConsistentHashRouter [] 1\<rparr>"


theorem forward_failure_clears_witness:
  "\<exists>e w' st'. Forward (NewCommandForwarder (route_router gateway_service) (\<lambda>_ s. (Inl mem_fault, s)))
     \<lparr>req_CommandId = 1, req_Uid = 7, req_RoleId = 1, req_ServerId = 1, req_Seq = 1, req_Payload = None\<rparr>
     (gateway_world, gateway_state) = (Inl e, w', st') \<and> rt_session st' 7 = None"
proof -
  let ?req = "\<lparr>req_CommandId = 1, req_Uid = 7, req_RoleId = 1, req_ServerId = 1, req_Seq = 1, req_Payload = None\<rparr>"
  let ?run = "Forward (NewCommandForwarder (route_router gateway_service) (\<lambda>_ s. (Inl mem_fault, s))) ?req
     (gateway_world, gateway_state)"
  have "isl (fst ?run)" by code_simp
  then obtain e w' st' where run: "?run = (Inl e, w', st')" by (cases ?run) (auto simp: isl_def)
  from forward_failure_clears [OF run] run show ?thesis by simp
qed

end
