(* ===== verification/Gateway_Connections.thy ===== *)
theory Gateway_Connections
  imports Route_Service Mail_Rpc "HOL-Library.AList"
begin

unbundle bit_operations_syntax

text \<open>
  The client connections of the gateway (\<^verbatim>\<open>app/gatewaysrv/connection.go\<close>) and its RPC server
  (\<^verbatim>\<open>app/gatewaysrv/server.go\<close>). The pool is an array of shards, each with two Go maps, which are association
  lists here; a traversal of a map takes the order in which the runtime visits the entries as an argument. A client
  connection is identified by a number, and the pool records the connections on which \<^verbatim>\<open>Close\<close> was called. The
  properties show that the sharded pool implements one map of sessions, that it leaks no connection, and what a
  heartbeat does that overlaps with the end of its session.
\<close>

section \<open>Sessions and shards\<close>

definition ErrSessionNotFound :: error where "ErrSessionNotFound = ErrorNew ''session not found''"
definition ErrConnectionNotFound :: error where "ErrConnectionNotFound = ErrorNew ''connection not found''"
definition ErrSessionMismatch :: error where "ErrSessionMismatch = ErrorNew ''session connection mismatch''"
definition ErrConnectionManagerRequired :: error where
  "ErrConnectionManagerRequired = ErrorNew ''connection manager is required''"

type_synonym ClientConnection = nat

record Session =
  ss_UID :: int
  ss_RoleID :: int
  ss_ServerID :: int
  ss_ConnID :: string
  ss_GatewayAddr :: string
  ss_ClientIP :: string
  ss_DeviceID :: string
  ss_ConnectedAt :: go_time
  ss_LastHeartbeatAt :: go_time
  ss_LastRenewAt :: go_time
  ss_ExpireAt :: go_time
  ss_Conn :: "ClientConnection option"

record BindSessionRequest =
  bs_UID :: int
  bs_RoleID :: int
  bs_ServerID :: int
  bs_ConnID :: string
  bs_GatewayAddr :: string
  bs_ClientIP :: string
  bs_DeviceID :: string
  bs_Conn :: "ClientConnection option"

record sessionShard =
  sh_sessions :: "(int \<times> Session) list"
  sh_connIndex :: "(string \<times> int) list"

record ConnectionPool =
  cp_shards :: "sessionShard list"
  cp_closed :: "ClientConnection list"

definition empty_shard :: sessionShard where
  "empty_shard = \<lparr>sh_sessions = [], sh_connIndex = []\<rparr>"

definition NewConnectionPool :: "int \<Rightarrow> ConnectionPool" where
  "NewConnectionPool shardCount =
     \<lparr>cp_shards = replicate (nat (if shardCount \<le> 0 then 32 else shardCount)) empty_shard, cp_closed = []\<rparr>"

text \<open>\<^verbatim>\<open>fnv.New32a\<close>: exclusive or with the byte, then the product with the prime, modulo \<open>2 ^ 32\<close>.\<close>

definition fnv32a_byte :: "32 word \<Rightarrow> char \<Rightarrow> 32 word" where
  "fnv32a_byte hash b = (hash XOR of_char b) * 16777619"

definition fnv32a :: "string \<Rightarrow> 32 word" where
  "fnv32a data = foldl fnv32a_byte 2166136261 data"

definition shard_index :: "int \<Rightarrow> nat \<Rightarrow> nat" where
  "shard_index uid n = unat (fnv32a (show_int uid)) mod n"

definition pool_shard :: "ConnectionPool \<Rightarrow> int \<Rightarrow> sessionShard" where
  "pool_shard p uid = cp_shards p ! shard_index uid (length (cp_shards p))"

definition pool_Get :: "ConnectionPool \<Rightarrow> int \<Rightarrow> Session option" where
  "pool_Get p uid = map_of (sh_sessions (pool_shard p uid)) uid"

fun find_conn :: "string \<Rightarrow> sessionShard list \<Rightarrow> Session option" where
  "find_conn connID [] = None"
| "find_conn connID (shard # shards) = (case map_of (sh_connIndex shard) connID of
       Some uid \<Rightarrow> map_of (sh_sessions shard) uid
     | None \<Rightarrow> find_conn connID shards)"

definition pool_GetByConnID :: "ConnectionPool \<Rightarrow> string \<Rightarrow> Session option" where
  "pool_GetByConnID p connID = (if connID = [] then None else find_conn connID (cp_shards p))"

text \<open>What a critical section does to its shard, and the connections that it closes.\<close>

definition drop_index :: "Session \<Rightarrow> (string \<times> int) list \<Rightarrow> (string \<times> int) list" where
  "drop_index old index = (if ss_ConnID old \<noteq> [] then AList.delete (ss_ConnID old) index else index)"

definition close_conn :: "Session \<Rightarrow> ClientConnection list" where
  "close_conn old = (case ss_Conn old of Some c \<Rightarrow> [c] | None \<Rightarrow> [])"

definition shard_Set :: "Session \<Rightarrow> sessionShard \<Rightarrow> sessionShard \<times> ClientConnection list" where
  "shard_Set session shard =
     (let (index, closed) = (case map_of (sh_sessions shard) (ss_UID session) of
          Some old \<Rightarrow> (if ss_ConnID old \<noteq> ss_ConnID session then drop_index old (sh_connIndex shard) else sh_connIndex shard,
                       if ss_Conn old \<noteq> ss_Conn session then close_conn old else [])
        | None \<Rightarrow> (sh_connIndex shard, []))
      in (\<lparr>sh_sessions = AList.update (ss_UID session) session (sh_sessions shard),
           sh_connIndex = (if ss_ConnID session \<noteq> [] then AList.update (ss_ConnID session) (ss_UID session) index
             else index)\<rparr>, closed))"

definition shard_Delete :: "int \<Rightarrow> sessionShard \<Rightarrow> sessionShard \<times> ClientConnection list" where
  "shard_Delete uid shard =
     (let (index, closed) = (case map_of (sh_sessions shard) uid of
          Some old \<Rightarrow> (drop_index old (sh_connIndex shard), close_conn old)
        | None \<Rightarrow> (sh_connIndex shard, []))
      in (\<lparr>sh_sessions = AList.delete uid (sh_sessions shard), sh_connIndex = index\<rparr>, closed))"

fun sweep_shard :: "go_time \<Rightarrow> (int \<times> Session) list \<Rightarrow> sessionShard \<Rightarrow>
  sessionShard \<times> Session list \<times> ClientConnection list" where
  "sweep_shard now [] shard = (shard, [], [])"
| "sweep_shard now ((uid, session) # entries) shard =
     (if ss_ExpireAt session < now
      then (let (shard', expired, closed) = sweep_shard now entries
              \<lparr>sh_sessions = AList.delete uid (sh_sessions shard), sh_connIndex = drop_index session (sh_connIndex shard)\<rparr>
            in (shard', session # expired, close_conn session @ closed))
      else sweep_shard now entries shard)"

definition close_shard :: "(int \<times> Session) list \<Rightarrow> sessionShard \<times> ClientConnection list" where
  "close_shard entries = (empty_shard, concat (map (close_conn \<circ> snd) entries))"

section \<open>The pool\<close>

definition at_shard :: "(sessionShard \<Rightarrow> sessionShard \<times> ClientConnection list) \<Rightarrow> nat \<Rightarrow> ConnectionPool \<Rightarrow> ConnectionPool" where
  "at_shard f i p = (let (shard, closed) = f (cp_shards p ! i)
     in \<lparr>cp_shards = (cp_shards p)[i := shard], cp_closed = cp_closed p @ closed\<rparr>)"

definition pool_Set :: "Session \<Rightarrow> ConnectionPool \<Rightarrow> ConnectionPool" where
  "pool_Set session p = at_shard (shard_Set session) (shard_index (ss_UID session) (length (cp_shards p))) p"

definition pool_Delete :: "int \<Rightarrow> ConnectionPool \<Rightarrow> ConnectionPool" where
  "pool_Delete uid p = at_shard (shard_Delete uid) (shard_index uid (length (cp_shards p))) p"

text \<open>The order in which a traversal of a map visits its entries.\<close>

type_synonym visit = "(int \<times> Session) list \<Rightarrow> (int \<times> Session) list"

fun sweep_shards :: "visit \<Rightarrow> go_time \<Rightarrow> sessionShard list \<Rightarrow> sessionShard list \<times> Session list \<times> ClientConnection list" where
  "sweep_shards order now [] = ([], [], [])"
| "sweep_shards order now (shard # shards) =
     (let (shard', expired, closed) = sweep_shard now (order (sh_sessions shard)) shard;
          (shards', expired', closed') = sweep_shards order now shards
      in (shard' # shards', expired @ expired', closed @ closed'))"

definition pool_SweepExpired :: "visit \<Rightarrow> go_time \<Rightarrow> ConnectionPool \<Rightarrow> Session list \<times> ConnectionPool" where
  "pool_SweepExpired order now p = (let (shards, expired, closed) = sweep_shards order now (cp_shards p)
     in (expired, \<lparr>cp_shards = shards, cp_closed = cp_closed p @ closed\<rparr>))"

fun close_shards :: "visit \<Rightarrow> sessionShard list \<Rightarrow> sessionShard list \<times> ClientConnection list" where
  "close_shards order [] = ([], [])"
| "close_shards order (shard # shards) =
     (let (shard', closed) = close_shard (order (sh_sessions shard)); (shards', closed') = close_shards order shards
      in (shard' # shards', closed @ closed'))"

definition pool_CloseAll :: "visit \<Rightarrow> ConnectionPool \<Rightarrow> ConnectionPool" where
  "pool_CloseAll order p = (let (shards, closed) = close_shards order (cp_shards p)
     in \<lparr>cp_shards = shards, cp_closed = cp_closed p @ closed\<rparr>)"

section \<open>The manager\<close>

record 'w GateConnStore =
  SetGateConn :: "GateConn \<Rightarrow> duration \<Rightarrow> ('w, unit) io"
  DeleteGateConn :: "int \<Rightarrow> ('w, unit) io"

definition redis_GateConnStore :: "'w redis_repo \<Rightarrow> 'w GateConnStore" where
  "redis_GateConnStore r = \<lparr>SetGateConn = redis_SetGateConn r, DeleteGateConn = redis_DeleteGateConn r\<rparr>"

record 'w ConnectionManager =
  cm_store :: "'w GateConnStore"
  cm_gatewayAddr :: string
  cm_sessionTTL :: duration
  cm_renewInterval :: duration
  cm_now :: "'w clock"

definition NewConnectionManager ::
  "'w GateConnStore \<Rightarrow> string \<Rightarrow> duration \<Rightarrow> duration \<Rightarrow> 'w clock \<Rightarrow> 'w ConnectionManager \<times> ConnectionPool" where
  "NewConnectionManager store gatewayAddr sessionTTL renewInterval clock =
     (\<lparr>cm_store = store, cm_gatewayAddr = gatewayAddr,
       cm_sessionTTL = (if sessionTTL \<le> 0 then 90 * time_second else sessionTTL),
       cm_renewInterval = (if renewInterval \<le> 0 then 30 * time_second else renewInterval), cm_now = clock\<rparr>,
      NewConnectionPool 32)"

definition toGateConn :: "Session \<Rightarrow> GateConn" where
  "toGateConn session = \<lparr>gc_UID = ss_UID session, gc_GatewayAddr = ss_GatewayAddr session,
     gc_ClientIP = ss_ClientIP session, gc_ConnID = ss_ConnID session, gc_ConnTime = ss_ConnectedAt session,
     gc_LastActiveTime = ss_LastHeartbeatAt session, gc_DeviceID = ss_DeviceID session, gc_ExpireAt = ss_ExpireAt session\<rparr>"

type_synonym ('w, 'a) gate_io = "('w \<times> ConnectionPool, 'a) io"

definition bound_session :: "'w ConnectionManager \<Rightarrow> BindSessionRequest \<Rightarrow> go_time \<Rightarrow> Session" where
  "bound_session m req now = \<lparr>ss_UID = bs_UID req, ss_RoleID = bs_RoleID req, ss_ServerID = bs_ServerID req,
     ss_ConnID = bs_ConnID req,
     ss_GatewayAddr = (if bs_GatewayAddr req = [] then cm_gatewayAddr m else bs_GatewayAddr req),
     ss_ClientIP = bs_ClientIP req, ss_DeviceID = bs_DeviceID req, ss_ConnectedAt = now, ss_LastHeartbeatAt = now,
     ss_LastRenewAt = now, ss_ExpireAt = now + cm_sessionTTL m, ss_Conn = bs_Conn req\<rparr>"

text \<open>
  \<open>oth\<close> is what other goroutines do to the pool before the lock of the shard is taken for the update; it is the identity
  when none of them runs.
\<close>

definition Bind :: "'w ConnectionManager \<Rightarrow> (ConnectionPool \<Rightarrow> ConnectionPool) \<Rightarrow> BindSessionRequest \<Rightarrow> ('w, Session) gate_io" where
  "Bind m oth req = (\<lambda>(w, p).
     let (now, w1) = cm_now m w; session = bound_session m req now
     in case SetGateConn (cm_store m) (toGateConn session) (cm_sessionTTL m) w1 of
          (Inl e, w2) \<Rightarrow> (Inl e, w2, oth p)
        | (Inr _, w2) \<Rightarrow> (Inr session, w2, pool_Set session (oth p)))"

definition beat_session :: "'w ConnectionManager \<Rightarrow> go_time \<Rightarrow> Session \<Rightarrow> Session" where
  "beat_session m now session = session\<lparr>ss_LastHeartbeatAt := now, ss_ExpireAt := now + cm_sessionTTL m,
     ss_LastRenewAt := (if time_sub now (ss_LastRenewAt session) \<ge> cm_renewInterval m then now else ss_LastRenewAt session)\<rparr>"

definition manager_Heartbeat ::
  "'w ConnectionManager \<Rightarrow> (ConnectionPool \<Rightarrow> ConnectionPool) \<Rightarrow> int \<Rightarrow> string \<Rightarrow> ('w, Session) gate_io" where
  "manager_Heartbeat m oth uid connID = (\<lambda>(w, p). case pool_Get p uid of
       None \<Rightarrow> (Inl ErrSessionNotFound, w, p)
     | Some session \<Rightarrow>
         if connID \<noteq> [] \<and> ss_ConnID session \<noteq> [] \<and> connID \<noteq> ss_ConnID session then (Inl ErrSessionMismatch, w, p)
         else let (now, w1) = cm_now m w; session' = beat_session m now session
              in if time_sub now (ss_LastRenewAt session) \<ge> cm_renewInterval m
                 then (case SetGateConn (cm_store m) (toGateConn session') (cm_sessionTTL m) w1 of
                        (Inl e, w2) \<Rightarrow> (Inl e, w2, oth p)
                      | (Inr _, w2) \<Rightarrow> (Inr session', w2, pool_Set session' (oth p)))
                 else (Inr session', w1, pool_Set session' (oth p)))"

definition Disconnect :: "'w ConnectionManager \<Rightarrow> int \<Rightarrow> ('w, unit) gate_io" where
  "Disconnect m uid = (\<lambda>(w, p). case DeleteGateConn (cm_store m) uid w of (res, w1) \<Rightarrow> (res, w1, pool_Delete uid p))"

definition manager_Get :: "'w \<times> ConnectionPool \<Rightarrow> int \<Rightarrow> Session option" where
  "manager_Get s uid = pool_Get (snd s) uid"

definition manager_GetByConnID :: "'w \<times> ConnectionPool \<Rightarrow> string \<Rightarrow> Session option" where
  "manager_GetByConnID s connID = pool_GetByConnID (snd s) connID"

definition manager_SweepExpired :: "'w ConnectionManager \<Rightarrow> visit \<Rightarrow> 'w \<times> ConnectionPool \<Rightarrow> Session list \<times> 'w \<times> ConnectionPool" where
  "manager_SweepExpired m order = (\<lambda>(w, p).
     let (now, w1) = cm_now m w; (expired, p1) = pool_SweepExpired order now p in (expired, w1, p1))"

definition manager_CloseAll :: "visit \<Rightarrow> 'w \<times> ConnectionPool \<Rightarrow> 'w \<times> ConnectionPool" where
  "manager_CloseAll order = (\<lambda>(w, p). (w, pool_CloseAll order p))"

section \<open>The RPC server\<close>

record RouteResponse =
  rr_InstanceId :: string
  rr_GrpcAddr :: string
  rr_FrpcAddr :: string
  rr_Weight :: int

record HeartbeatRequest =
  hb_Uid :: int
  hb_ConnId :: string
  hb_Seq :: int
  hb_ClientTimestamp :: int

record HeartbeatResponse =
  hr_Ok :: bool
  hr_Seq :: int
  hr_ServerTimestamp :: int
  hr_ExpireAt :: string

text \<open>\<^verbatim>\<open>int32(route.Weight)\<close> wraps.\<close>

definition ResolveRoute :: "'s CommandRouter \<Rightarrow> int \<Rightarrow> ('s, RouteResponse) io" where
  "ResolveRoute router uid = io_bind (cr_Resolve router uid) (\<lambda>route. io_return
     \<lparr>rr_InstanceId = psi_InstanceID route, rr_GrpcAddr = psi_GrpcAddr route, rr_FrpcAddr = psi_FrpcAddr route,
      rr_Weight = wrap32 (psi_Weight route)\<rparr>)"

definition ClearRoute :: "'s CommandRouter \<Rightarrow> int \<Rightarrow> ('s, bool) io" where
  "ClearRoute router uid = io_bind (cr_Clear router uid) (\<lambda>_. io_return True)"

definition UnixMilli :: "go_time \<Rightarrow> int" where
  "UnixMilli t = wrap64 (Unix t * 1000 + t mod time_second div time_millisecond)"

definition timeNowUnixMilli :: "'w clock \<Rightarrow> 'w \<Rightarrow> int \<times> 'w" where
  "timeNowUnixMilli clock w = (let (now, w1) = clock w in (UnixMilli now, w1))"

definition formatGateTime :: "go_time \<Rightarrow> string" where
  "formatGateTime value = (if IsZero value then '''' else format_rfc3339 value)"

definition server_Heartbeat :: "'w ConnectionManager option \<Rightarrow> 'w clock \<Rightarrow> (ConnectionPool \<Rightarrow> ConnectionPool) \<Rightarrow>
  HeartbeatRequest \<Rightarrow> ('w, HeartbeatResponse) gate_io" where
  "server_Heartbeat connections clock oth req = (\<lambda>s. case connections of
       None \<Rightarrow> (Inl ErrConnectionManagerRequired, s)
     | Some m \<Rightarrow> (case manager_Heartbeat m oth (hb_Uid req) (hb_ConnId req) s of
           (Inl e, s1) \<Rightarrow> (Inl e, s1)
         | (Inr session, w1, p1) \<Rightarrow>
             let (ts, w2) = timeNowUnixMilli clock w1
             in (Inr \<lparr>hr_Ok = True, hr_Seq = hb_Seq req, hr_ServerTimestamp = ts,
                      hr_ExpireAt = formatGateTime (ss_ExpireAt session)\<rparr>, w2, p1)))"

section \<open>Shards\<close>

text \<open>
  A shard holds sessions of the users that belong to it, each under its user, and the index leads only to sessions with the
  connection id that it is asked for.
\<close>

abbreviation shard_view :: "sessionShard \<Rightarrow> int \<rightharpoonup> Session" where
  "shard_view sh \<equiv> map_of (sh_sessions sh)"

definition shard_ok :: "nat \<Rightarrow> nat \<Rightarrow> sessionShard \<Rightarrow> bool" where
  "shard_ok n i sh \<longleftrightarrow> distinct (map fst (sh_sessions sh)) \<and>
     (\<forall>u s. shard_view sh u = Some s \<longrightarrow> ss_UID s = u \<and> shard_index u n = i) \<and>
     (\<forall>c u. map_of (sh_connIndex sh) c = Some u \<longrightarrow> c \<noteq> [] \<and> (\<exists>s. shard_view sh u = Some s \<and> ss_ConnID s = c))"

definition shard_indexed :: "sessionShard \<Rightarrow> bool" where
  "shard_indexed sh \<longleftrightarrow> (\<forall>u s. shard_view sh u = Some s \<longrightarrow> ss_ConnID s \<noteq> [] \<longrightarrow>
     map_of (sh_connIndex sh) (ss_ConnID s) = Some u)"

text \<open>No connection id belongs to two users.\<close>

definition private_ids :: "(int \<rightharpoonup> Session) \<Rightarrow> bool" where
  "private_ids m \<longleftrightarrow> (\<forall>u v s t. m u = Some s \<longrightarrow> m v = Some t \<longrightarrow> ss_ConnID s = ss_ConnID t \<longrightarrow> ss_ConnID s \<noteq> [] \<longrightarrow> u = v)"

lemma private_idsD:
  assumes "private_ids m" "m u = Some s" "m v = Some t" "ss_ConnID s = ss_ConnID t" "ss_ConnID s \<noteq> []"
  shows "u = v"
  using assms unfolding private_ids_def by blast

text \<open>The connection of every session that leaves is closed, unless its successor carries it on.\<close>

definition released :: "(int \<rightharpoonup> Session) \<Rightarrow> ClientConnection set \<Rightarrow> (int \<rightharpoonup> Session) \<Rightarrow> bool" where
  "released m closed m' \<longleftrightarrow> (\<forall>u s c. m u = Some s \<longrightarrow> ss_Conn s = Some c \<longrightarrow>
     c \<in> closed \<or> (\<exists>s'. m' u = Some s' \<and> ss_Conn s' = Some c))"

lemma releasedD:
  assumes "released m closed m'" "m u = Some s" "ss_Conn s = Some c"
  shows "c \<in> closed \<or> (\<exists>s'. m' u = Some s' \<and> ss_Conn s' = Some c)"
  using assms unfolding released_def by blast

lemmas alist_convs = update_conv' delete_conv'

lemma shard_ok_empty [simp]: "shard_ok n i empty_shard" "shard_indexed empty_shard"
  by (simp_all add: shard_ok_def shard_indexed_def empty_shard_def)

lemma shard_Set_view: "shard_view (fst (shard_Set s sh)) = (shard_view sh)(ss_UID s \<mapsto> s)"
  by (simp add: shard_Set_def alist_convs split: prod.splits)

lemma shard_Set_index:
  "map_of (sh_connIndex (fst (shard_Set s sh))) c =
     (if ss_ConnID s = c \<and> c \<noteq> [] then Some (ss_UID s)
      else case shard_view sh (ss_UID s) of
        Some old \<Rightarrow> if ss_ConnID old = c \<and> c \<noteq> [] \<and> ss_ConnID s \<noteq> c then None else map_of (sh_connIndex sh) c
      | None \<Rightarrow> map_of (sh_connIndex sh) c)"
  by (auto simp: shard_Set_def drop_index_def alist_convs split: option.splits)

lemma shard_okD:
  assumes "shard_ok n i sh"
  shows "shard_view sh u = Some s \<Longrightarrow> ss_UID s = u" "shard_view sh u = Some s \<Longrightarrow> shard_index u n = i"
    "map_of (sh_connIndex sh) c = Some u \<Longrightarrow> c \<noteq> []"
    "map_of (sh_connIndex sh) c = Some u \<Longrightarrow> \<exists>s. shard_view sh u = Some s \<and> ss_ConnID s = c"
    "distinct (map fst (sh_sessions sh))"
  using assms unfolding shard_ok_def by blast+

lemma shard_okI:
  assumes "distinct (map fst (sh_sessions sh))"
    and "\<And>u s. shard_view sh u = Some s \<Longrightarrow> ss_UID s = u \<and> shard_index u n = i"
    and "\<And>c u. map_of (sh_connIndex sh) c = Some u \<Longrightarrow> c \<noteq> [] \<and> (\<exists>s. shard_view sh u = Some s \<and> ss_ConnID s = c)"
  shows "shard_ok n i sh"
  using assms unfolding shard_ok_def by blast

lemma shard_Set_ok:
  assumes "shard_ok n i sh" "shard_index (ss_UID s) n = i"
  shows "shard_ok n i (fst (shard_Set s sh))"
proof (rule shard_okI)
  show "distinct (map fst (sh_sessions (fst (shard_Set s sh))))"
    using shard_okD(5) [OF assms(1)] by (simp add: shard_Set_def distinct_update split: prod.splits)
  fix u t assume "shard_view (fst (shard_Set s sh)) u = Some t"
  then show "ss_UID t = u \<and> shard_index u n = i"
    using shard_okD(1,2) [OF assms(1)] assms(2) unfolding shard_Set_view by (auto split: if_splits)
next
  fix c u assume "map_of (sh_connIndex (fst (shard_Set s sh))) c = Some u"
  then show "c \<noteq> [] \<and> (\<exists>t. shard_view (fst (shard_Set s sh)) u = Some t \<and> ss_ConnID t = c)"
    using shard_okD(3,4) [OF assms(1), of c u] unfolding shard_Set_view shard_Set_index
    by (auto simp del: map_of_eq_Some_iff split: if_splits option.splits)
qed

lemma shard_Set_indexed:
  assumes "shard_indexed sh" "private_ids (shard_view sh)" "private_ids ((shard_view sh)(ss_UID s \<mapsto> s))"
  shows "shard_indexed (fst (shard_Set s sh))"
  unfolding shard_indexed_def shard_Set_view
proof (intro allI impI)
  fix u t assume t: "((shard_view sh)(ss_UID s \<mapsto> s)) u = Some t" "ss_ConnID t \<noteq> []"
  show "map_of (sh_connIndex (fst (shard_Set s sh))) (ss_ConnID t) = Some u"
  proof (cases "u = ss_UID s")
    case True
    with t show ?thesis by (simp add: shard_Set_index)
  next
    case False
    with t have view: "shard_view sh u = Some t" by simp
    with assms(1) t(2) have "map_of (sh_connIndex sh) (ss_ConnID t) = Some u" by (simp add: shard_indexed_def)
    moreover have "ss_ConnID s \<noteq> ss_ConnID t"
      using assms(3) t False unfolding private_ids_def by (metis fun_upd_same)
    moreover have "ss_ConnID old \<noteq> ss_ConnID t" if "shard_view sh (ss_UID s) = Some old" for old
      using assms(2) that view t(2) False unfolding private_ids_def by metis
    ultimately show ?thesis unfolding shard_Set_index by (simp split: option.splits)
  qed
qed

lemma shard_Set_released: "released (shard_view sh) (set (snd (shard_Set s sh))) ((shard_view sh)(ss_UID s \<mapsto> s))"
  unfolding released_def
proof (intro allI impI)
  fix u t c assume t: "shard_view sh u = Some t" "ss_Conn t = Some c"
  show "c \<in> set (snd (shard_Set s sh)) \<or> (\<exists>s'. ((shard_view sh)(ss_UID s \<mapsto> s)) u = Some s' \<and> ss_Conn s' = Some c)"
    by (cases "u = ss_UID s") (use t in \<open>simp_all add: shard_Set_def close_conn_def\<close>)
qed

lemma shard_Delete_view: "shard_view (fst (shard_Delete u sh)) = (shard_view sh)(u := None)"
  by (simp add: shard_Delete_def alist_convs split: prod.splits)

lemma shard_Delete_index:
  "map_of (sh_connIndex (fst (shard_Delete u sh))) c =
     (case shard_view sh u of
        Some old \<Rightarrow> if ss_ConnID old = c \<and> c \<noteq> [] then None else map_of (sh_connIndex sh) c
      | None \<Rightarrow> map_of (sh_connIndex sh) c)"
  by (auto simp: shard_Delete_def drop_index_def alist_convs split: option.splits)

lemma shard_Delete_ok:
  assumes "shard_ok n i sh"
  shows "shard_ok n i (fst (shard_Delete u sh))"
proof (rule shard_okI)
  show "distinct (map fst (sh_sessions (fst (shard_Delete u sh))))"
    using shard_okD(5) [OF assms] by (simp add: shard_Delete_def distinct_delete split: prod.splits)
  fix v t assume "shard_view (fst (shard_Delete u sh)) v = Some t"
  then show "ss_UID t = v \<and> shard_index v n = i"
    using shard_okD(1,2) [OF assms] unfolding shard_Delete_view by (auto split: if_splits)
next
  fix c v assume c: "map_of (sh_connIndex (fst (shard_Delete u sh))) c = Some v"
  then have old: "map_of (sh_connIndex sh) c = Some v"
    unfolding shard_Delete_index by (auto split: option.splits if_splits)
  from shard_okD(3,4) [OF assms old] obtain t where t: "c \<noteq> []" "shard_view sh v = Some t" "ss_ConnID t = c" by blast
  with c have "v \<noteq> u" unfolding shard_Delete_index by auto
  with t show "c \<noteq> [] \<and> (\<exists>t. shard_view (fst (shard_Delete u sh)) v = Some t \<and> ss_ConnID t = c)"
    unfolding shard_Delete_view by simp
qed

lemma shard_Delete_indexed:
  assumes "shard_indexed sh" "private_ids (shard_view sh)"
  shows "shard_indexed (fst (shard_Delete u sh))"
  unfolding shard_indexed_def shard_Delete_view
proof (intro allI impI)
  fix v t assume "((shard_view sh)(u := None)) v = Some t" and c: "ss_ConnID t \<noteq> []"
  then have t: "shard_view sh v = Some t" "v \<noteq> u" by (auto split: if_splits)
  with assms(1) c have "map_of (sh_connIndex sh) (ss_ConnID t) = Some v" by (simp add: shard_indexed_def)
  moreover have "ss_ConnID old \<noteq> ss_ConnID t" if "shard_view sh u = Some old" for old
    using assms(2) that t c unfolding private_ids_def by metis
  ultimately show "map_of (sh_connIndex (fst (shard_Delete u sh))) (ss_ConnID t) = Some v"
    unfolding shard_Delete_index by (simp split: option.splits)
qed

lemma shard_Delete_released: "released (shard_view sh) (set (snd (shard_Delete u sh))) ((shard_view sh)(u := None))"
  unfolding released_def
proof (intro allI impI)
  fix v t c assume t: "shard_view sh v = Some t" "ss_Conn t = Some c"
  show "c \<in> set (snd (shard_Delete u sh)) \<or> (\<exists>s'. ((shard_view sh)(u := None)) v = Some s' \<and> ss_Conn s' = Some c)"
    by (cases "v = u") (use t in \<open>simp_all add: shard_Delete_def close_conn_def\<close>)
qed

text \<open>A sweep of a shard deletes the sessions that have expired, one after the other.\<close>

definition unexpired :: "go_time \<Rightarrow> (int \<rightharpoonup> Session) \<Rightarrow> int \<rightharpoonup> Session" where
  "unexpired now m u = (case m u of None \<Rightarrow> None | Some s \<Rightarrow> if ss_ExpireAt s < now then None else Some s)"

lemma sweep_step:
  assumes "shard_view sh u = Some s"
  shows "fst (shard_Delete u sh) = \<lparr>sh_sessions = AList.delete u (sh_sessions sh), sh_connIndex = drop_index s (sh_connIndex sh)\<rparr>"
    "snd (shard_Delete u sh) = close_conn s"
  using assms by (simp_all add: shard_Delete_def)

lemma sweep_shard_Cons:
  assumes "shard_view sh u = Some s" "ss_ExpireAt s < now"
  shows "sweep_shard now ((u, s) # es) sh = (let (sh', expired, closed) = sweep_shard now es (fst (shard_Delete u sh))
    in (sh', s # expired, snd (shard_Delete u sh) @ closed))"
  using assms(2) by (simp add: sweep_step [OF assms(1)])

lemma sweep_shard_spec:
  assumes "distinct (map fst es)" "\<forall>(u, s) \<in> set es. shard_view sh u = Some s" "sweep_shard now es sh = (sh', expired, closed)"
  shows "shard_view sh' = (\<lambda>u. if u \<in> fst ` {e \<in> set es. ss_ExpireAt (snd e) < now} then None else shard_view sh u)
    \<and> set expired = snd ` {e \<in> set es. ss_ExpireAt (snd e) < now} \<and> length expired = length (filter (\<lambda>e. ss_ExpireAt (snd e) < now) es)
    \<and> (shard_ok n i sh \<longrightarrow> shard_ok n i sh')
    \<and> (private_ids (shard_view sh) \<longrightarrow> shard_indexed sh \<longrightarrow> shard_indexed sh')
    \<and> (\<forall>s c. s \<in> set expired \<longrightarrow> ss_Conn s = Some c \<longrightarrow> c \<in> set closed)"
  using assms
proof (induction es arbitrary: sh expired closed)
  case Nil
  then show ?case by simp
next
  case (Cons e es)
  obtain u s where e: "e = (u, s)" by fastforce
  show ?case
  proof (cases "ss_ExpireAt s < now")
    case False
    then have sub: "{x \<in> set (e # es). ss_ExpireAt (snd x) < now} = {x \<in> set es. ss_ExpireAt (snd x) < now}"
      "filter (\<lambda>e. ss_ExpireAt (snd e) < now) (e # es) = filter (\<lambda>e. ss_ExpireAt (snd e) < now) es" by (auto simp: e)
    show ?thesis unfolding sub by (rule Cons.IH) (use Cons.prems False in \<open>simp_all add: e\<close>)
  next
    case True
    let ?sh = "fst (shard_Delete u sh)"
    have view: "shard_view sh u = Some s" using Cons.prems(2) e by simp
    obtain expired' closed' where run: "sweep_shard now es ?sh = (sh', expired', closed')"
      and out: "expired = s # expired'" "closed = close_conn s @ closed'"
      using Cons.prems(3) unfolding e sweep_shard_Cons [OF view True] sweep_step(2) [OF view]
      by (auto simp: Let_def split: prod.splits)
    have es: "\<forall>(v, t) \<in> set es. shard_view ?sh v = Some t"
    proof clarify
      fix v t assume "(v, t) \<in> set es"
      then have "shard_view sh v = Some t" "v \<noteq> u" using Cons.prems(1,2) e by force+
      then show "shard_view ?sh v = Some t" by (simp add: shard_Delete_view)
    qed
    have ids: "private_ids (shard_view sh) \<longrightarrow> private_ids (shard_view ?sh)"
      by (auto simp: shard_Delete_view private_ids_def)
    note IH = Cons.IH [OF _ es run]
    have d: "distinct (map fst es)" using Cons.prems(1) by simp
    have sub: "{x \<in> set (e # es). ss_ExpireAt (snd x) < now} = insert (u, s) {x \<in> set es. ss_ExpireAt (snd x) < now}"
      using True e by auto
    show ?thesis unfolding sub
    proof (intro conjI)
      show "shard_view sh' = (\<lambda>v. if v \<in> fst ` insert (u, s) {x \<in> set es. ss_ExpireAt (snd x) < now} then None else shard_view sh v)"
        using IH [OF d] by (auto simp: shard_Delete_view fun_eq_iff)
      show "set expired = snd ` insert (u, s) {x \<in> set es. ss_ExpireAt (snd x) < now}" using IH [OF d] out by simp
      show "length expired = length (filter (\<lambda>e. ss_ExpireAt (snd e) < now) (e # es))" using IH [OF d] out True e by simp
      show "shard_ok n i sh \<longrightarrow> shard_ok n i sh'" using IH [OF d] shard_Delete_ok by blast
      show "private_ids (shard_view sh) \<longrightarrow> shard_indexed sh \<longrightarrow> shard_indexed sh'"
        using IH [OF d] ids shard_Delete_indexed by blast
      show "\<forall>t c. t \<in> set expired \<longrightarrow> ss_Conn t = Some c \<longrightarrow> c \<in> set closed" using IH [OF d] out by (auto simp: close_conn_def)
    qed
  qed
qed

text \<open>The runtime visits every entry of a map once.\<close>

definition visits :: "visit \<Rightarrow> bool" where
  "visits order \<longleftrightarrow> (\<forall>xs. mset (order xs) = mset xs)"

lemma visitsD:
  assumes "visits order" "distinct (map fst xs)"
  shows "set (order xs) = set xs" "distinct (map fst (order xs))" "\<forall>(u, s) \<in> set (order xs). map_of xs u = Some s"
proof -
  from assms(1) have m: "mset (order xs) = mset xs" by (simp add: visits_def)
  then show s: "set (order xs) = set xs" by (rule mset_eq_setD)
  from m have "mset (map fst (order xs)) = mset (map fst xs)" by simp
  then show "distinct (map fst (order xs))" using assms(2) mset_eq_imp_distinct_iff by blast
  show "\<forall>(u, s) \<in> set (order xs). map_of xs u = Some s" using s assms(2) by auto
qed

section \<open>The pool as one map\<close>

definition pool_ok :: "ConnectionPool \<Rightarrow> bool" where
  "pool_ok p \<longleftrightarrow> cp_shards p \<noteq> [] \<and> (\<forall>i < length (cp_shards p). shard_ok (length (cp_shards p)) i (cp_shards p ! i))"

definition pool_indexed :: "ConnectionPool \<Rightarrow> bool" where
  "pool_indexed p \<longleftrightarrow> (\<forall>sh \<in> set (cp_shards p). shard_indexed sh)"

lemma shard_index_less: "cp_shards p \<noteq> [] \<Longrightarrow> shard_index u (length (cp_shards p)) < length (cp_shards p)"
  by (simp add: shard_index_def)

text \<open>Outside of its own shard a user has no session.\<close>

lemma shard_of_pool:
  assumes "pool_ok p" "i < length (cp_shards p)"
  shows "shard_view (cp_shards p ! i) u = (if shard_index u (length (cp_shards p)) = i then pool_Get p u else None)"
proof -
  have "shard_ok (length (cp_shards p)) i (cp_shards p ! i)" using assms by (simp add: pool_ok_def)
  from shard_okD(2) [OF this] show ?thesis
    by (cases "shard_view (cp_shards p ! i) u") (auto simp: pool_Get_def pool_shard_def simp del: map_of_eq_Some_iff)
qed

lemma private_shard:
  assumes "pool_ok p" "i < length (cp_shards p)" "private_ids (pool_Get p)"
  shows "private_ids (shard_view (cp_shards p ! i))"
  using assms(3) unfolding private_ids_def shard_of_pool [OF assms(1,2)] by (metis option.distinct(1))

text \<open>One critical section on the shard of a user.\<close>

lemma at_shard_effect:
  assumes ok: "pool_ok p" and i: "i = shard_index u (length (cp_shards p))"
    and f_ok: "shard_ok (length (cp_shards p)) i (fst (f (cp_shards p ! i)))"
    and f_view: "shard_view (fst (f (cp_shards p ! i))) = (shard_view (cp_shards p ! i))(u := x)"
  shows "pool_ok (at_shard f i p)" "pool_Get (at_shard f i p) = (pool_Get p)(u := x)"
proof -
  have less: "i < length (cp_shards p)" using ok i shard_index_less by (auto simp: pool_ok_def)
  have shards: "cp_shards (at_shard f i p) = (cp_shards p)[i := fst (f (cp_shards p ! i))]"
    by (simp add: at_shard_def case_prod_beta)
  show "pool_ok (at_shard f i p)"
    using ok f_ok less by (auto simp: pool_ok_def shards nth_list_update)
  show "pool_Get (at_shard f i p) = (pool_Get p)(u := x)"
  proof
    fix v
    show "pool_Get (at_shard f i p) v = ((pool_Get p)(u := x)) v"
    proof (cases "shard_index v (length (cp_shards p)) = i")
      case True
      then show ?thesis using less f_view by (simp add: pool_Get_def pool_shard_def shards)
    next
      case False
      moreover from this i have "v \<noteq> u" by auto
      ultimately show ?thesis by (simp add: pool_Get_def pool_shard_def shards)
    qed
  qed
qed

lemma at_shard_indexed:
  assumes "pool_indexed p" "shard_indexed (fst (f (cp_shards p ! i)))"
  shows "pool_indexed (at_shard f i p)"
proof -
  have "set ((cp_shards p)[i := fst (f (cp_shards p ! i))]) \<subseteq> insert (fst (f (cp_shards p ! i))) (set (cp_shards p))"
    by (rule set_update_subset_insert)
  then show ?thesis using assms by (auto simp: pool_indexed_def at_shard_def case_prod_beta)
qed

lemma at_shard_closed: "set (cp_closed (at_shard f i p)) = set (cp_closed p) \<union> set (snd (f (cp_shards p ! i)))"
  by (simp add: at_shard_def case_prod_beta)

lemma at_shard_released:
  assumes "pool_ok p" "i = shard_index u (length (cp_shards p))" "pool_Get (at_shard f i p) = (pool_Get p)(u := x)"
    and "released (shard_view (cp_shards p ! i)) (set (snd (f (cp_shards p ! i)))) ((shard_view (cp_shards p ! i))(u := x))"
  shows "released (pool_Get p) (set (cp_closed (at_shard f i p))) (pool_Get (at_shard f i p))"
  unfolding released_def assms(3) at_shard_closed
proof (intro allI impI)
  fix v s c assume s: "pool_Get p v = Some s" "ss_Conn s = Some c"
  have i: "i < length (cp_shards p)" using assms(1,2) shard_index_less by (auto simp: pool_ok_def)
  show "c \<in> set (cp_closed p) \<union> set (snd (f (cp_shards p ! i))) \<or> (\<exists>s'. ((pool_Get p)(u := x)) v = Some s' \<and> ss_Conn s' = Some c)"
  proof (cases "v = u")
    case True
    then have "shard_view (cp_shards p ! i) u = Some s" using s shard_of_pool [OF assms(1) i, of u] assms(2) by simp
    with assms(4) s(2) have "c \<in> set (snd (f (cp_shards p ! i))) \<or>
        (\<exists>s'. ((shard_view (cp_shards p ! i))(u := x)) u = Some s' \<and> ss_Conn s' = Some c)"
      unfolding released_def by blast
    with True show ?thesis by auto
  qed (use s in simp)
qed

lemma pool_Set_effect:
  assumes "pool_ok p"
  shows "pool_ok (pool_Set s p)" "pool_Get (pool_Set s p) = (pool_Get p)(ss_UID s \<mapsto> s)"
    "released (pool_Get p) (set (cp_closed (pool_Set s p))) (pool_Get (pool_Set s p))"
    "set (cp_closed p) \<subseteq> set (cp_closed (pool_Set s p))"
    "pool_indexed p \<Longrightarrow> private_ids (pool_Get p) \<Longrightarrow> private_ids ((pool_Get p)(ss_UID s \<mapsto> s)) \<Longrightarrow> pool_indexed (pool_Set s p)"
proof -
  let ?n = "length (cp_shards p)" and ?i = "shard_index (ss_UID s) (length (cp_shards p))"
  let ?sh = "cp_shards p ! ?i"
  have i: "?i < ?n" using assms shard_index_less by (auto simp: pool_ok_def)
  have ok: "shard_ok ?n ?i ?sh" using assms i by (simp add: pool_ok_def)
  note eff = at_shard_effect [OF assms refl, where f = "shard_Set s", OF shard_Set_ok [OF ok refl] shard_Set_view]
  show "pool_ok (pool_Set s p)" "pool_Get (pool_Set s p) = (pool_Get p)(ss_UID s \<mapsto> s)"
    using eff by (simp_all add: pool_Set_def)
  show "released (pool_Get p) (set (cp_closed (pool_Set s p))) (pool_Get (pool_Set s p))"
    unfolding pool_Set_def by (rule at_shard_released [OF assms refl eff(2) shard_Set_released])
  show "set (cp_closed p) \<subseteq> set (cp_closed (pool_Set s p))" by (simp add: pool_Set_def at_shard_closed)
  assume x: "pool_indexed p" "private_ids (pool_Get p)" "private_ids ((pool_Get p)(ss_UID s \<mapsto> s))"
  have "private_ids ((shard_view ?sh)(ss_UID s \<mapsto> s))"
    using x(3) unfolding private_ids_def fun_upd_apply shard_of_pool [OF assms i] by (metis option.distinct(1))
  then show "pool_indexed (pool_Set s p)" unfolding pool_Set_def
    by (intro at_shard_indexed shard_Set_indexed private_shard [OF assms i]) (use x i in \<open>simp_all add: pool_indexed_def\<close>)
qed

lemma pool_Delete_effect:
  assumes "pool_ok p"
  shows "pool_ok (pool_Delete u p)" "pool_Get (pool_Delete u p) = (pool_Get p)(u := None)"
    "released (pool_Get p) (set (cp_closed (pool_Delete u p))) (pool_Get (pool_Delete u p))"
    "set (cp_closed p) \<subseteq> set (cp_closed (pool_Delete u p))"
    "pool_indexed p \<Longrightarrow> private_ids (pool_Get p) \<Longrightarrow> pool_indexed (pool_Delete u p)"
proof -
  let ?n = "length (cp_shards p)" and ?i = "shard_index u (length (cp_shards p))"
  have i: "?i < ?n" using assms shard_index_less by (auto simp: pool_ok_def)
  have ok: "shard_ok ?n ?i (cp_shards p ! ?i)" using assms i by (simp add: pool_ok_def)
  note eff = at_shard_effect [OF assms refl, where f = "shard_Delete u", OF shard_Delete_ok [OF ok] shard_Delete_view]
  show "pool_ok (pool_Delete u p)" "pool_Get (pool_Delete u p) = (pool_Get p)(u := None)"
    using eff by (simp_all add: pool_Delete_def)
  show "released (pool_Get p) (set (cp_closed (pool_Delete u p))) (pool_Get (pool_Delete u p))"
    unfolding pool_Delete_def by (rule at_shard_released [OF assms refl eff(2) shard_Delete_released])
  show "set (cp_closed p) \<subseteq> set (cp_closed (pool_Delete u p))" by (simp add: pool_Delete_def at_shard_closed)
  assume x: "pool_indexed p" "private_ids (pool_Get p)"
  show "pool_indexed (pool_Delete u p)" unfolding pool_Delete_def
    by (intro at_shard_indexed shard_Delete_indexed private_shard [OF assms i]) (use x i in \<open>simp_all add: pool_indexed_def\<close>)
qed

text \<open>The operations that go over all shards.\<close>

abbreviation swept :: "visit \<Rightarrow> go_time \<Rightarrow> sessionShard \<Rightarrow> sessionShard \<times> Session list \<times> ClientConnection list" where
  "swept order now sh \<equiv> sweep_shard now (order (sh_sessions sh)) sh"

lemma sweep_shards_conv:
  "sweep_shards order now shards = (map (\<lambda>sh. fst (swept order now sh)) shards,
     concat (map (\<lambda>sh. fst (snd (swept order now sh))) shards), concat (map (\<lambda>sh. snd (snd (swept order now sh))) shards))"
  by (induction shards) (simp_all add: case_prod_beta)

lemma close_shards_conv:
  "close_shards order shards =
     (replicate (length shards) empty_shard, concat (map (\<lambda>sh. snd (close_shard (order (sh_sessions sh)))) shards))"
  by (induction shards) (simp_all add: case_prod_beta close_shard_def)

lemma image_pair_Collect: "x \<in> fst ` {e. P e} \<longleftrightarrow> (\<exists>y. P (x, y))" "y \<in> snd ` {e. P e} \<longleftrightarrow> (\<exists>x. P (x, y))"
  by force+

lemma swept_effect:
  assumes "visits order" "shard_ok n i sh"
  shows "shard_view (fst (swept order now sh)) = unexpired now (shard_view sh)"
    "set (fst (snd (swept order now sh))) = {s. \<exists>u. shard_view sh u = Some s \<and> ss_ExpireAt s < now}"
    "shard_ok n i (fst (swept order now sh))"
    "private_ids (shard_view sh) \<Longrightarrow> shard_indexed sh \<Longrightarrow> shard_indexed (fst (swept order now sh))"
    "s \<in> set (fst (snd (swept order now sh))) \<Longrightarrow> ss_Conn s = Some c \<Longrightarrow> c \<in> set (snd (snd (swept order now sh)))"
proof -
  note d = shard_okD(5) [OF assms(2)]
  note v = visitsD [OF assms(1) d]
  obtain sh' expired closed where run: "swept order now sh = (sh', expired, closed)" by (metis prod_cases3)
  have mem: "e \<in> set (sh_sessions sh) \<longleftrightarrow> shard_view sh (fst e) = Some (snd e)" for e using d by (cases e) simp
  note spec = sweep_shard_spec [OF v(2,3) run, of n i]
  show "shard_view (fst (swept order now sh)) = unexpired now (shard_view sh)"
  proof
    fix u
    have "u \<in> fst ` {e \<in> set (order (sh_sessions sh)). ss_ExpireAt (snd e) < now} \<longleftrightarrow>
        (\<exists>s. shard_view sh u = Some s \<and> ss_ExpireAt s < now)"
      by (simp only: v(1) mem image_pair_Collect fst_conv snd_conv)
    with spec run show "shard_view (fst (swept order now sh)) u = unexpired now (shard_view sh) u"
      by (auto simp: unexpired_def simp del: map_of_eq_Some_iff split: option.splits)
  qed
  show "set (fst (snd (swept order now sh))) = {s. \<exists>u. shard_view sh u = Some s \<and> ss_ExpireAt s < now}"
    using spec run by (simp only: v(1) mem image_pair_Collect fst_conv snd_conv set_eq_iff mem_Collect_eq) simp
  show "shard_ok n i (fst (swept order now sh))" using spec run assms(2) by simp
  show "private_ids (shard_view sh) \<Longrightarrow> shard_indexed sh \<Longrightarrow> shard_indexed (fst (swept order now sh))" using spec run by simp
  show "s \<in> set (fst (snd (swept order now sh))) \<Longrightarrow> ss_Conn s = Some c \<Longrightarrow> c \<in> set (snd (snd (swept order now sh)))"
    using spec run by simp
qed

lemma pool_Sweep_shards:
  "cp_shards (snd (pool_SweepExpired order now p)) = map (\<lambda>sh. fst (swept order now sh)) (cp_shards p)"
  "fst (pool_SweepExpired order now p) = concat (map (\<lambda>sh. fst (snd (swept order now sh))) (cp_shards p))"
  "cp_closed (snd (pool_SweepExpired order now p)) = cp_closed p @ concat (map (\<lambda>sh. snd (snd (swept order now sh))) (cp_shards p))"
  by (simp_all add: pool_SweepExpired_def sweep_shards_conv)

lemma pool_Get_shard:
  assumes "pool_ok p"
  shows "pool_Get p u = Some s \<longleftrightarrow> (\<exists>sh \<in> set (cp_shards p). shard_view sh u = Some s)"
proof
  assume "pool_Get p u = Some s"
  then show "\<exists>sh \<in> set (cp_shards p). shard_view sh u = Some s"
    using assms shard_index_less [of p u] by (auto simp: pool_Get_def pool_shard_def pool_ok_def simp del: map_of_eq_Some_iff)
next
  assume "\<exists>sh \<in> set (cp_shards p). shard_view sh u = Some s"
  then obtain i where "i < length (cp_shards p)" "shard_view (cp_shards p ! i) u = Some s" by (metis in_set_conv_nth)
  then show "pool_Get p u = Some s" using shard_of_pool [OF assms, of i u] by (auto split: if_splits)
qed

lemma pool_Sweep_effect:
  assumes "pool_ok p" "visits order"
  shows "pool_ok (snd (pool_SweepExpired order now p))"
    "pool_Get (snd (pool_SweepExpired order now p)) = unexpired now (pool_Get p)"
    "set (fst (pool_SweepExpired order now p)) = {s. \<exists>u. pool_Get p u = Some s \<and> ss_ExpireAt s < now}"
    "released (pool_Get p) (set (cp_closed (snd (pool_SweepExpired order now p)))) (pool_Get (snd (pool_SweepExpired order now p)))"
    "set (cp_closed p) \<subseteq> set (cp_closed (snd (pool_SweepExpired order now p)))"
    "pool_indexed p \<Longrightarrow> private_ids (pool_Get p) \<Longrightarrow> pool_indexed (snd (pool_SweepExpired order now p))"
proof -
  have ok: "shard_ok (length (cp_shards p)) i (cp_shards p ! i)" if "i < length (cp_shards p)" for i
    using assms(1) that by (simp add: pool_ok_def)
  have shard: "\<exists>i. shard_ok (length (cp_shards p)) i sh" if "sh \<in> set (cp_shards p)" for sh
    using that ok by (metis in_set_conv_nth)
  show "pool_ok (snd (pool_SweepExpired order now p))"
    using assms(1) swept_effect(3) [OF assms(2) ok] by (simp add: pool_ok_def pool_Sweep_shards)
  show get: "pool_Get (snd (pool_SweepExpired order now p)) = unexpired now (pool_Get p)"
  proof
    fix u
    have i: "shard_index u (length (cp_shards p)) < length (cp_shards p)" using assms(1) shard_index_less by (auto simp: pool_ok_def)
    with swept_effect(1) [OF assms(2) ok [OF i]] show "pool_Get (snd (pool_SweepExpired order now p)) u = unexpired now (pool_Get p) u"
      by (simp add: pool_Get_def pool_shard_def pool_Sweep_shards unexpired_def)
  qed
  have "s \<in> set (fst (pool_SweepExpired order now p)) \<longleftrightarrow> (\<exists>u. pool_Get p u = Some s \<and> ss_ExpireAt s < now)" for s
    unfolding pool_Sweep_shards pool_Get_shard [OF assms(1)] using swept_effect(2) [OF assms(2)] shard by fastforce
  then show expired: "set (fst (pool_SweepExpired order now p)) = {s. \<exists>u. pool_Get p u = Some s \<and> ss_ExpireAt s < now}" by blast
  show "set (cp_closed p) \<subseteq> set (cp_closed (snd (pool_SweepExpired order now p)))" by (simp add: pool_Sweep_shards)
  show "released (pool_Get p) (set (cp_closed (snd (pool_SweepExpired order now p)))) (pool_Get (snd (pool_SweepExpired order now p)))"
    unfolding released_def get
  proof (intro allI impI)
    fix u s c assume s: "pool_Get p u = Some s" "ss_Conn s = Some c"
    show "c \<in> set (cp_closed (snd (pool_SweepExpired order now p))) \<or> (\<exists>s'. unexpired now (pool_Get p) u = Some s' \<and> ss_Conn s' = Some c)"
    proof (cases "ss_ExpireAt s < now")
      case True
      with s expired have "s \<in> set (fst (pool_SweepExpired order now p))" by blast
      then obtain sh where "sh \<in> set (cp_shards p)" "s \<in> set (fst (snd (swept order now sh)))" by (auto simp: pool_Sweep_shards)
      with swept_effect(5) [OF assms(2)] shard s(2) show ?thesis by (fastforce simp: pool_Sweep_shards)
    qed (use s in \<open>simp add: unexpired_def\<close>)
  qed
  assume x: "pool_indexed p" "private_ids (pool_Get p)"
  have "shard_indexed (fst (swept order now (cp_shards p ! i)))" if "i < length (cp_shards p)" for i
    using swept_effect(4) [OF assms(2) ok [OF that]] private_shard [OF assms(1) that x(2)] x(1) that by (simp add: pool_indexed_def)
  then show "pool_indexed (snd (pool_SweepExpired order now p))"
    by (auto simp: pool_indexed_def pool_Sweep_shards in_set_conv_nth)
qed

lemma pool_CloseAll_effect:
  assumes "pool_ok p" "visits order"
  shows "pool_ok (pool_CloseAll order p)" "pool_Get (pool_CloseAll order p) = Map.empty" "pool_indexed (pool_CloseAll order p)"
    "released (pool_Get p) (set (cp_closed (pool_CloseAll order p))) m" "set (cp_closed p) \<subseteq> set (cp_closed (pool_CloseAll order p))"
proof -
  have shards: "cp_shards (pool_CloseAll order p) = replicate (length (cp_shards p)) empty_shard"
    "set (cp_closed (pool_CloseAll order p)) = set (cp_closed p) \<union>
       (\<Union>sh \<in> set (cp_shards p). \<Union>e \<in> set (order (sh_sessions sh)). set (close_conn (snd e)))"
    by (simp_all add: pool_CloseAll_def close_shards_conv close_shard_def)
  show "pool_ok (pool_CloseAll order p)" using assms(1) by (simp add: pool_ok_def shards)
  have i: "shard_index u (length (cp_shards p)) < length (cp_shards p)" for u using assms(1) shard_index_less by (auto simp: pool_ok_def)
  show "pool_Get (pool_CloseAll order p) = Map.empty"
    by (rule ext) (simp add: pool_Get_def pool_shard_def shards i empty_shard_def)
  show "pool_indexed (pool_CloseAll order p)" by (auto simp: pool_indexed_def shards)
  show "set (cp_closed p) \<subseteq> set (cp_closed (pool_CloseAll order p))" by (simp add: shards)
  show "released (pool_Get p) (set (cp_closed (pool_CloseAll order p))) m"
    unfolding released_def
  proof (intro allI impI disjI1)
    fix u s c assume s: "pool_Get p u = Some s" "ss_Conn s = Some c"
    then obtain i where i: "i < length (cp_shards p)" "shard_view (cp_shards p ! i) u = Some s"
      unfolding pool_Get_shard [OF assms(1)] by (metis in_set_conv_nth)
    have d: "distinct (map fst (sh_sessions (cp_shards p ! i)))" using assms(1) i(1) shard_okD(5) by (auto simp: pool_ok_def)
    have "(u, s) \<in> set (order (sh_sessions (cp_shards p ! i)))" using visitsD(1) [OF assms(2) d] i(2) by (simp add: map_of_SomeD)
    then show "c \<in> set (cp_closed (pool_CloseAll order p))"
      unfolding shards(2) using i(1) s(2) by (force simp: close_conn_def)
  qed
qed

section \<open>A pool of sessions\<close>

text \<open>
  The updates of a pool, and what each does to the map of sessions that the pool stands for. The interface of the manager to a
  pool: every update is the update of the map, and it closes the connections of the sessions that it removes.
\<close>

datatype pool_op =
    PoolSet Session
  | PoolDelete int
  | PoolSweep visit go_time
  | PoolCloseAll visit

fun pool_do :: "ConnectionPool \<Rightarrow> pool_op \<Rightarrow> ConnectionPool" where
  "pool_do p (PoolSet s) = pool_Set s p"
| "pool_do p (PoolDelete u) = pool_Delete u p"
| "pool_do p (PoolSweep order now) = snd (pool_SweepExpired order now p)"
| "pool_do p (PoolCloseAll order) = pool_CloseAll order p"

fun sessions_do :: "(int \<rightharpoonup> Session) \<Rightarrow> pool_op \<Rightarrow> int \<rightharpoonup> Session" where
  "sessions_do m (PoolSet s) = m(ss_UID s \<mapsto> s)"
| "sessions_do m (PoolDelete u) = m(u := None)"
| "sessions_do m (PoolSweep order now) = unexpired now m"
| "sessions_do m (PoolCloseAll order) = Map.empty"

fun op_visits :: "pool_op \<Rightarrow> bool" where
  "op_visits (PoolSweep order now) = visits order"
| "op_visits (PoolCloseAll order) = visits order"
| "op_visits _ = True"

text \<open>The sessions that are put into a pool do not share a connection id between users.\<close>

definition private_binds :: "pool_op list \<Rightarrow> bool" where
  "private_binds ops \<longleftrightarrow> (\<forall>s t. PoolSet s \<in> set ops \<longrightarrow> PoolSet t \<in> set ops \<longrightarrow> ss_ConnID s = ss_ConnID t \<longrightarrow>
     ss_ConnID s \<noteq> [] \<longrightarrow> ss_UID s = ss_UID t)"

lemma sessions_do_origin:
  assumes "foldl sessions_do Map.empty ops u = Some s"
  shows "PoolSet s \<in> set ops \<and> ss_UID s = u"
  using assms
proof (induction ops arbitrary: u s rule: rev_induct)
  case (snoc op ops)
  then show ?case by (cases op) (auto simp: unexpired_def split: if_splits option.splits)
qed simp

lemma private_binds_ids:
  assumes "private_binds ops"
  shows "private_ids (foldl sessions_do Map.empty ops)"
  using assms sessions_do_origin unfolding private_ids_def private_binds_def by metis

locale session_pool =
  fixes get :: "'p \<Rightarrow> int \<rightharpoonup> Session" and by_conn :: "'p \<Rightarrow> string \<Rightarrow> Session option"
    and update :: "'p \<Rightarrow> pool_op \<Rightarrow> 'p" and closed :: "'p \<Rightarrow> ClientConnection set"
    and ok :: "'p \<Rightarrow> bool" and indexed :: "'p \<Rightarrow> bool"
  assumes ok_update: "ok p \<Longrightarrow> op_visits op \<Longrightarrow> ok (update p op)"
    and get_update: "ok p \<Longrightarrow> op_visits op \<Longrightarrow> get (update p op) = sessions_do (get p) op"
    and closed_update: "ok p \<Longrightarrow> op_visits op \<Longrightarrow> closed p \<subseteq> closed (update p op)"
    and released_update: "ok p \<Longrightarrow> op_visits op \<Longrightarrow> released (get p) (closed (update p op)) (get (update p op))"
    and indexed_update: "ok p \<Longrightarrow> op_visits op \<Longrightarrow> indexed p \<Longrightarrow> private_ids (get p) \<Longrightarrow>
      private_ids (get (update p op)) \<Longrightarrow> indexed (update p op)"
    and by_conn_sound: "ok p \<Longrightarrow> by_conn p c = Some s \<Longrightarrow> c \<noteq> [] \<and> get p (ss_UID s) = Some s \<and> ss_ConnID s = c"
    and by_conn_complete: "ok p \<Longrightarrow> indexed p \<Longrightarrow> get p u = Some s \<Longrightarrow> ss_ConnID s \<noteq> [] \<Longrightarrow> by_conn p (ss_ConnID s) \<noteq> None"
begin

lemma run_refines:
  assumes "ok p" "\<forall>op \<in> set ops. op_visits op"
  shows "ok (foldl update p ops) \<and> get (foldl update p ops) = foldl sessions_do (get p) ops"
  using assms
proof (induction ops rule: rev_induct)
  case (snoc op ops)
  then show ?case using ok_update [of "foldl update p ops" op] get_update [of "foldl update p ops" op] by simp
qed simp

lemma run_indexed:
  assumes "ok p" "indexed p" "get p = Map.empty" "\<forall>op \<in> set ops. op_visits op" "private_binds ops"
  shows "indexed (foldl update p ops)"
  using assms
proof (induction ops rule: rev_induct)
  case (snoc op ops)
  let ?p = "foldl update p ops"
  have prefix: "private_binds ops" using snoc.prems(5) unfolding private_binds_def set_append by blast
  have "\<forall>op \<in> set ops. op_visits op" using snoc.prems(4) by simp
  from run_refines [OF snoc.prems(1) this] snoc.IH [OF snoc.prems(1-3) this prefix] snoc.prems(3)
  have run: "ok ?p" "get ?p = foldl sessions_do Map.empty ops" and indexed: "indexed ?p" by simp_all
  have ops: "op_visits op" using snoc.prems(4) by simp
  have "private_ids (get (update ?p op))"
    using private_binds_ids [OF snoc.prems(5)] get_update [OF run(1) ops] run(2) by simp
  moreover have "private_ids (get ?p)" using private_binds_ids [OF prefix] run(2) by simp
  ultimately show ?case using indexed_update [OF run(1) ops indexed] by simp
qed simp

lemma run_by_conn:
  assumes "ok p" "indexed p" "get p = Map.empty" "\<forall>op \<in> set ops. op_visits op" "private_binds ops"
  shows "by_conn (foldl update p ops) c = Some s \<longleftrightarrow>
    c \<noteq> [] \<and> foldl sessions_do Map.empty ops (ss_UID s) = Some s \<and> ss_ConnID s = c"
proof -
  let ?p = "foldl update p ops" and ?m = "foldl sessions_do Map.empty ops"
  have run: "ok ?p" "get ?p = ?m" using run_refines [OF assms(1,4)] assms(3) by auto
  have ids: "private_ids ?m" by (rule private_binds_ids [OF assms(5)])
  have "by_conn ?p c = Some s" if s: "c \<noteq> []" "?m (ss_UID s) = Some s" "ss_ConnID s = c"
  proof -
    have "get ?p (ss_UID s) = Some s" "ss_ConnID s \<noteq> []" using run(2) s by simp_all
    from by_conn_complete [OF run(1) run_indexed [OF assms] this] s(3) obtain t where t: "by_conn ?p c = Some t" by auto
    from by_conn_sound [OF run(1) t] run(2) have u: "?m (ss_UID t) = Some t" "ss_ConnID t = c" by simp_all
    have "ss_UID t = ss_UID s" by (rule private_idsD [OF ids u(1) s(2)]) (simp_all only: u(2) s not_False_eq_True)
    then have "t = s" using u(1) s(2) by (metis option.inject)
    then show ?thesis using t by blast
  qed
  moreover have "c \<noteq> [] \<and> ?m (ss_UID s) = Some s \<and> ss_ConnID s = c" if "by_conn ?p c = Some s"
    using by_conn_sound [OF run(1) that] run(2) by simp
  ultimately show ?thesis by blast
qed

lemma run_holds:
  assumes "ok p" "\<forall>op \<in> set ops. op_visits op" "PoolSet s \<in> set ops" "ss_Conn s = Some c"
  shows "c \<in> closed (foldl update p ops) \<or> (\<exists>u t. get (foldl update p ops) u = Some t \<and> ss_Conn t = Some c)"
  using assms
proof (induction ops rule: rev_induct)
  case (snoc op ops)
  let ?p = "foldl update p ops"
  have p: "ok ?p" "op_visits op" using run_refines [of p ops] snoc.prems by auto
  show ?case
  proof (cases "op = PoolSet s")
    case True
    then show ?thesis using get_update [OF p] snoc.prems(4) by (auto intro!: exI [of _ "ss_UID s"])
  next
    case False
    with snoc have "c \<in> closed ?p \<or> (\<exists>u t. get ?p u = Some t \<and> ss_Conn t = Some c)" by auto
    then show ?thesis using closed_update [OF p] releasedD [OF released_update [OF p]] by fastforce
  qed
qed simp

end

section \<open>The sharded pool implements the interface\<close>

lemma find_conn_Some:
  assumes "find_conn c shards = Some s"
  shows "\<exists>sh \<in> set shards. \<exists>u. map_of (sh_connIndex sh) c = Some u \<and> shard_view sh u = Some s"
  using assms by (induction shards) (auto split: option.splits simp del: map_of_eq_Some_iff)

lemma find_conn_None:
  assumes "find_conn c shards = None" "\<forall>sh \<in> set shards. \<exists>i. shard_ok n i sh"
  shows "\<forall>sh \<in> set shards. map_of (sh_connIndex sh) c = None"
  using assms by (induction shards) (auto split: option.splits dest: shard_okD(4) simp del: map_of_eq_Some_iff)

lemma pool_shard_ok:
  assumes "pool_ok p" "sh \<in> set (cp_shards p)"
  shows "\<exists>i. shard_ok (length (cp_shards p)) i sh"
  using assms unfolding pool_ok_def by (metis in_set_conv_nth)

lemma pool_by_conn_sound:
  assumes "pool_ok p" "pool_GetByConnID p c = Some s"
  shows "c \<noteq> [] \<and> pool_Get p (ss_UID s) = Some s \<and> ss_ConnID s = c"
proof -
  from assms(2) have c: "c \<noteq> []" "find_conn c (cp_shards p) = Some s" by (auto simp: pool_GetByConnID_def split: if_splits)
  from find_conn_Some [OF c(2)] obtain sh u where sh: "sh \<in> set (cp_shards p)" "map_of (sh_connIndex sh) c = Some u"
    "shard_view sh u = Some s" by blast
  from pool_shard_ok [OF assms(1) sh(1)] obtain i where "shard_ok (length (cp_shards p)) i sh" by blast
  from shard_okD(1) [OF this sh(3)] shard_okD(4) [OF this sh(2)] sh(3) have "ss_UID s = u" "ss_ConnID s = c" by simp_all
  with c sh pool_Get_shard [OF assms(1)] show ?thesis by blast
qed

lemma pool_by_conn_complete:
  assumes "pool_ok p" "pool_indexed p" "pool_Get p u = Some s" "ss_ConnID s \<noteq> []"
  shows "pool_GetByConnID p (ss_ConnID s) \<noteq> None"
proof -
  from assms(3) obtain sh where sh: "sh \<in> set (cp_shards p)" "shard_view sh u = Some s"
    unfolding pool_Get_shard [OF assms(1)] by blast
  with assms(2,4) have "map_of (sh_connIndex sh) (ss_ConnID s) = Some u" by (simp add: pool_indexed_def shard_indexed_def)
  moreover have "\<forall>sh \<in> set (cp_shards p). \<exists>i. shard_ok (length (cp_shards p)) i sh" using pool_shard_ok [OF assms(1)] by blast
  ultimately have "find_conn (ss_ConnID s) (cp_shards p) \<noteq> None" using find_conn_None sh(1) by fastforce
  then show ?thesis using assms(4) by (simp add: pool_GetByConnID_def)
qed

interpretation sharded: session_pool pool_Get pool_GetByConnID pool_do "\<lambda>p. set (cp_closed p)" pool_ok pool_indexed
proof
  fix p op assume p: "pool_ok p" "op_visits op"
  show "pool_ok (pool_do p op)"
    by (cases op) (use p in \<open>simp_all add: pool_Set_effect pool_Delete_effect pool_Sweep_effect pool_CloseAll_effect\<close>)
  show "pool_Get (pool_do p op) = sessions_do (pool_Get p) op"
    by (cases op) (use p in \<open>simp_all add: pool_Set_effect pool_Delete_effect pool_Sweep_effect pool_CloseAll_effect\<close>)
  show "set (cp_closed p) \<subseteq> set (cp_closed (pool_do p op))"
    using p by (cases op) (simp_all add: pool_Set_effect(4) pool_Delete_effect(4) pool_Sweep_effect(5) pool_CloseAll_effect(5))
  show "released (pool_Get p) (set (cp_closed (pool_do p op))) (pool_Get (pool_do p op))"
    using p by (cases op) (simp_all add: pool_Set_effect(3) pool_Delete_effect(3) pool_Sweep_effect(4) pool_CloseAll_effect(4))
  assume "pool_indexed p" "private_ids (pool_Get p)" "private_ids (pool_Get (pool_do p op))"
  then show "pool_indexed (pool_do p op)"
    using p by (cases op) (simp_all add: pool_Set_effect(2,5) pool_Delete_effect(5) pool_Sweep_effect(6) pool_CloseAll_effect(3))
next
  fix p c s assume "pool_ok p" "pool_GetByConnID p c = Some s"
  then show "c \<noteq> [] \<and> pool_Get p (ss_UID s) = Some s \<and> ss_ConnID s = c" by (rule pool_by_conn_sound)
next
  fix p u s assume "pool_ok p" "pool_indexed p" "pool_Get p u = Some s" "ss_ConnID s \<noteq> []"
  then show "pool_GetByConnID p (ss_ConnID s) \<noteq> None" by (rule pool_by_conn_complete)
qed

lemma new_pool [simp]:
  "pool_ok (NewConnectionPool n)" "pool_indexed (NewConnectionPool n)" "pool_Get (NewConnectionPool n) = Map.empty"
  "cp_closed (NewConnectionPool n) = []"
proof -
  show ok: "pool_ok (NewConnectionPool n)" by (simp add: pool_ok_def NewConnectionPool_def)
  show "pool_indexed (NewConnectionPool n)" by (simp add: pool_indexed_def NewConnectionPool_def)
  have "pool_Get (NewConnectionPool n) u \<noteq> Some s" for u s
    unfolding pool_Get_shard [OF ok] by (simp add: NewConnectionPool_def empty_shard_def)
  then show "pool_Get (NewConnectionPool n) = Map.empty" by (intro ext) (meson not_Some_eq)
  show "cp_closed (NewConnectionPool n) = []" by (simp add: NewConnectionPool_def)
qed

section \<open>Properties\<close>

text \<open>
  C21. The pool with its shards and its index is one map from users to sessions: after any sequence of updates of a new pool,
  \<^verbatim>\<open>Get\<close> returns what the same updates of a map give, a sweep returns exactly the sessions that have expired, whatever the order
  in which the runtime visits the maps, and, as long as no two users were given the same connection id, \<^verbatim>\<open>GetByConnID\<close> finds
  exactly the session with the id.
\<close>

theorem pool_refines_map:
  assumes "\<forall>op \<in> set ops. op_visits op" "visits order" "private_binds ops"
  shows "pool_Get (foldl pool_do (NewConnectionPool n) ops) = foldl sessions_do Map.empty ops \<and>
    set (fst (pool_SweepExpired order now (foldl pool_do (NewConnectionPool n) ops))) =
      {s. foldl sessions_do Map.empty ops (ss_UID s) = Some s \<and> ss_ExpireAt s < now} \<and>
    (pool_GetByConnID (foldl pool_do (NewConnectionPool n) ops) c = Some s \<longleftrightarrow>
      c \<noteq> [] \<and> foldl sessions_do Map.empty ops (ss_UID s) = Some s \<and> ss_ConnID s = c)"
proof -
  have run: "pool_ok (foldl pool_do (NewConnectionPool n) ops)"
    "pool_Get (foldl pool_do (NewConnectionPool n) ops) = foldl sessions_do Map.empty ops"
    using sharded.run_refines [OF new_pool(1) assms(1)] by simp_all
  then show ?thesis
    using pool_Sweep_effect(3) [OF run(1) assms(2)] sessions_do_origin [of ops]
      sharded.run_by_conn [OF new_pool(1-3) assms(1,3)] by auto
qed

text \<open>
  C22. No connection is leaked: a client connection that was put into the pool, with any session and before any updates, has been
  closed or belongs to a session that is in the pool.
\<close>

theorem connections_not_leaked:
  assumes "\<forall>op \<in> set ops. op_visits op" "PoolSet s \<in> set ops" "ss_Conn s = Some c"
  shows "c \<in> set (cp_closed (foldl pool_do (NewConnectionPool n) ops)) \<or>
    (\<exists>u t. pool_Get (foldl pool_do (NewConnectionPool n) ops) u = Some t \<and> ss_Conn t = Some c)"
  by (rule sharded.run_holds [OF new_pool(1) assms])

text \<open>
  C38. A heartbeat can bring a session back: when the user is disconnected after the heartbeat has read the session and before
  it stores it, the heartbeat succeeds and the session is in the pool again, with a connection that has been closed.
\<close>

theorem heartbeat_revives_closed:
  assumes "pool_ok p" "pool_Get p uid = Some old" "ss_Conn old = Some c" "ss_UID old = uid"
    and "manager_Heartbeat m (pool_Delete uid) uid connID (w, p) = (Inr session, w', p')"
  shows "pool_Get p' uid = Some session \<and> ss_Conn session = Some c \<and> c \<in> set (cp_closed p')"
proof -
  from assms(2,5) obtain now where s: "session = beat_session m now old" "p' = pool_Set session (pool_Delete uid p)"
    by (auto simp: manager_Heartbeat_def Let_def split: if_splits sum.splits prod.splits)
  have "c \<in> set (cp_closed (pool_Delete uid p))"
    using releasedD [OF pool_Delete_effect(3) [OF assms(1), of uid] assms(2,3)] pool_Delete_effect(2) [OF assms(1), of uid] by simp
  then have "c \<in> set (cp_closed p')" using pool_Set_effect(4) [OF pool_Delete_effect(1) [OF assms(1)]] s(2) by blast
  moreover have "pool_Get p' uid = Some session"
    using pool_Set_effect(2) [OF pool_Delete_effect(1) [OF assms(1)], of session uid] s assms(4) by (simp add: beat_session_def)
  ultimately show ?thesis using assms(3) s(1) by (simp add: beat_session_def)
qed

definition sample_session :: "int \<Rightarrow> string \<Rightarrow> nat \<Rightarrow> Session" where
  "sample_session uid connID conn = \<lparr>ss_UID = uid, ss_RoleID = 1, ss_ServerID = 1, ss_ConnID = connID, ss_GatewayAddr = ''g'',
     ss_ClientIP = [], ss_DeviceID = [], ss_ConnectedAt = 1, ss_LastHeartbeatAt = 1, ss_LastRenewAt = 1, ss_ExpireAt = uid,
     ss_Conn = Some conn\<rparr>"

definition sample_ops :: "pool_op list" where
  "sample_ops = [PoolSet (sample_session 7 ''a'' 0), PoolSet (sample_session 8 ''b'' 1), PoolSet (sample_session 7 ''c'' 2),
     PoolSweep rev 8]"

lemma sample_ops_visits: "\<forall>op \<in> set sample_ops. op_visits op" "visits rev"
  by (simp_all add: sample_ops_def visits_def)

theorem pool_refines_map_witness:
  "pool_Get (foldl pool_do (NewConnectionPool 4) sample_ops) = foldl sessions_do Map.empty sample_ops \<and>
   pool_GetByConnID (foldl pool_do (NewConnectionPool 4) sample_ops) ''b'' = Some (sample_session 8 ''b'' 1)"
proof -
  have b: "private_binds sample_ops" by (auto simp: private_binds_def sample_ops_def sample_session_def)
  show ?thesis
    using pool_refines_map [OF sample_ops_visits b, of 4 9 "''b''" "sample_session 8 ''b'' 1"]
    by (simp add: sample_ops_def sample_session_def unexpired_def)
qed

theorem connections_not_leaked_witness:
  "PoolSet (sample_session 7 ''a'' 0) \<in> set sample_ops \<and>
   (0 \<in> set (cp_closed (foldl pool_do (NewConnectionPool 4) sample_ops)) \<or>
    (\<exists>u t. pool_Get (foldl pool_do (NewConnectionPool 4) sample_ops) u = Some t \<and> ss_Conn t = Some 0))"
  using connections_not_leaked [OF sample_ops_visits(1), of "sample_session 7 ''a'' 0" 0 4]
  by (simp add: sample_ops_def sample_session_def)

definition gate_manager :: "mem_world ConnectionManager" where
  "gate_manager = fst (NewConnectionManager (redis_GateConnStore \<lparr>rr_client = mem_redis, rr_prefix = ''p:''\<rparr>) ''g''
     0 (10 ^ 20) mem_clock)"

theorem heartbeat_revives_closed_witness:
  "\<exists>session w' p'. manager_Heartbeat gate_manager (pool_Delete 7) 7 ''a''
      (gateway_world, pool_Set (sample_session 7 ''a'' 0) (NewConnectionPool 4)) = (Inr session, w', p') \<and>
    pool_Get p' 7 = Some session \<and> ss_Conn session = Some 0 \<and> 0 \<in> set (cp_closed p')"
proof -
  let ?p = "pool_Set (sample_session 7 ''a'' 0) (NewConnectionPool 4)"
  have p: "pool_ok ?p" "pool_Get ?p 7 = Some (sample_session 7 ''a'' 0)"
    using pool_Set_effect(1,2) [OF new_pool(1)] by (simp_all add: sample_session_def)
  have s: "ss_Conn (sample_session 7 ''a'' 0) = Some 0" "ss_UID (sample_session 7 ''a'' 0) = 7"
    "ss_ConnID (sample_session 7 ''a'' 0) = ''a''" by (simp_all add: sample_session_def)
  have "time_sub now (ss_LastRenewAt (sample_session 7 ''a'' 0)) < cm_renewInterval gate_manager" for now
    by (simp add: time_sub_def gate_manager_def NewConnectionManager_def)
  moreover obtain now w1 where "cm_now gate_manager gateway_world = (now, w1)" by fastforce
  ultimately obtain session w' p' where
    run: "manager_Heartbeat gate_manager (pool_Delete 7) 7 ''a'' (gateway_world, ?p) = (Inr session, w', p')"
    using p(2) s by (auto simp: manager_Heartbeat_def Let_def not_le [symmetric] split: prod.splits)
  from heartbeat_revives_closed [OF p s(1,2) run] run show ?thesis by simp
qed

end
