(* ===== verification/Account_Service.thy ===== *)
theory Account_Service
  imports Route_Service Mail_Rpc
begin

text \<open>
  Logins: the users of a player server (\<^verbatim>\<open>app/playersrv/account_service.go\<close>), the account service that issues login
  tokens (\<^verbatim>\<open>app/accountsrv/service.go\<close>) and its RPC and HTTP server (\<^verbatim>\<open>app/accountsrv/server.go\<close>). The RPC client of
  the player server, the source of random bytes and the protobuf encodings are parameters. The properties show that a
  user keeps its role and shares it with nobody, and that a token that was issued is found in Redis until it expires.
\<close>

section \<open>Users of a player server\<close>

definition ErrInvalidLoginRequest :: error where "ErrInvalidLoginRequest = ErrorNew ''invalid login request''"

record UserIdentity =
  ui_UID :: int
  ui_RoleID :: int
  ui_ServerID :: int

type_synonym 's UserRepository = "int \<Rightarrow> int \<Rightarrow> ('s, UserIdentity \<times> bool) io"

definition player_Login :: "'s UserRepository \<Rightarrow> LoginRequest \<Rightarrow> ('s, LoginResponse) io" where
  "player_Login users req =
     (if lreq_Uid req \<le> 0 \<or> lreq_ServerId req \<le> 0 then io_fail ErrInvalidLoginRequest
      else io_bind (users (lreq_Uid req) (lreq_ServerId req)) (\<lambda>(identity, isNew).
        io_return \<lparr>lres_Token = [], lres_Uid = ui_UID identity, lres_RoleId = ui_RoleID identity,
          lres_ServerId = wrap32 (ui_ServerID identity), lres_IsNewUser = isNew, lres_ExpireAt = []\<rparr>))"

record MemoryUserRepository =
  mu_nextID :: int
  mu_users :: "int \<rightharpoonup> UserIdentity"

definition NewMemoryUserRepository :: MemoryUserRepository where
  "NewMemoryUserRepository = \<lparr>mu_nextID = 100000, mu_users = Map.empty\<rparr>"

text \<open>\<^verbatim>\<open>nextID++\<close> wraps; the lock is held for the whole call.\<close>

definition GetOrCreateUser :: "MemoryUserRepository UserRepository" where
  "GetOrCreateUser uid serverID = (\<lambda>r. case mu_users r uid of
       Some user \<Rightarrow> (Inr (user, False), r)
     | None \<Rightarrow>
         let nextID = wrap64 (mu_nextID r + 1); user = \<lparr>ui_UID = uid, ui_RoleID = nextID, ui_ServerID = serverID\<rparr>
         in (Inr (user, True), \<lparr>mu_nextID = nextID, mu_users = (mu_users r)(uid \<mapsto> user)\<rparr>))"

section \<open>The account service\<close>

type_synonym 'w LoginTokenStore = "LoginToken \<Rightarrow> duration \<Rightarrow> ('w, unit) io"
type_synonym 'w GameLoginClient = "LoginRequest \<Rightarrow> ('w, LoginResponse) io"

record 'w account_Service =
  as_store :: "'w LoginTokenStore"
  as_games :: "'w GameLoginClient"
  as_ttl :: duration
  as_now :: "'w clock"
  as_rand :: "('w, string) io"

record LoginResult =
  lr_Token :: LoginToken
  lr_IsNewUser :: bool

definition account_NewService ::
  "'w LoginTokenStore \<Rightarrow> 'w GameLoginClient \<Rightarrow> duration \<Rightarrow> 'w clock \<Rightarrow> ('w, string) io \<Rightarrow> 'w account_Service" where
  "account_NewService store games ttl clock rand =
     \<lparr>as_store = store, as_games = games, as_ttl = (if ttl \<le> 0 then 2 * time_minute else ttl), as_now = clock, as_rand = rand\<rparr>"

definition hex_digit :: "nat \<Rightarrow> char" where
  "hex_digit d = char_of (if d < 10 then 48 + d else 87 + d)"

fun hex_EncodeToString :: "string \<Rightarrow> string" where
  "hex_EncodeToString [] = []"
| "hex_EncodeToString (b # bs) = hex_digit (of_char b div 16) # hex_digit (of_char b mod 16) # hex_EncodeToString bs"

text \<open>\<^verbatim>\<open>rand.Read\<close> fills the 16 bytes or fails.\<close>

definition randomToken :: "('w, string) io \<Rightarrow> ('w, string) io" where
  "randomToken rand = io_bind rand (\<lambda>buf. io_return (hex_EncodeToString buf))"

definition login_token :: "LoginResponse \<Rightarrow> string \<Rightarrow> go_time \<Rightarrow> LoginToken" where
  "login_token login token expireAt = \<lparr>lt_Token = token, lt_UID = lres_Uid login, lt_RoleID = lres_RoleId login,
     lt_ServerID = lres_ServerId login, lt_ExpireAt = expireAt\<rparr>"

definition account_Login :: "'w account_Service \<Rightarrow> int \<Rightarrow> int \<Rightarrow> ('w, LoginResult) io" where
  "account_Login s uid serverID =
     io_bind (as_games s \<lparr>lreq_Uid = uid, lreq_ServerId = wrap32 serverID\<rparr>) (\<lambda>login.
     io_bind (randomToken (as_rand s)) (\<lambda>token w.
       let (now, w1) = as_now s w; value = login_token login token (now + as_ttl s)
       in io_bind (as_store s value (as_ttl s)) (\<lambda>_. io_return \<lparr>lr_Token = value, lr_IsNewUser = lres_IsNewUser login\<rparr>) w1))"

section \<open>The account server\<close>

definition account_server_Login :: "'w account_Service \<Rightarrow> LoginRequest \<Rightarrow> ('w, LoginResponse) io" where
  "account_server_Login s req = io_bind (account_Login s (lreq_Uid req) (lreq_ServerId req)) (\<lambda>result.
     io_return \<lparr>lres_Token = lt_Token (lr_Token result), lres_Uid = lt_UID (lr_Token result),
       lres_RoleId = lt_RoleID (lr_Token result), lres_ServerId = wrap32 (lt_ServerID (lr_Token result)),
       lres_IsNewUser = lr_IsNewUser result, lres_ExpireAt = format_rfc3339 (lt_ExpireAt (lr_Token result))\<rparr>)"

text \<open>
  \<^verbatim>\<open>strings.ToLower\<close> on the bytes of UTF-8, as far as \<^verbatim>\<open>strings.Contains\<close> with an ASCII word can see it: of the letters outside
  of ASCII only U+0130 and U+212A have a lower case in ASCII.
\<close>

fun strings_ToLower :: "string \<Rightarrow> string" where
  "strings_ToLower [] = []"
| "strings_ToLower (c # cs) =
     (if c = char_of (196 :: nat) \<and> cs \<noteq> [] \<and> hd cs = char_of (176 :: nat) then CHR ''i'' # strings_ToLower (tl cs)
      else if c = char_of (226 :: nat) \<and> take 2 cs = [char_of (132 :: nat), char_of (170 :: nat)] then CHR ''k'' # strings_ToLower (drop 2 cs)
      else (if (65 :: nat) \<le> of_char c \<and> of_char c \<le> (90 :: nat) then char_of (of_char c + 32 :: nat) else c) # strings_ToLower cs)"

fun strings_Contains :: "string \<Rightarrow> string \<Rightarrow> bool" where
  "strings_Contains [] sub \<longleftrightarrow> sub = []"
| "strings_Contains (c # cs) sub \<longleftrightarrow> take (length sub) (c # cs) = sub \<or> strings_Contains cs sub"

definition isBinaryProto :: "string \<Rightarrow> bool" where
  "isBinaryProto contentType = (let contentType = strings_ToLower contentType
     in strings_Contains contentType ''application/x-protobuf'' \<or> strings_Contains contentType ''application/protobuf'')"

definition acceptsBinaryProto :: "string \<Rightarrow> bool" where
  "acceptsBinaryProto accept = isBinaryProto accept"

text \<open>
  The HTTP request as far as the handler reads it, the encodings of the two messages, and what the handler does to the response:
  headers, an error reply, the body. Writing the body may fail.
\<close>

record login_http_request =
  lh_Method :: string
  lh_ContentType :: string
  lh_Accept :: string
  lh_Body :: "error + string"

record login_codec =
  lc_Unmarshal :: "string \<Rightarrow> error + LoginRequest"
  lc_JsonUnmarshal :: "string \<Rightarrow> error + LoginRequest"
  lc_Marshal :: "LoginResponse \<Rightarrow> error + string"
  lc_JsonMarshal :: "LoginResponse \<Rightarrow> error + string"

datatype http_action =
    SetHeader string string
  | WriteHeader int
  | ErrorReply string int
  | WriteBody string

definition readProtoHTTP :: "login_codec \<Rightarrow> login_http_request \<Rightarrow> error + LoginRequest" where
  "readProtoHTTP codec r = (case lh_Body r of
       Inl e \<Rightarrow> Inl e
     | Inr body \<Rightarrow> if isBinaryProto (lh_ContentType r) then lc_Unmarshal codec body else lc_JsonUnmarshal codec body)"

definition write_body :: "(string \<Rightarrow> ('w, unit) io) \<Rightarrow> string \<Rightarrow> error + string \<Rightarrow> 'w \<Rightarrow> error option \<times> http_action list \<times> 'w" where
  "write_body write contentType out w = (case out of
       Inl e \<Rightarrow> (Some e, [], w)
     | Inr bytes \<Rightarrow> (case write bytes w of
           (Inl e, w1) \<Rightarrow> (Some e, [SetHeader ''Content-Type'' contentType, WriteBody bytes], w1)
         | (Inr _, w1) \<Rightarrow> (None, [SetHeader ''Content-Type'' contentType, WriteBody bytes], w1)))"

definition writeProtoHTTP :: "login_codec \<Rightarrow> (string \<Rightarrow> ('w, unit) io) \<Rightarrow> login_http_request \<Rightarrow> LoginResponse \<Rightarrow> 'w \<Rightarrow>
  error option \<times> http_action list \<times> 'w" where
  "writeProtoHTTP codec write r msg =
     (if acceptsBinaryProto (lh_Accept r) then write_body write ''application/x-protobuf'' (lc_Marshal codec msg)
      else write_body write ''application/json'' (lc_JsonMarshal codec msg))"

definition handleLogin :: "'w account_Service \<Rightarrow> login_codec \<Rightarrow> (string \<Rightarrow> ('w, unit) io) \<Rightarrow> login_http_request \<Rightarrow> 'w \<Rightarrow>
  http_action list \<times> 'w" where
  "handleLogin s codec write r w =
     (if lh_Method r \<noteq> ''POST'' then ([SetHeader ''Allow'' ''POST'', ErrorReply ''method not allowed'' 405], w)
      else case readProtoHTTP codec r of
        Inl e \<Rightarrow> ([ErrorReply (error_text e) 400], w)
      | Inr req \<Rightarrow> (case account_server_Login s req w of
            (Inl e, w1) \<Rightarrow> ([ErrorReply (error_text e) 500], w1)
          | (Inr resp, w1) \<Rightarrow> (case writeProtoHTTP codec write r resp w1 of
                (None, actions, w2) \<Rightarrow> (actions, w2)
              | (Some e, actions, w2) \<Rightarrow> (actions @ [ErrorReply (error_text e) 500], w2))))"

text \<open>The wiring of \<^verbatim>\<open>cmd/accountsrv/main.go\<close>.\<close>

definition account_server :: "'w redis_repo \<Rightarrow> 'w GameLoginClient \<Rightarrow> duration \<Rightarrow> 'w clock \<Rightarrow> ('w, string) io \<Rightarrow> 'w account_Service" where
  "account_server repo games ttl clock rand = account_NewService (redis_SetLoginToken repo) games ttl clock rand"

section \<open>Users and their roles\<close>

text \<open>Logins at a player server, one after the other.\<close>

fun logins :: "'s UserRepository \<Rightarrow> LoginRequest list \<Rightarrow> 's \<Rightarrow> (error + LoginResponse) list \<times> 's" where
  "logins users [] s = ([], s)"
| "logins users (req # reqs) s = (let (res, s1) = player_Login users req s; (rs, s2) = logins users reqs s1 in (res # rs, s2))"

text \<open>
  What the player server relies on: a repository of users is a map that only grows, and a new user gets a role that no
  other user has. \<open>room\<close> counts the role ids that are left.
\<close>

locale user_store =
  fixes users :: "'s UserRepository" and known :: "'s \<Rightarrow> int \<rightharpoonup> UserIdentity" and ok :: "'s \<Rightarrow> bool" and room :: "'s \<Rightarrow> int"
  assumes total: "\<exists>identity isNew s'. users uid server s = (Inr (identity, isNew), s')"
    and found: "users uid server s = (Inr (identity, isNew), s') \<Longrightarrow> known s uid = Some old \<Longrightarrow>
      identity = old \<and> \<not> isNew \<and> s' = s"
    and created: "users uid server s = (Inr (identity, isNew), s') \<Longrightarrow> known s uid = None \<Longrightarrow> ok s \<Longrightarrow> 0 < room s \<Longrightarrow>
      isNew \<and> identity = \<lparr>ui_UID = uid, ui_RoleID = ui_RoleID identity, ui_ServerID = server\<rparr> \<and>
      (\<forall>u old. known s u = Some old \<longrightarrow> ui_RoleID old \<noteq> ui_RoleID identity) \<and>
      known s' = (known s)(uid \<mapsto> identity) \<and> ok s' \<and> room s' = room s - 1"
begin

definition separate :: "'s \<Rightarrow> bool" where
  "separate s \<longleftrightarrow> (\<forall>u v a b. known s u = Some a \<longrightarrow> known s v = Some b \<longrightarrow> ui_RoleID a = ui_RoleID b \<longrightarrow> u = v) \<and>
     (\<forall>u a. known s u = Some a \<longrightarrow> ui_UID a = u)"

lemma login_step:
  assumes "ok s" "separate s" "0 < room s" "player_Login users req s = (res, s')"
  shows "ok s' \<and> separate s' \<and> room s - 1 \<le> room s' \<and> known s \<subseteq>\<^sub>m known s' \<and>
    (\<forall>r. res = Inr r \<longrightarrow> (\<exists>a. known s' (lreq_Uid req) = Some a \<and> lres_Uid r = lreq_Uid req \<and> lres_RoleId r = ui_RoleID a \<and>
       lres_ServerId r = wrap32 (ui_ServerID a) \<and> (lres_IsNewUser r \<longleftrightarrow> known s (lreq_Uid req) = None)))"
proof (cases "lreq_Uid req \<le> 0 \<or> lreq_ServerId req \<le> 0")
  case True
  with assms show ?thesis by (auto simp: player_Login_def)
next
  case False
  obtain identity isNew s1 where run: "users (lreq_Uid req) (lreq_ServerId req) s = (Inr (identity, isNew), s1)" using total by blast
  with False assms(4) have res: "s' = s1" "res = Inr \<lparr>lres_Token = [], lres_Uid = ui_UID identity, lres_RoleId = ui_RoleID identity,
      lres_ServerId = wrap32 (ui_ServerID identity), lres_IsNewUser = isNew, lres_ExpireAt = []\<rparr>"
    by (auto simp: player_Login_def)
  show ?thesis
  proof (cases "known s (lreq_Uid req)")
    case (Some old)
    from found [OF run this] have "identity = old" "\<not> isNew" "s1 = s" by simp_all
    with Some assms(1-3) res show ?thesis by (auto simp: separate_def)
  next
    case None
    from created [OF run this assms(1,3)] have new: "isNew" "ui_UID identity = lreq_Uid req"
      "\<forall>u old. known s u = Some old \<longrightarrow> ui_RoleID old \<noteq> ui_RoleID identity"
      "known s1 = (known s)(lreq_Uid req \<mapsto> identity)" "ok s1" "room s1 = room s - 1"
      by (metis UserIdentity.select_convs(1), (simp | metis UserIdentity.select_convs(1))+)
    have "separate s1" using assms(2) new(2,3) unfolding separate_def new(4) by (fastforce split: if_splits)
    moreover have "known s \<subseteq>\<^sub>m known s1" using None by (auto simp: new(4) map_le_def)
    ultimately show ?thesis using None new res by simp
  qed
qed

text \<open>The answers of a sequence of logins, against the users that are known at the end.\<close>

definition answers :: "LoginRequest \<Rightarrow> 's \<Rightarrow> LoginResponse \<Rightarrow> bool" where
  "answers req s r \<longleftrightarrow> (\<exists>a. known s (lreq_Uid req) = Some a \<and> lres_Uid r = lreq_Uid req \<and> lres_RoleId r = ui_RoleID a \<and>
     lres_ServerId r = wrap32 (ui_ServerID a))"

lemma answers_mono: "answers req s r \<Longrightarrow> known s \<subseteq>\<^sub>m known s' \<Longrightarrow> answers req s' r"
  by (auto simp: answers_def map_le_def dom_def)

lemma logins_spec:
  assumes "ok s" "separate s" "int (length reqs) \<le> room s" "logins users reqs s = (rs, s')"
  shows "separate s' \<and> known s \<subseteq>\<^sub>m known s' \<and> length rs = length reqs \<and>
    (\<forall>i r. i < length reqs \<longrightarrow> rs ! i = Inr r \<longrightarrow> answers (reqs ! i) s' r \<and> (lres_IsNewUser r \<longrightarrow> known s (lreq_Uid (reqs ! i)) = None)) \<and>
    (\<forall>i j a b. i < j \<longrightarrow> j < length reqs \<longrightarrow> rs ! i = Inr a \<longrightarrow> rs ! j = Inr b \<longrightarrow> lreq_Uid (reqs ! i) = lreq_Uid (reqs ! j) \<longrightarrow>
       \<not> lres_IsNewUser b)"
  using assms
proof (induction reqs arbitrary: s rs)
  case (Cons req reqs)
  obtain res s1 rs1 where step: "player_Login users req s = (res, s1)" and rest: "logins users reqs s1 = (rs1, s')"
    and rs: "rs = res # rs1" using Cons.prems(4) by (auto simp: Let_def split: prod.splits)
  have room: "0 < room s" using Cons.prems(3) by simp
  note one = login_step [OF Cons.prems(1,2) room step]
  have "int (length reqs) \<le> room s1" using one Cons.prems(3) by simp
  from Cons.IH [OF _ _ this rest] one
  have tail: "separate s'" "known s1 \<subseteq>\<^sub>m known s'" "length rs1 = length reqs"
    "\<And>i r. i < length reqs \<Longrightarrow> rs1 ! i = Inr r \<Longrightarrow> answers (reqs ! i) s' r"
    "\<And>i r. i < length reqs \<Longrightarrow> rs1 ! i = Inr r \<Longrightarrow> lres_IsNewUser r \<Longrightarrow> known s1 (lreq_Uid (reqs ! i)) = None"
    "\<And>i j a b. i < j \<Longrightarrow> j < length reqs \<Longrightarrow> rs1 ! i = Inr a \<Longrightarrow> rs1 ! j = Inr b \<Longrightarrow>
       lreq_Uid (reqs ! i) = lreq_Uid (reqs ! j) \<Longrightarrow> \<not> lres_IsNewUser b" by auto
  have head: "answers req s1 r" "lres_IsNewUser r \<Longrightarrow> known s (lreq_Uid req) = None" if "res = Inr r" for r
    using one that by (auto simp: answers_def)
  have grow: "known s \<subseteq>\<^sub>m known s1" using one by simp
  show ?case
  proof (intro conjI allI impI)
    show "separate s'" "length rs = length (req # reqs)" using tail rs by simp_all
    show "known s \<subseteq>\<^sub>m known s'" using grow tail(2) map_le_trans by blast
    fix i r assume i: "i < length (req # reqs)" "rs ! i = Inr r"
    show "answers ((req # reqs) ! i) s' r"
      by (cases i) (use i head(1) answers_mono [OF _ tail(2)] tail(4) rs in auto)
    assume "lres_IsNewUser r"
    then show "known s (lreq_Uid ((req # reqs) ! i)) = None"
      by (cases i) (use i head(2) tail(5) grow rs in \<open>auto simp: map_le_def dom_def\<close>)
  next
    fix i j a b assume ij: "i < j" "j < length (req # reqs)" "rs ! i = Inr a" "rs ! j = Inr b"
      "lreq_Uid ((req # reqs) ! i) = lreq_Uid ((req # reqs) ! j)"
    from ij(1) obtain k where j: "j = Suc k" by (cases j) auto
    show "\<not> lres_IsNewUser b"
    proof (cases i)
      case 0
      with ij head(1) [of a] rs have "known s1 (lreq_Uid (reqs ! k)) \<noteq> None" by (auto simp: answers_def j)
      with tail(5) [of k b] ij j rs show ?thesis by auto
    next
      case (Suc l)
      with tail(6) [of l k a b] ij j rs show ?thesis by simp
    qed
  qed
qed simp

end

text \<open>The repository in memory is such a store.\<close>

definition memory_users_ok :: "MemoryUserRepository \<Rightarrow> bool" where
  "memory_users_ok r \<longleftrightarrow> 0 \<le> mu_nextID r \<and> (\<forall>u a. mu_users r u = Some a \<longrightarrow> ui_RoleID a \<le> mu_nextID r)"

interpretation memory_users: user_store GetOrCreateUser mu_users memory_users_ok "\<lambda>r. 2 ^ 63 - 1 - mu_nextID r"
proof
  fix uid server and r :: MemoryUserRepository
  show "\<exists>identity isNew s'. GetOrCreateUser uid server r = (Inr (identity, isNew), s')"
    by (auto simp: GetOrCreateUser_def Let_def split: option.split)
next
  fix uid server identity isNew old and r r' :: MemoryUserRepository
  assume "GetOrCreateUser uid server r = (Inr (identity, isNew), r')" "mu_users r uid = Some old"
  then show "identity = old \<and> \<not> isNew \<and> r' = r" by (auto simp: GetOrCreateUser_def)
next
  fix uid server identity isNew and r r' :: MemoryUserRepository
  assume run: "GetOrCreateUser uid server r = (Inr (identity, isNew), r')" "mu_users r uid = None"
    and ok: "memory_users_ok r" "0 < 2 ^ 63 - 1 - mu_nextID r"
  have wrap: "wrap64 (mu_nextID r + 1) = mu_nextID r + 1" using ok by (intro wrap64_id) (simp add: memory_users_ok_def in_int64_def)
  from run have "identity = \<lparr>ui_UID = uid, ui_RoleID = mu_nextID r + 1, ui_ServerID = server\<rparr>" "isNew"
    "r' = \<lparr>mu_nextID = mu_nextID r + 1, mu_users = (mu_users r)(uid \<mapsto> identity)\<rparr>" by (auto simp: GetOrCreateUser_def wrap Let_def)
  then show "isNew \<and> identity = \<lparr>ui_UID = uid, ui_RoleID = ui_RoleID identity, ui_ServerID = server\<rparr> \<and>
      (\<forall>u old. mu_users r u = Some old \<longrightarrow> ui_RoleID old \<noteq> ui_RoleID identity) \<and>
      mu_users r' = (mu_users r)(uid \<mapsto> identity) \<and> memory_users_ok r' \<and> 2 ^ 63 - 1 - mu_nextID r' = 2 ^ 63 - 1 - mu_nextID r - 1"
    using ok(1) by (fastforce simp: memory_users_ok_def)
qed

lemma new_users_ok: "memory_users_ok NewMemoryUserRepository" "memory_users.separate NewMemoryUserRepository"
  by (simp_all add: memory_users_ok_def memory_users.separate_def NewMemoryUserRepository_def)

section \<open>Tokens\<close>

text \<open>A token determines the random bytes.\<close>

lemma hex_digit_inject: "d < 16 \<Longrightarrow> e < 16 \<Longrightarrow> hex_digit d = hex_digit e \<longleftrightarrow> d = e"
proof
  assume "d < 16" "e < 16" "hex_digit d = hex_digit e"
  then have "(of_char (hex_digit d) :: nat) = of_char (hex_digit e)" by simp
  with \<open>d < 16\<close> \<open>e < 16\<close> show "d = e" by (auto simp: hex_digit_def split: if_splits)
qed simp

lemma hex_inject: "hex_EncodeToString bs = hex_EncodeToString cs \<longleftrightarrow> bs = cs"
proof (induction bs arbitrary: cs)
  case Nil
  show ?case by (cases cs) simp_all
next
  case (Cons b bs)
  have "(of_char b :: nat) < 256" for b :: char by simp
  then have byte: "(of_char b :: nat) div 16 < 16" for b :: char by (simp add: less_mult_imp_div_less)
  show ?case
  proof (cases cs)
    case (Cons c cs')
    have "b = c" if "(of_char b :: nat) div 16 = of_char c div 16" "(of_char b :: nat) mod 16 = of_char c mod 16"
    proof -
      from that have "(of_char b :: nat) = of_char c" by (metis div_mult_mod_eq)
      then show ?thesis by simp
    qed
    then show ?thesis using Cons.IH byte by (auto simp: Cons hex_digit_inject)
  qed simp
qed

text \<open>Calls that leave Redis as it is, while its clock does not run backwards.\<close>

definition quiet :: "('w \<Rightarrow> keyspace) \<Rightarrow> ('w \<Rightarrow> go_time) \<Rightarrow> ('w \<Rightarrow> 'a \<times> 'w) \<Rightarrow> bool" where
  "quiet ks rnow m \<longleftrightarrow> (\<forall>w. ks (snd (m w)) = ks w \<and> rnow w \<le> rnow (snd (m w)))"

lemma quietD: "quiet ks rnow m \<Longrightarrow> m w = (r, w') \<Longrightarrow> ks w' = ks w \<and> rnow w \<le> rnow w'"
  unfolding quiet_def by (metis snd_conv)

context redis
begin

lemma set_only_entry:
  assumes "rd_set C k b ttl w = (Inr u, w')" "ttl > 0"
  shows "\<exists>x. ks w' = (ks w)(k \<mapsto> (RString b, Some x)) \<and> rnow w + ttl - time_millisecond < x"
proof -
  from set [OF assms(1)] obtain t e where "during rnow w w' t" "set_expiry t ttl e"
    "ks w' = (ks w)(k \<mapsto> (RString b, e))" by (auto simp: commits_def)
  then show ?thesis using assms(2) by (auto simp: set_expiry_def during_def)
qed

lemma stored_token:
  assumes "redis_SetLoginToken \<lparr>rr_client = C, rr_prefix = p\<rparr> token ttl w = (Inr u, w')" "ttl > 0"
    and "in_int64 (lt_UID token)" "in_int64 (lt_RoleID token)" "in_int64 (lt_ServerID token)"
  shows "\<exists>b x. ks w' = (ks w)(loginTokenKey p (lt_Token token) \<mapsto> (RString b, Some x)) \<and>
    Unmarshal unmarshal_login_token (bytes_raw b) = Inr token \<and> rnow w + ttl - time_millisecond < x"
proof -
  from assms(1,2) obtain payload where m: "marshal_login_token token = Inr payload"
    and s: "rd_set C (loginTokenKey p (lt_Token token)) (BJson payload) ttl w = (Inr u, w')"
    by (auto simp: redis_SetLoginToken_def entry_ttl_def split: sum.splits)
  from set_only_entry [OF s assms(2)] obtain x where
    "ks w' = (ks w)(loginTokenKey p (lt_Token token) \<mapsto> (RString (BJson payload), Some x))" "rnow w + ttl - time_millisecond < x" by blast
  with login_token_roundtrip [OF m assms(3-5)] show ?thesis
    by (intro exI [of _ "BJson payload"] exI [of _ x]) simp
qed

end

section \<open>Properties\<close>

text \<open>
  C28. A user keeps its role: in any sequence of logins at a player server that has just been started, every login that succeeds is
  answered with the user that asked; two logins of the same user are answered with the same role and server, and the
  second one does not report a new user; two logins of different users are answered with different roles. The
  sequence is shorter than the number of role ids that are left before they wrap.
\<close>

theorem logins_identify:
  assumes "logins GetOrCreateUser reqs NewMemoryUserRepository = (rs, repo)" "length reqs < 2 ^ 62"
    and "i < j" "j < length reqs" "rs ! i = Inr a" "rs ! j = Inr b"
  shows "lres_Uid a = lreq_Uid (reqs ! i) \<and> lres_Uid b = lreq_Uid (reqs ! j) \<and>
    (if lres_Uid a = lres_Uid b then lres_RoleId a = lres_RoleId b \<and> lres_ServerId a = lres_ServerId b \<and> \<not> lres_IsNewUser b
     else lres_RoleId a \<noteq> lres_RoleId b)"
proof -
  have room: "int (length reqs) \<le> 2 ^ 63 - 1 - mu_nextID NewMemoryUserRepository"
    using assms(2) by (simp add: NewMemoryUserRepository_def)
  note spec = memory_users.logins_spec [OF new_users_ok room assms(1)]
  from spec assms(3-6) have "memory_users.answers (reqs ! i) repo a" "memory_users.answers (reqs ! j) repo b"
    "lreq_Uid (reqs ! i) = lreq_Uid (reqs ! j) \<longrightarrow> \<not> lres_IsNewUser b" by auto
  moreover have "memory_users.separate repo" using spec by simp
  ultimately show ?thesis unfolding memory_users.answers_def memory_users.separate_def by (auto; blast)
qed

text \<open>
  C23. A login token is what the game server answered, and it can be read: after a login the entry of the token in Redis decodes to
  the token that the client got, for as long as the entry is left alone and has not expired, which is not before the time
  to live has passed; reading it may report an error, and never another token. The entries of all other tokens are as before.
\<close>

theorem login_token_readable:
  assumes "redis C ks rnow"
    and "\<forall>req. quiet ks rnow (games req)" "quiet ks rnow clock" "quiet ks rnow rand"
    and "\<forall>req w r w'. games req w = (Inr r, w') \<longrightarrow> in_int64 (lres_Uid r) \<and> in_int64 (lres_RoleId r) \<and> in_int64 (lres_ServerId r)"
    and "account_Login (account_server \<lparr>rr_client = C, rr_prefix = p\<rparr> games ttl clock rand) uid server w = (Inr result, w1)"
  shows "(\<exists>login wl. games \<lparr>lreq_Uid = uid, lreq_ServerId = wrap32 server\<rparr> w = (Inr login, wl) \<and>
      lt_UID (lr_Token result) = lres_Uid login \<and> lt_RoleID (lr_Token result) = lres_RoleId login \<and>
      lt_ServerID (lr_Token result) = lres_ServerId login \<and> lr_IsNewUser result = lres_IsNewUser login) \<and>
    (\<forall>t. t \<noteq> lt_Token (lr_Token result) \<longrightarrow> ks w1 (loginTokenKey p t) = ks w (loginTokenKey p t)) \<and>
    (\<exists>x. rnow w + (if ttl \<le> 0 then 2 * time_minute else ttl) - time_millisecond < x \<and>
      (\<forall>w2 res w3. ks w2 (loginTokenKey p (lt_Token (lr_Token result))) = ks w1 (loginTokenKey p (lt_Token (lr_Token result))) \<longrightarrow>
         redis_GetLoginToken \<lparr>rr_client = C, rr_prefix = p\<rparr> (lt_Token (lr_Token result)) w2 = (res, w3) \<longrightarrow> rnow w3 < x \<longrightarrow>
         isl res \<or> res = Inr (Some (lr_Token result))))"
proof -
  let ?s = "account_server \<lparr>rr_client = C, rr_prefix = p\<rparr> games ttl clock rand"
  let ?ttl = "if ttl \<le> 0 then 2 * time_minute else ttl" and ?k = "loginTokenKey p (lt_Token (lr_Token result))"
  have s: "as_games ?s = games" "as_rand ?s = rand" "as_now ?s = clock" "as_ttl ?s = ?ttl"
    "as_store ?s = redis_SetLoginToken \<lparr>rr_client = C, rr_prefix = p\<rparr>"
    by (simp_all add: account_server_def account_NewService_def)
  from assms(6) obtain login wl buf wr now wc u where run: "games \<lparr>lreq_Uid = uid, lreq_ServerId = wrap32 server\<rparr> w = (Inr login, wl)"
      "rand wl = (Inr buf, wr)" "clock wr = (now, wc)"
    and result: "result = \<lparr>lr_Token = login_token login (hex_EncodeToString buf) (now + ?ttl), lr_IsNewUser = lres_IsNewUser login\<rparr>"
    and store: "redis_SetLoginToken \<lparr>rr_client = C, rr_prefix = p\<rparr> (lr_Token result) ?ttl wc = (Inr u, w1)"
    unfolding account_Login_def randomToken_def s
    by (auto elim!: io_bind_InrE simp: Let_def split: prod.splits)
  have before: "ks wc = ks w" "rnow w \<le> rnow wc"
    using quietD [OF assms(2)[rule_format] run(1)] quietD [OF assms(4) run(2)] quietD [OF assms(3) run(3)] by auto
  have range: "in_int64 (lt_UID (lr_Token result))" "in_int64 (lt_RoleID (lr_Token result))" "in_int64 (lt_ServerID (lr_Token result))"
    using assms(5) run(1) by (auto simp: result login_token_def)
  have "?ttl > 0" by (simp add: time_units)
  from redis.stored_token [OF assms(1) store this range] obtain e x where
    e: "ks w1 = (ks wc)(?k \<mapsto> (RString e, Some x))" "Unmarshal unmarshal_login_token (bytes_raw e) = Inr (lr_Token result)"
      "rnow wc + ?ttl - time_millisecond < x" by blast
  have "isl res \<or> res = Inr (Some (lr_Token result))" if "ks w2 ?k = ks w1 ?k"
    "redis_GetLoginToken \<lparr>rr_client = C, rr_prefix = p\<rparr> (lt_Token (lr_Token result)) w2 = (res, w3)" "rnow w3 < x" for w2 res w3
    using redis.get_entry [OF assms(1), of unmarshal_login_token ?k w2 res w3 e "Some x"] that e by (simp add: redis_GetLoginToken_def)
  moreover have "ks w1 (loginTokenKey p t) = ks w (loginTokenKey p t)" if "t \<noteq> lt_Token (lr_Token result)" for t
    using that e(1) before(1) by (simp add: loginTokenKey_def)
  moreover have "rnow w + ?ttl - time_millisecond < x" using e(3) before(2) by linarith
  moreover have "\<exists>login wl. games \<lparr>lreq_Uid = uid, lreq_ServerId = wrap32 server\<rparr> w = (Inr login, wl) \<and>
      lt_UID (lr_Token result) = lres_Uid login \<and> lt_RoleID (lr_Token result) = lres_RoleId login \<and>
      lt_ServerID (lr_Token result) = lres_ServerId login \<and> lr_IsNewUser result = lres_IsNewUser login"
    by (intro exI conjI, rule run(1)) (simp_all add: result login_token_def)
  ultimately show ?thesis by blast
qed

definition sample_logins :: "LoginRequest list" where
  "sample_logins = [\<lparr>lreq_Uid = 7, lreq_ServerId = 1\<rparr>, \<lparr>lreq_Uid = 0, lreq_ServerId = 1\<rparr>, \<lparr>lreq_Uid = 7, lreq_ServerId = 2\<rparr>]"

definition sample_login :: "bool \<Rightarrow> LoginResponse" where
  "sample_login new = \<lparr>lres_Token = [], lres_Uid = 7, lres_RoleId = 100001, lres_ServerId = 1, lres_IsNewUser = new, lres_ExpireAt = []\<rparr>"

theorem logins_identify_witness:
  "\<exists>rs repo. logins GetOrCreateUser sample_logins NewMemoryUserRepository = (rs, repo) \<and> rs ! 0 = Inr (sample_login True) \<and>
     rs ! 1 = Inl ErrInvalidLoginRequest \<and> rs ! 2 = Inr (sample_login False) \<and> lres_RoleId (sample_login True) = lres_RoleId (sample_login False)"
proof -
  obtain rs repo where run: "logins GetOrCreateUser sample_logins NewMemoryUserRepository = (rs, repo)" by fastforce
  have "fst (logins GetOrCreateUser sample_logins NewMemoryUserRepository) =
      [Inr (sample_login True), Inl ErrInvalidLoginRequest, Inr (sample_login False)]" by code_simp
  then have rs: "rs ! 0 = Inr (sample_login True)" "rs ! 1 = Inl ErrInvalidLoginRequest" "rs ! 2 = Inr (sample_login False)"
    using run by simp_all
  from logins_identify [OF run _ _ _ rs(1,3)] run rs show ?thesis by (simp add: sample_logins_def sample_login_def)
qed

definition sample_account :: "mem_world account_Service" where
  "sample_account = account_server \<lparr>rr_client = mem_redis, rr_prefix = ''p:''\<rparr> (\<lambda>req w. (Inr (sample_login True), w)) 0 mem_clock
     (\<lambda>w. (Inr ''0123456789abcdef'', w))"

theorem login_token_readable_witness:
  "\<exists>result w1. account_Login sample_account 7 1 gateway_world = (Inr result, w1) \<and> lt_RoleID (lr_Token result) = 100001 \<and>
     mw_keys w1 (loginTokenKey ''p:'' ''other'') = mw_keys gateway_world (loginTokenKey ''p:'' ''other'')"
proof -
  let ?run = "account_Login sample_account 7 1 gateway_world"
  have "case fst ?run of Inr r \<Rightarrow> lt_Token (lr_Token r) \<noteq> ''other'' | Inl _ \<Rightarrow> False" by code_simp
  then obtain result w1 where run: "?run = (Inr result, w1)" "lt_Token (lr_Token result) \<noteq> ''other''"
    by (cases ?run) (auto split: sum.splits)
  have q: "\<forall>req. quiet mw_keys mem_now (\<lambda>w. (Inr (sample_login True) :: error + LoginResponse, w))"
    "quiet mw_keys mem_now mem_clock" "quiet mw_keys mem_now (\<lambda>w. (Inr ''0123456789abcdef'' :: error + string, w))"
    by (auto simp: quiet_def mem_clock_def mem_now_def min_def)
  have r: "in_int64 (lres_Uid (sample_login True)) \<and> in_int64 (lres_RoleId (sample_login True)) \<and> in_int64 (lres_ServerId (sample_login True))"
    by (simp add: sample_login_def in_int64_def)
  from login_token_readable [OF mem_redis_laws q _ run(1) [unfolded sample_account_def]] r run show ?thesis
    by (simp add: sample_login_def)
qed

end
