(* ===== verification/Singleflight.thy ===== *)
theory Singleflight
  imports Prelude
begin

text \<open>
  The group that lets concurrent callers with one key share one run of a function
  (\<^verbatim>\<open>domain/globalmail/singleflight.go\<close>), which \<^verbatim>\<open>rebuildSharedCache\<close> uses for the loads of a version. Each caller is a
  goroutine that passes through the critical sections of \<^verbatim>\<open>Do\<close>; what the function returns, or that it panics, is chosen by the
  environment. The properties show that the runs for a key do not overlap, that every caller returns the value of one
  run for its key, and that all callers return unless a function panics.
\<close>

section \<open>The group\<close>

record 'v singleflightCall =
  sc_key :: string
  sc_val :: "'v option"
  sc_done :: bool

text \<open>
  Where a goroutine is in \<^verbatim>\<open>Do\<close>, with its key and the call that it has: before the first critical section, waiting for the call
  of another, in the function, after the function, after \<^verbatim>\<open>wg.Done\<close>, returned with the value and whether it was
  shared, or unwound by a panic of the function.
\<close>

datatype 'v flight_thread =
    Outside
  | Waiting string nat
  | Leading string nat
  | Filled string nat
  | Released string nat
  | Returned string nat 'v bool
  | Panicked string nat

record 'v singleflightGroup =
  sg_m :: "string \<rightharpoonup> nat"
  sg_calls :: "'v singleflightCall list"
  sg_threads :: "'v flight_thread list"

definition flight_new :: "nat \<Rightarrow> 'v singleflightGroup" where
  "flight_new n = \<lparr>sg_m = Map.empty, sg_calls = [], sg_threads = replicate n Outside\<rparr>"

datatype 'v flight_event =
    Enter string
  | FnReturns 'v
  | FnPanics
  | WgDone
  | DeleteKey
  | Wake

definition goto :: "nat \<Rightarrow> 'v flight_thread \<Rightarrow> 'v singleflightGroup \<Rightarrow> 'v singleflightGroup" where
  "goto t th s = s\<lparr>sg_threads := (sg_threads s)[t := th]\<rparr>"

text \<open>The first critical section: join the call of the key or start one.\<close>

definition Do_enter :: "string \<Rightarrow> nat \<Rightarrow> 'v singleflightGroup \<Rightarrow> 'v singleflightGroup" where
  "Do_enter key t s = (case sg_m s key of
       Some call \<Rightarrow> goto t (Waiting key call) s
     | None \<Rightarrow> goto t (Leading key (length (sg_calls s)))
         (s\<lparr>sg_m := (sg_m s)(key \<mapsto> length (sg_calls s)),
            sg_calls := sg_calls s @ [\<lparr>sc_key = key, sc_val = None, sc_done = False\<rparr>]\<rparr>))"

fun Do_event :: "'v flight_event \<Rightarrow> 'v flight_thread \<Rightarrow> nat \<Rightarrow> 'v singleflightGroup \<Rightarrow> 'v singleflightGroup option" where
  "Do_event (Enter key) Outside t s = Some (Do_enter key t s)"
| "Do_event (FnReturns v) (Leading key call) t s =
     Some (goto t (Filled key call) (s\<lparr>sg_calls := (sg_calls s)[call := (sg_calls s ! call)\<lparr>sc_val := Some v\<rparr>]\<rparr>))"
| "Do_event FnPanics (Leading key call) t s = Some (goto t (Panicked key call) s)"
| "Do_event WgDone (Filled key call) t s =
     Some (goto t (Released key call) (s\<lparr>sg_calls := (sg_calls s)[call := (sg_calls s ! call)\<lparr>sc_done := True\<rparr>]\<rparr>))"
| "Do_event DeleteKey (Released key call) t s = map_option
     (\<lambda>v. goto t (Returned key call v False) (s\<lparr>sg_m := (sg_m s)(key := None)\<rparr>)) (sc_val (sg_calls s ! call))"
| "Do_event Wake (Waiting key call) t s =
     (if sc_done (sg_calls s ! call) then map_option (\<lambda>v. goto t (Returned key call v True) s) (sc_val (sg_calls s ! call)) else None)"
| "Do_event _ _ t s = None"

definition flight_do :: "'v flight_event \<Rightarrow> nat \<Rightarrow> 'v singleflightGroup \<Rightarrow> 'v singleflightGroup option" where
  "flight_do e t s = (if t < length (sg_threads s) then Do_event e (sg_threads s ! t) t s else None)"

inductive flight_step :: "'v singleflightGroup \<Rightarrow> 'v singleflightGroup \<Rightarrow> bool" where
  flight_stepI: "flight_do e t s = Some s' \<Longrightarrow> flight_step s s'"

inductive flight_steps :: "nat \<Rightarrow> 'v singleflightGroup \<Rightarrow> 'v singleflightGroup \<Rightarrow> bool" where
  flight_none: "flight_steps 0 s s"
| flight_more: "flight_steps k s s' \<Longrightarrow> flight_step s' s'' \<Longrightarrow> flight_steps (Suc k) s s''"

inductive_cases flight_stepE: "flight_step s s'"

section \<open>The invariant\<close>

text \<open>The goroutine that runs, or has run, the function for a call.\<close>

fun owns :: "'v flight_thread \<Rightarrow> nat \<Rightarrow> bool" where
  "owns (Leading key call) c \<longleftrightarrow> c = call"
| "owns (Filled key call) c \<longleftrightarrow> c = call"
| "owns (Released key call) c \<longleftrightarrow> c = call"
| "owns (Returned key call v shared) c \<longleftrightarrow> c = call \<and> \<not> shared"
| "owns (Panicked key call) c \<longleftrightarrow> c = call"
| "owns _ c \<longleftrightarrow> False"

text \<open>What holds of a goroutine, from the table and its call.\<close>

fun thread_ok :: "(string \<rightharpoonup> nat) \<Rightarrow> 'v singleflightCall list \<Rightarrow> 'v flight_thread \<Rightarrow> bool" where
  "thread_ok m calls Outside \<longleftrightarrow> True"
| "thread_ok m calls (Waiting key c) \<longleftrightarrow> c < length calls \<and> sc_key (calls ! c) = key"
| "thread_ok m calls (Leading key c) \<longleftrightarrow> c < length calls \<and> sc_key (calls ! c) = key \<and> m key = Some c \<and> \<not> sc_done (calls ! c)"
| "thread_ok m calls (Filled key c) \<longleftrightarrow> c < length calls \<and> sc_key (calls ! c) = key \<and> m key = Some c \<and> \<not> sc_done (calls ! c) \<and>
     sc_val (calls ! c) \<noteq> None"
| "thread_ok m calls (Released key c) \<longleftrightarrow> c < length calls \<and> sc_key (calls ! c) = key \<and> m key = Some c \<and> sc_done (calls ! c) \<and>
     sc_val (calls ! c) \<noteq> None"
| "thread_ok m calls (Returned key c v shared) \<longleftrightarrow> c < length calls \<and> sc_key (calls ! c) = key \<and> sc_done (calls ! c) \<and>
     sc_val (calls ! c) = Some v"
| "thread_ok m calls (Panicked key c) \<longleftrightarrow> c < length calls \<and> sc_key (calls ! c) = key \<and> m key = Some c \<and> \<not> sc_done (calls ! c)"

definition flight_ok :: "'v singleflightGroup \<Rightarrow> bool" where
  "flight_ok s \<longleftrightarrow>
     (\<forall>t < length (sg_threads s). thread_ok (sg_m s) (sg_calls s) (sg_threads s ! t)) \<and>
     (\<forall>key c. sg_m s key = Some c \<longrightarrow> c < length (sg_calls s) \<and> sc_key (sg_calls s ! c) = key) \<and>
     (\<forall>c < length (sg_calls s). \<exists>!t. t < length (sg_threads s) \<and> owns (sg_threads s ! t) c) \<and>
     (\<forall>c < length (sg_calls s). sc_done (sg_calls s ! c) \<longrightarrow> sc_val (sg_calls s ! c) \<noteq> None)"

lemma flight_new_ok [simp]: "flight_ok (flight_new n)"
  by (simp add: flight_ok_def flight_new_def)

lemma owns_thread_ok: "owns th c \<Longrightarrow> thread_ok m calls th \<Longrightarrow> c < length calls"
  by (cases th) auto

lemma goto_simps [simp]:
  "sg_m (goto t th s) = sg_m s" "sg_calls (goto t th s) = sg_calls s" "sg_threads (goto t th s) = (sg_threads s)[t := th]"
  by (simp_all add: goto_def)

lemma flight_okD:
  assumes "flight_ok s"
  shows "t < length (sg_threads s) \<Longrightarrow> thread_ok (sg_m s) (sg_calls s) (sg_threads s ! t)"
    "sg_m s key = Some c \<Longrightarrow> c < length (sg_calls s)" "sg_m s key = Some c \<Longrightarrow> sc_key (sg_calls s ! c) = key"
    "c < length (sg_calls s) \<Longrightarrow> \<exists>t < length (sg_threads s). owns (sg_threads s ! t) c"
    "c < length (sg_calls s) \<Longrightarrow> t < length (sg_threads s) \<Longrightarrow> u < length (sg_threads s) \<Longrightarrow>
       owns (sg_threads s ! t) c \<Longrightarrow> owns (sg_threads s ! u) c \<Longrightarrow> t = u"
    "c < length (sg_calls s) \<Longrightarrow> sc_done (sg_calls s ! c) \<Longrightarrow> sc_val (sg_calls s ! c) \<noteq> None"
  using assms unfolding flight_ok_def by blast+

text \<open>A step of a goroutine that keeps what it owns.\<close>

lemma flight_ok_update:
  assumes ok: "flight_ok s" and t: "t < length (sg_threads s)" and own: "\<And>c. owns th c = owns (sg_threads s ! t) c"
    and calls: "length calls = length (sg_calls s)" "\<And>c. c < length calls \<Longrightarrow> sc_key (calls ! c) = sc_key (sg_calls s ! c)"
      "\<And>c. c < length calls \<Longrightarrow> sc_done (calls ! c) \<Longrightarrow> sc_val (calls ! c) \<noteq> None"
    and m: "\<And>key c. m key = Some c \<Longrightarrow> sg_m s key = Some c"
    and others: "\<And>u. u < length (sg_threads s) \<Longrightarrow> u \<noteq> t \<Longrightarrow> thread_ok m calls (sg_threads s ! u)" and mine: "thread_ok m calls th"
    and s': "sg_m s' = m" "sg_calls s' = calls" "sg_threads s' = (sg_threads s)[t := th]"
  shows "flight_ok s'"
proof -
  have same: "owns ((sg_threads s)[t := th] ! u) c = owns (sg_threads s ! u) c" for u c
    using own t by (cases "u = t") simp_all
  have "thread_ok m calls ((sg_threads s)[t := th] ! u)" if "u < length (sg_threads s)" for u
    using others mine that t by (cases "u = t") simp_all
  moreover have "c < length calls \<and> sc_key (calls ! c) = key" if "m key = Some c" for key c
    using flight_okD(2,3) [OF ok m [OF that]] calls(1,2) by simp
  moreover have "\<forall>c < length calls. \<exists>!u. u < length (sg_threads s) \<and> owns (sg_threads s ! u) c"
    using ok calls(1) by (simp add: flight_ok_def)
  ultimately show ?thesis unfolding flight_ok_def s' length_list_update same using calls(3) by blast
qed

text \<open>The calls of other goroutines when one field of a call is set.\<close>

lemma thread_ok_val:
  assumes "thread_ok m calls th" "\<not> sc_done (calls ! c)" "c < length calls"
  shows "thread_ok m (calls[c := (calls ! c)\<lparr>sc_val := Some v\<rparr>]) th"
  using assms by (cases th) (auto simp: nth_list_update)

lemma thread_ok_done:
  assumes "thread_ok m calls th" "\<not> owns th c" "c < length calls"
  shows "thread_ok m (calls[c := (calls ! c)\<lparr>sc_done := True\<rparr>]) th"
  using assms by (cases th) (auto simp: nth_list_update)

lemma thread_ok_delete:
  assumes "thread_ok m calls th" "\<not> owns th c" "m key = Some c"
  shows "thread_ok (m(key := None)) calls th"
  using assms by (cases th) auto

lemma thread_ok_new:
  assumes "thread_ok m calls th" "m key = None"
  shows "thread_ok (m(key \<mapsto> length calls)) (calls @ [call]) th"
  using assms by (cases th) (auto simp: nth_append)

lemma Do_enter_ok:
  assumes ok: "flight_ok s" and t: "t < length (sg_threads s)" and th: "sg_threads s ! t = Outside"
  shows "flight_ok (Do_enter key t s)"
proof (cases "sg_m s key")
  case (Some c)
  show ?thesis
    by (rule flight_ok_update [OF ok t, where th = "Waiting key c" and calls = "sg_calls s" and m = "sg_m s"])
      (use flight_okD(1,2,3,6) [OF ok] Some th in \<open>simp_all add: Do_enter_def\<close>)
next
  case None
  let ?n = "length (sg_calls s)" and ?ths = "(sg_threads s)[t := Leading key (length (sg_calls s))]"
  have enter: "sg_m (Do_enter key t s) = (sg_m s)(key \<mapsto> ?n)" "sg_threads (Do_enter key t s) = ?ths"
    "sg_calls (Do_enter key t s) = sg_calls s @ [\<lparr>sc_key = key, sc_val = None, sc_done = False\<rparr>]"
    using None by (simp_all add: Do_enter_def)
  have own: "u < length (sg_threads s) \<Longrightarrow> owns (?ths ! u) c \<longleftrightarrow> (if u = t then c = ?n else owns (sg_threads s ! u) c)" for u c
    by (cases "u = t") simp_all
  have old: "owns (sg_threads s ! u) c \<Longrightarrow> c < ?n" if "u < length (sg_threads s)" for u c
    using owns_thread_ok flight_okD(1) [OF ok that] by blast
  show ?thesis unfolding flight_ok_def enter length_append_singleton
  proof (intro conjI allI impI)
    fix u assume "u < length ?ths"
    then show "thread_ok ((sg_m s)(key \<mapsto> ?n)) (sg_calls s @ [\<lparr>sc_key = key, sc_val = None, sc_done = False\<rparr>]) (?ths ! u)"
      using thread_ok_new [OF flight_okD(1) [OF ok] None] by (cases "u = t") simp_all
  next
    fix k c assume "((sg_m s)(key \<mapsto> ?n)) k = Some c"
    then show "c < Suc ?n" "sc_key ((sg_calls s @ [\<lparr>sc_key = key, sc_val = None, sc_done = False\<rparr>]) ! c) = k"
      using flight_okD(2,3) [OF ok, of k c] by (auto simp: nth_append split: if_splits)
  next
    fix c assume c: "c < Suc ?n"
    show "\<exists>!u. u < length ?ths \<and> owns (?ths ! u) c"
    proof (cases "c = ?n")
      case True
      have "\<not> owns (sg_threads s ! u) ?n" if "u < length (sg_threads s)" for u using old [OF that, of ?n] by blast
      with True show ?thesis using own t by (intro ex1I [of _ t]) (auto split: if_splits)
    next
      case False
      then have less: "c < ?n" using c by simp
      from flight_okD(4) [OF ok less] obtain u where u: "u < length (sg_threads s)" "owns (sg_threads s ! u) c" by blast
      then have "u \<noteq> t" using th by auto
      with u own False flight_okD(5) [OF ok less] show ?thesis by (intro ex1I [of _ u]) (auto split: if_splits)
    qed
  next
    fix c assume "c < Suc ?n" "sc_done ((sg_calls s @ [\<lparr>sc_key = key, sc_val = None, sc_done = False\<rparr>]) ! c)"
    then show "sc_val ((sg_calls s @ [\<lparr>sc_key = key, sc_val = None, sc_done = False\<rparr>]) ! c) \<noteq> None"
      using flight_okD(6) [OF ok, of c] by (auto simp: nth_append split: if_splits)
  qed
qed

lemma FnReturns_ok:
  assumes ok: "flight_ok s" and t: "t < length (sg_threads s)" and th: "sg_threads s ! t = Leading key c"
    and s': "sg_m s' = sg_m s" "sg_calls s' = (sg_calls s)[c := (sg_calls s ! c)\<lparr>sc_val := Some v\<rparr>]"
      "sg_threads s' = (sg_threads s)[t := Filled key c]"
  shows "flight_ok s'"
proof -
  from flight_okD(1) [OF ok t] th have c: "c < length (sg_calls s)" "\<not> sc_done (sg_calls s ! c)"
    "sc_key (sg_calls s ! c) = key" "sg_m s key = Some c" by simp_all
  show ?thesis
    by (rule flight_ok_update [OF ok t _ _ _ _ _ _ _ s'])
      (use th c thread_ok_val [OF flight_okD(1) [OF ok] c(2,1)] flight_okD(6) [OF ok] in \<open>auto simp: nth_list_update split: if_splits\<close>)
qed

lemma WgDone_ok:
  assumes ok: "flight_ok s" and t: "t < length (sg_threads s)" and th: "sg_threads s ! t = Filled key c"
    and s': "sg_m s' = sg_m s" "sg_calls s' = (sg_calls s)[c := (sg_calls s ! c)\<lparr>sc_done := True\<rparr>]"
      "sg_threads s' = (sg_threads s)[t := Released key c]"
  shows "flight_ok s'"
proof -
  from flight_okD(1) [OF ok t] th have c: "c < length (sg_calls s)" "sc_val (sg_calls s ! c) \<noteq> None"
    "sc_key (sg_calls s ! c) = key" "sg_m s key = Some c" by simp_all
  have other: "\<not> owns (sg_threads s ! u) c" if "u < length (sg_threads s)" "u \<noteq> t" for u
    using flight_okD(5) [OF ok c(1) t that(1)] th that by auto
  show ?thesis
    by (rule flight_ok_update [OF ok t _ _ _ _ _ _ _ s'])
      (use th c thread_ok_done [OF flight_okD(1) [OF ok] other c(1)] flight_okD(6) [OF ok] in \<open>auto simp: nth_list_update split: if_splits\<close>)
qed

lemma DeleteKey_ok:
  assumes ok: "flight_ok s" and t: "t < length (sg_threads s)" and th: "sg_threads s ! t = Released key c"
    and s': "sg_m s' = (sg_m s)(key := None)" "sg_calls s' = sg_calls s" "sg_threads s' = (sg_threads s)[t := Returned key c v False]"
    and v: "sc_val (sg_calls s ! c) = Some v"
  shows "flight_ok s'"
proof -
  from flight_okD(1) [OF ok t] th have c: "c < length (sg_calls s)" "sc_done (sg_calls s ! c)"
    "sc_key (sg_calls s ! c) = key" "sg_m s key = Some c" by simp_all
  have other: "\<not> owns (sg_threads s ! u) c" if "u < length (sg_threads s)" "u \<noteq> t" for u
    using flight_okD(5) [OF ok c(1) t that(1)] th that by auto
  show ?thesis
    by (rule flight_ok_update [OF ok t _ _ _ _ _ _ _ s'])
      (use th c v thread_ok_delete [OF flight_okD(1) [OF ok] other c(4)] flight_okD(6) [OF ok] in \<open>auto split: if_splits\<close>)
qed

lemma flight_do_ok:
  assumes "flight_ok s" "flight_do e t s = Some s'"
  shows "flight_ok s'"
proof -
  from assms(2) have t: "t < length (sg_threads s)" and run: "Do_event e (sg_threads s ! t) t s = Some s'"
    by (auto simp: flight_do_def split: if_splits)
  note here = flight_okD(1) [OF assms(1) t]
  from run show ?thesis
  proof (cases "(e, sg_threads s ! t, t, s)" rule: Do_event.cases)
    case (1 key)
    then show ?thesis using run Do_enter_ok [OF assms(1) t] by auto
  next
    case (2 v key c)
    with run show ?thesis by (intro FnReturns_ok [OF assms(1) t]) auto
  next
    case (3 key c)
    with run have s': "sg_m s' = sg_m s" "sg_calls s' = sg_calls s" "sg_threads s' = (sg_threads s)[t := Panicked key c]" by auto
    show ?thesis by (rule flight_ok_update [OF assms(1) t _ _ _ _ _ _ _ s']) (use 3 here flight_okD(1,6) [OF assms(1)] in auto)
  next
    case (4 key c)
    with run show ?thesis by (intro WgDone_ok [OF assms(1) t]) auto
  next
    case (5 key c)
    with run obtain v where "sc_val (sg_calls s ! c) = Some v"
      "sg_m s' = (sg_m s)(key := None)" "sg_calls s' = sg_calls s" "sg_threads s' = (sg_threads s)[t := Returned key c v False]" by auto
    then show ?thesis using DeleteKey_ok [OF assms(1) t] 5 by auto
  next
    case (6 key c)
    with run obtain v where v: "sc_done (sg_calls s ! c)" "sc_val (sg_calls s ! c) = Some v"
      and s': "sg_m s' = sg_m s" "sg_calls s' = sg_calls s" "sg_threads s' = (sg_threads s)[t := Returned key c v True]"
      by (auto split: if_splits)
    show ?thesis by (rule flight_ok_update [OF assms(1) t _ _ _ _ _ _ _ s']) (use 6 here v flight_okD(1,6) [OF assms(1)] in auto)
  qed auto
qed

lemma flight_steps_ok: "flight_steps k s s' \<Longrightarrow> flight_ok s \<Longrightarrow> flight_ok s'"
  by (induction rule: flight_steps.induct) (auto elim!: flight_stepE intro: flight_do_ok)

lemma flight_do_length: "flight_do e t s = Some s' \<Longrightarrow> length (sg_threads s') = length (sg_threads s)"
  by (cases "(e, sg_threads s ! t, t, s)" rule: Do_event.cases)
    (auto simp: flight_do_def Do_enter_def split: if_splits option.splits)

lemma flight_steps_length: "flight_steps k s s' \<Longrightarrow> length (sg_threads s') = length (sg_threads s)"
  by (induction rule: flight_steps.induct) (auto elim!: flight_stepE dest!: flight_do_length)

section \<open>Progress\<close>

fun thread_rank :: "'v flight_thread \<Rightarrow> nat" where
  "thread_rank Outside = 4"
| "thread_rank (Waiting key c) = 1"
| "thread_rank (Leading key c) = 3"
| "thread_rank (Filled key c) = 2"
| "thread_rank (Released key c) = 1"
| "thread_rank (Returned key c v shared) = 0"
| "thread_rank (Panicked key c) = 0"

abbreviation flight_rank :: "'v singleflightGroup \<Rightarrow> nat" where
  "flight_rank s \<equiv> sum_list (map thread_rank (sg_threads s))"

lemma goto_rank:
  assumes "t < length ths" "thread_rank th < thread_rank (ths ! t)"
  shows "sum_list (map thread_rank (ths[t := th])) < sum_list (map thread_rank ths)"
  using assms by (induction ths arbitrary: t) (auto simp: nth_Cons split: nat.splits)

lemma flight_do_rank:
  assumes "flight_do e t s = Some s'"
  shows "flight_rank s' < flight_rank s"
proof -
  from assms have t: "t < length (sg_threads s)" and run: "Do_event e (sg_threads s ! t) t s = Some s'"
    by (auto simp: flight_do_def split: if_splits)
  from run have "\<exists>th. sg_threads s' = (sg_threads s)[t := th] \<and> thread_rank th < thread_rank (sg_threads s ! t)"
    by (cases "(e, sg_threads s ! t, t, s)" rule: Do_event.cases) (auto simp: Do_enter_def split: option.splits if_splits)
  then show ?thesis using goto_rank [OF t] by auto
qed

lemma flight_steps_rank: "flight_steps k s s' \<Longrightarrow> k + flight_rank s' \<le> flight_rank s"
  by (induction rule: flight_steps.induct) (auto elim!: flight_stepE dest!: flight_do_rank)

text \<open>The owner of a call that is not done can go on.\<close>

lemma waiting_progress:
  assumes ok: "flight_ok s" and t: "t < length (sg_threads s)" and th: "sg_threads s ! t = Waiting key c"
    and none: "\<forall>u < length (sg_threads s). \<forall>key c. sg_threads s ! u \<noteq> Panicked key c"
  shows "\<exists>s'. flight_step s s'"
proof -
  have c: "c < length (sg_calls s)" using flight_okD(1) [OF ok t] th by simp
  show ?thesis
  proof (cases "sc_done (sg_calls s ! c)")
    case True
    with flight_okD(6) [OF ok c] th t have "flight_do Wake t s \<noteq> None" by (auto simp: flight_do_def)
    then show ?thesis using flight_stepI by blast
  next
    case False
    from flight_okD(4) [OF ok c] obtain u where u: "u < length (sg_threads s)" "owns (sg_threads s ! u) c" by blast
    note here = flight_okD(1) [OF ok u(1)]
    have "flight_do (FnReturns undefined) u s \<noteq> None \<or> flight_do WgDone u s \<noteq> None"
      by (cases "sg_threads s ! u") (use u here False none in \<open>auto simp: flight_do_def\<close>)
    then show ?thesis using flight_stepI by blast
  qed
qed

lemma flight_progress:
  assumes ok: "flight_ok s" and none: "\<forall>u < length (sg_threads s). \<forall>key c. sg_threads s ! u \<noteq> Panicked key c"
    and t: "t < length (sg_threads s)" and th: "\<forall>key c v shared. sg_threads s ! t \<noteq> Returned key c v shared"
  shows "\<exists>s'. flight_step s s'"
proof (cases "sg_threads s ! t")
  case Outside
  then have "flight_do (Enter []) t s \<noteq> None" using t by (simp add: flight_do_def)
  then show ?thesis using flight_stepI by blast
next
  case (Leading key c)
  then have "flight_do (FnReturns undefined) t s \<noteq> None" using t by (simp add: flight_do_def)
  then show ?thesis using flight_stepI by blast
next
  case (Filled key c)
  then have "flight_do WgDone t s \<noteq> None" using t by (simp add: flight_do_def)
  then show ?thesis using flight_stepI by blast
next
  case (Released key c)
  then have "flight_do DeleteKey t s \<noteq> None" using t flight_okD(1) [OF ok t] by (auto simp: flight_do_def)
  then show ?thesis using flight_stepI by blast
qed (use waiting_progress [OF ok t _ none] none t th in auto)

text \<open>
  After a panic the key stays in the table and its call is never done. A goroutine that has not entered, or that waits for this call,
  does not return for the key.
\<close>

fun away :: "string \<Rightarrow> nat \<Rightarrow> 'v flight_thread \<Rightarrow> bool" where
  "away key c Outside \<longleftrightarrow> True"
| "away key c (Waiting k d) \<longleftrightarrow> (k = key \<longrightarrow> d = c)"
| "away key c (Leading k d) \<longleftrightarrow> k \<noteq> key"
| "away key c (Filled k d) \<longleftrightarrow> k \<noteq> key"
| "away key c (Released k d) \<longleftrightarrow> k \<noteq> key"
| "away key c (Returned k d v shared) \<longleftrightarrow> k \<noteq> key"
| "away key c (Panicked k d) \<longleftrightarrow> True"

lemma flight_do_panicked:
  assumes ok: "flight_ok s" and run: "flight_do e t s = Some s'"
    and u: "u < length (sg_threads s)" "sg_threads s ! u = Panicked key c"
  shows "length (sg_threads s') = length (sg_threads s)" "sg_threads s' ! u = Panicked key c"
    "away key c (sg_threads s ! r) \<Longrightarrow> away key c (sg_threads s' ! r)"
proof -
  from run have t: "t < length (sg_threads s)" and ev: "Do_event e (sg_threads s ! t) t s = Some s'"
    by (auto simp: flight_do_def split: if_splits)
  have here: "sg_m s key = Some c" "\<not> sc_done (sg_calls s ! c)" using flight_okD(1) [OF ok u(1)] u(2) by simp_all
  have th: "sg_threads s' = (sg_threads s)[t := sg_threads s' ! t] \<and> t \<noteq> u \<and>
      (away key c (sg_threads s ! t) \<longrightarrow> away key c (sg_threads s' ! t))"
    using ev u(2) here t
    by (cases "(e, sg_threads s ! t, t, s)" rule: Do_event.cases) (auto simp: Do_enter_def split: option.splits if_splits)
  then show "length (sg_threads s') = length (sg_threads s)" "sg_threads s' ! u = Panicked key c"
    using u by (metis length_list_update, metis nth_list_update_neq)
  from th show "away key c (sg_threads s ! r) \<Longrightarrow> away key c (sg_threads s' ! r)" by (metis nth_list_update_neq)
qed

lemma panic_blocks:
  assumes "flight_steps k s s'" "flight_ok s" "u < length (sg_threads s)" "sg_threads s ! u = Panicked key c"
    and "sg_threads s ! t = Outside \<or> sg_threads s ! t = Waiting key c"
  shows "sg_threads s' ! t \<noteq> Returned key d v shared"
proof -
  have "flight_ok s' \<and> u < length (sg_threads s') \<and> sg_threads s' ! u = Panicked key c \<and> away key c (sg_threads s' ! t)"
    using assms
  proof (induction rule: flight_steps.induct)
    case (flight_more k s s' s'')
    then obtain e r where step: "flight_do e r s' = Some s''" by (auto elim: flight_stepE)
    from flight_more have "flight_ok s'" "u < length (sg_threads s')" "sg_threads s' ! u = Panicked key c" "away key c (sg_threads s' ! t)" by blast+
    with flight_do_panicked [OF this(1) step this(2,3)] flight_do_ok [OF this(1) step] show ?case by simp
  qed auto
  then show ?thesis by auto
qed

section \<open>Properties\<close>

text \<open>
  C17. Callers with one key share one run: whenever goroutines have called \<^verbatim>\<open>Do\<close> in any interleaving, no two of them are in
  their functions for the same key; whoever has returned got the value of a run for its key, which is its own run if and only if
  the result is not marked as shared. There are at most four steps for each goroutine, and when no step is possible and no function
  has panicked, all of them have returned.
\<close>

theorem flight_shares_one_run:
  assumes "flight_steps k (flight_new n) s"
  shows "(\<forall>t u key c d. t < n \<longrightarrow> u < n \<longrightarrow> sg_threads s ! t = Leading key c \<longrightarrow> sg_threads s ! u = Leading key d \<longrightarrow> t = u) \<and>
    (\<forall>t key c v shared. t < n \<longrightarrow> sg_threads s ! t = Returned key c v shared \<longrightarrow>
       (\<exists>u < n. (u = t \<longleftrightarrow> \<not> shared) \<and> (sg_threads s ! u = Released key c \<or> sg_threads s ! u = Returned key c v False))) \<and>
    k \<le> 4 * n \<and>
    ((\<nexists>s'. flight_step s s') \<longrightarrow> (\<forall>t < n. \<forall>key c. sg_threads s ! t \<noteq> Panicked key c) \<longrightarrow>
       (\<forall>t < n. \<exists>key c v shared. sg_threads s ! t = Returned key c v shared))"
proof -
  have ok: "flight_ok s" by (rule flight_steps_ok [OF assms]) simp
  have n: "length (sg_threads s) = n" using flight_steps_length [OF assms] by (simp add: flight_new_def)
  have lead: "t = u" if "t < n" "u < n" "sg_threads s ! t = Leading key c" "sg_threads s ! u = Leading key d" for t u key c d
  proof -
    from flight_okD(1) [OF ok, of t] flight_okD(1) [OF ok, of u] that n have "c < length (sg_calls s)" "d = c" by auto
    with flight_okD(5) [OF ok, of c t u] that n show ?thesis by simp
  qed
  have ret: "\<exists>u < n. (u = t \<longleftrightarrow> \<not> shared) \<and> (sg_threads s ! u = Released key c \<or> sg_threads s ! u = Returned key c v False)"
    if t: "t < n" "sg_threads s ! t = Returned key c v shared" for t key c v shared
  proof -
    from flight_okD(1) [OF ok, of t] t n have c: "c < length (sg_calls s)" "sc_key (sg_calls s ! c) = key"
      "sc_done (sg_calls s ! c)" "sc_val (sg_calls s ! c) = Some v" by auto
    from flight_okD(4) [OF ok c(1)] n obtain u where u: "u < n" "owns (sg_threads s ! u) c" by blast
    have "sg_threads s ! u = Released key c \<or> sg_threads s ! u = Returned key c v False"
      using u flight_okD(1) [OF ok, of u] n c by (cases "sg_threads s ! u") auto
    moreover have "u = t \<longleftrightarrow> \<not> shared" using flight_okD(5) [OF ok c(1), of t u] t u n by (cases shared) auto
    ultimately show ?thesis using u(1) by blast
  qed
  have "flight_rank (flight_new n :: 'a singleflightGroup) = 4 * n" by (simp add: flight_new_def sum_list_replicate)
  then have "k \<le> 4 * n" using flight_steps_rank [OF assms] by simp
  moreover have "\<exists>key c v shared. sg_threads s ! t = Returned key c v shared"
    if "\<nexists>s'. flight_step s s'" "\<forall>t < n. \<forall>key c. sg_threads s ! t \<noteq> Panicked key c" "t < n" for t
    using flight_progress [OF ok, unfolded n, OF that(2,3)] that(1) by blast
  ultimately show ?thesis by (intro conjI allI impI lead ret)
qed

text \<open>Three goroutines: one runs the function, the second shares its result, the third comes after the key was deleted.\<close>

fun flight_run :: "('v flight_event \<times> nat) list \<Rightarrow> 'v singleflightGroup \<Rightarrow> 'v singleflightGroup option" where
  "flight_run [] s = Some s"
| "flight_run ((e, t) # es) s = (case flight_do e t s of None \<Rightarrow> None | Some s' \<Rightarrow> flight_run es s')"

lemma flight_steps_trans: "flight_steps k s s' \<Longrightarrow> flight_do e t s' = Some s'' \<Longrightarrow> flight_steps (Suc k) s s''"
  by (rule flight_more) (auto intro: flight_stepI)

lemma flight_run_steps:
  assumes "flight_run es s' = Some s''" "flight_steps k s s'"
  shows "flight_steps (k + length es) s s''"
  using assms
proof (induction es s' arbitrary: k rule: flight_run.induct)
  case (2 e t es s')
  then obtain s1 where s1: "flight_do e t s' = Some s1" "flight_run es s1 = Some s''" by (auto split: option.splits)
  from "2.IH" [OF s1 flight_steps_trans [OF "2.prems"(2) s1(1)]] show ?case by simp
qed simp

definition sample_flight :: "(int flight_event \<times> nat) list" where
  "sample_flight = [(Enter ''7'', 0), (Enter ''7'', 1), (FnReturns 5, 0), (WgDone, 0), (Wake, 1), (DeleteKey, 0), (Enter ''7'', 2),
     (FnReturns 6, 2), (WgDone, 2), (DeleteKey, 2)]"

theorem flight_shares_one_run_witness:
  "\<exists>s. flight_steps 10 (flight_new 3) s \<and> sg_threads s = [Returned ''7'' 0 5 False, Returned ''7'' 0 (5 :: int) True, Returned ''7'' 1 6 False] \<and>
     (\<exists>u < 3. u \<noteq> 1 \<and> (sg_threads s ! u = Released ''7'' 0 \<or> sg_threads s ! u = Returned ''7'' 0 5 False))"
proof -
  have "map_option sg_threads (flight_run sample_flight (flight_new 3)) =
      Some [Returned ''7'' 0 5 False, Returned ''7'' 0 5 True, Returned ''7'' 1 6 False]" by code_simp
  then obtain s where run: "flight_run sample_flight (flight_new 3) = Some s"
    and th: "sg_threads s = [Returned ''7'' 0 5 False, Returned ''7'' 0 5 True, Returned ''7'' 1 6 False]" by auto
  have steps: "flight_steps 10 (flight_new 3) s"
    using flight_run_steps [OF run flight_none] by (simp add: sample_flight_def eval_nat_numeral)
  have "(1::nat) < 3" "sg_threads s ! 1 = Returned ''7'' 0 5 True" by (simp_all add: th)
  with flight_shares_one_run [OF steps] have "\<exists>u < 3. u \<noteq> 1 \<and> (sg_threads s ! u = Released ''7'' 0 \<or> sg_threads s ! u = Returned ''7'' 0 5 False)"
    by blast
  with steps th show ?thesis by blast
qed

end
