(* ===== verification/Configuration.thy ===== *)
theory Configuration
  imports Prelude
begin

text \<open>
  The configuration of the services (\<^verbatim>\<open>config/config.go\<close>, \<^verbatim>\<open>app/bootstrap/config.go\<close>): its sections, the defaults, the
  durations with \<^verbatim>\<open>time.ParseDuration\<close> of the Go library, the validation. The YAML decoder and the file system are parameters.
\<close>

section \<open>Durations\<close>

text \<open>
  \<^verbatim>\<open>time.ParseDuration\<close> on natural numbers with the bounds of \<^verbatim>\<open>uint64\<close> written out. The digits of a number overflow beyond
  \<open>2 ^ 63\<close>; those of a fraction are dropped beyond the bound.
\<close>

definition digit_value :: "char \<Rightarrow> nat" where
  "digit_value c = of_char c - 48"

fun leadingInt :: "nat \<Rightarrow> string \<Rightarrow> (nat \<times> string) option" where
  "leadingInt x [] = Some (x, [])"
| "leadingInt x (c # cs) =
     (if \<not> is_digit c then Some (x, c # cs)
      else if x > 2 ^ 63 div 10 then None
      else (let y = 10 * x + digit_value c in if y > 2 ^ 63 then None else leadingInt y cs))"

fun leadingFraction :: "nat \<Rightarrow> nat \<Rightarrow> bool \<Rightarrow> string \<Rightarrow> nat \<times> nat \<times> string" where
  "leadingFraction x scale over [] = (x, scale, [])"
| "leadingFraction x scale over (c # cs) =
     (if \<not> is_digit c then (x, scale, c # cs)
      else if over \<or> x > (2 ^ 63 - 1) div 10 then leadingFraction x scale True cs
      else (let y = 10 * x + digit_value c
            in if y > 2 ^ 63 then leadingFraction x scale True cs else leadingFraction y (10 * scale) False cs))"

text \<open>The units; the two spellings of the micro sign in UTF-8.\<close>

definition unitMap :: "string \<rightharpoonup> nat" where
  "unitMap u = (if u = ''ns'' then Some 1
     else if u = ''us'' \<or> u = [char_of (194 :: nat), char_of (181 :: nat), CHR ''s''] \<or>
       u = [char_of (206 :: nat), char_of (188 :: nat), CHR ''s''] then Some 1000
     else if u = ''ms'' then Some 1000000
     else if u = ''s'' then Some 1000000000
     else if u = ''m'' then Some 60000000000
     else if u = ''h'' then Some 3600000000000
     else None)"

definition in_number :: "char \<Rightarrow> bool" where
  "in_number c \<longleftrightarrow> c = CHR ''.'' \<or> is_digit c"

text \<open>
  One number with its unit: its value in nanoseconds and the rest of the text. \<open>frac f unit scale\<close> is the product of the
  fraction \<open>f / scale\<close> with the unit, which Go computes in \<^verbatim>\<open>float64\<close> and rounds towards zero.
\<close>

definition duration_part :: "(nat \<Rightarrow> nat \<Rightarrow> nat \<Rightarrow> nat) \<Rightarrow> string \<Rightarrow> (nat \<times> string) option" where
  "duration_part frac s =
     (if s = [] \<or> \<not> in_number (hd s) then None
      else case leadingInt 0 s of None \<Rightarrow> None | Some (v, s1) \<Rightarrow>
        (let pre = (length s1 \<noteq> length s);
             (f, scale, s2) = (if s1 \<noteq> [] \<and> hd s1 = CHR ''.'' then leadingFraction 0 1 False (tl s1) else (0, 1, s1));
             post = (s1 \<noteq> [] \<and> hd s1 = CHR ''.'' \<and> length s2 \<noteq> length (tl s1))
         in if \<not> pre \<and> \<not> post then None
            else (let u = takeWhile (\<lambda>c. \<not> in_number c) s2; s3 = dropWhile (\<lambda>c. \<not> in_number c) s2
                  in if u = [] then None
                     else case unitMap u of None \<Rightarrow> None | Some unit \<Rightarrow>
                       if v > 2 ^ 63 div unit then None
                       else (let v = v * unit + (if f > 0 then frac f unit scale else 0)
                             in if f > 0 \<and> v > 2 ^ 63 then None else Some (v, s3)))))"

lemma leadingInt_length: "leadingInt x s = Some (v, r) \<Longrightarrow> length r \<le> length s"
  by (induction x s rule: leadingInt.induct) (fastforce simp: Let_def split: if_splits)+

lemma leadingFraction_length: "leadingFraction x scale over s = (f, g, r) \<Longrightarrow> length r \<le> length s"
  by (induction x scale over s rule: leadingFraction.induct) (fastforce simp: Let_def split: if_splits)+

lemma dropWhile_shorter: "takeWhile P xs \<noteq> [] \<Longrightarrow> length (dropWhile P xs) < length xs"
  by (cases xs) (auto simp: length_dropWhile_le less_Suc_eq_le split: if_splits)

lemma duration_part_shorter:
  assumes "duration_part frac s = Some (v, r)"
  shows "length r < length s"
proof -
  from assms obtain v1 s1 f scale s2 where int: "leadingInt 0 s = Some (v1, s1)"
    and frac: "(f, scale, s2) = (if s1 \<noteq> [] \<and> hd s1 = CHR ''.'' then leadingFraction 0 1 False (tl s1) else (0, 1, s1))"
    and unit: "takeWhile (\<lambda>c. \<not> in_number c) s2 \<noteq> []" "r = dropWhile (\<lambda>c. \<not> in_number c) s2"
    by (auto simp: duration_part_def Let_def split: if_splits option.splits prod.splits)
  have "length s2 \<le> length s1"
    using frac leadingFraction_length [of 0 1 False "tl s1" f scale s2] by (cases s1) (auto split: if_splits)
  with leadingInt_length [OF int] dropWhile_shorter [OF unit(1)] unit(2) show ?thesis by simp
qed

function duration_parts :: "(nat \<Rightarrow> nat \<Rightarrow> nat \<Rightarrow> nat) \<Rightarrow> nat \<Rightarrow> string \<Rightarrow> nat option" where
  "duration_parts frac d s =
     (if s = [] then Some d
      else case duration_part frac s of
        None \<Rightarrow> None
      | Some (v, r) \<Rightarrow> (let sum = (d + v) mod 2 ^ 64 in if sum > 2 ^ 63 then None else duration_parts frac sum r))"
  by pat_completeness auto

termination by (relation "measure (\<lambda>(frac, d, s). length s)") (auto dest: duration_part_shorter)

declare duration_parts.simps [simp del]

definition ParseDuration :: "(nat \<Rightarrow> nat \<Rightarrow> nat \<Rightarrow> nat) \<Rightarrow> string \<Rightarrow> duration option" where
  "ParseDuration frac s =
     (let neg = (s \<noteq> [] \<and> hd s = CHR ''-'');
          s = (if s \<noteq> [] \<and> (hd s = CHR ''-'' \<or> hd s = CHR ''+'') then tl s else s)
      in if s = ''0'' then Some 0
         else if s = [] then None
         else case duration_parts frac 0 s of
           None \<Rightarrow> None
         | Some d \<Rightarrow> if neg then Some (- int d) else if d > 2 ^ 63 - 1 then None else Some (int d))"

text \<open>A YAML node as far as the method looks at it: a scalar with its text, or anything else.\<close>

datatype yaml_node = ScalarNode string | OtherNode

definition UnmarshalYAML :: "(nat \<Rightarrow> nat \<Rightarrow> nat \<Rightarrow> nat) \<Rightarrow> (yaml_node \<Rightarrow> error + int) \<Rightarrow> yaml_node \<Rightarrow> error + duration" where
  "UnmarshalYAML frac decode_int64 value =
     (case (case value of ScalarNode text \<Rightarrow> ParseDuration frac text | OtherNode \<Rightarrow> None) of
        Some d \<Rightarrow> Inr d
      | None \<Rightarrow> (case decode_int64 value of Inl e \<Rightarrow> Inl e | Inr seconds \<Rightarrow> Inr (wrap64 (seconds * time_second))))"

section \<open>The sections\<close>

record ServiceConfig =
  svc_Name :: string
  svc_InstanceID :: string
  svc_Env :: string
  svc_ListenAddr :: string
  svc_PublicAddr :: string

record MySQLConfig =
  my_DSN :: string
  my_MaxOpenConns :: int
  my_MaxIdleConns :: int
  my_ConnMaxLifetime :: duration
  my_AutoMigrate :: bool

record RedisConfig =
  rc_Addrs :: "string list"
  rc_Username :: string
  rc_Password :: string
  rc_DB :: int
  rc_KeyPrefix :: string
  rc_DialTimeout :: duration
  rc_ReadTimeout :: duration
  rc_WriteTimeout :: duration

record KafkaConfig =
  kc_Brokers :: "string list"
  kc_TopicPrefix :: string
  kc_ConsumerGroup :: string

record EtcdConfig =
  ec_Endpoints :: "string list"
  ec_Username :: string
  ec_Password :: string
  ec_DialTimeout :: duration
  ec_LeaseTTL :: duration
  ec_KeepAliveInterval :: duration
  ec_ServiceKeyPrefix :: string

record GatewayConfig =
  gw_RouteTTL :: duration
  gw_VirtualNodes :: int
  gw_SessionTTL :: duration
  gw_GatewayConnRenewInterval :: duration

record AccountConfig =
  ac_LoginTokenTTL :: duration
  ac_PlayerServiceAddr :: string

record PlayerConfig =
  pl_RequestQueueWorkers :: int
  pl_RequestQueueCapacity :: int
  pl_RequestRoleQueueCapacity :: int
  pl_RequestTimeout :: duration
  pl_CommandIdempotencyTTL :: duration
  pl_GlobalMailPollInterval :: duration
  pl_GlobalMailRebuildLockTTL :: duration
  pl_GlobalMailRebuildWait :: duration

record MailRelayConfig =
  rl_FlushInterval :: duration
  rl_FetchLimit :: int
  rl_LockTTL :: duration
  rl_MaxRetries :: int

record Config =
  cfg_Service :: ServiceConfig
  cfg_MySQL :: MySQLConfig
  cfg_Redis :: RedisConfig
  cfg_Kafka :: KafkaConfig
  cfg_Etcd :: EtcdConfig
  cfg_Gateway :: GatewayConfig
  cfg_Account :: AccountConfig
  cfg_Player :: PlayerConfig
  cfg_MailRelay :: MailRelayConfig

definition config_Default :: Config where
  "config_Default = \<lparr>
     cfg_Service = \<lparr>svc_Name = ''globalmail'', svc_InstanceID = ''local'', svc_Env = ''dev'', svc_ListenAddr = '':8080'',
       svc_PublicAddr = ''127.0.0.1:8080''\<rparr>,
     cfg_MySQL = \<lparr>my_DSN = [], my_MaxOpenConns = 50, my_MaxIdleConns = 10, my_ConnMaxLifetime = time_hour, my_AutoMigrate = False\<rparr>,
     cfg_Redis = \<lparr>rc_Addrs = [''127.0.0.1:6379''], rc_Username = [], rc_Password = [], rc_DB = 0, rc_KeyPrefix = ''rh:'',
       rc_DialTimeout = 3 * time_second, rc_ReadTimeout = 2 * time_second, rc_WriteTimeout = 2 * time_second\<rparr>,
     cfg_Kafka = \<lparr>kc_Brokers = [''127.0.0.1:9092''], kc_TopicPrefix = ''rh'', kc_ConsumerGroup = []\<rparr>,
     cfg_Etcd = \<lparr>ec_Endpoints = [''127.0.0.1:2379''], ec_Username = [], ec_Password = [], ec_DialTimeout = 3 * time_second,
       ec_LeaseTTL = 10 * time_second, ec_KeepAliveInterval = 3 * time_second, ec_ServiceKeyPrefix = ''/rh/services''\<rparr>,
     cfg_Gateway = \<lparr>gw_RouteTTL = 5 * time_minute, gw_VirtualNodes = 100, gw_SessionTTL = 90 * time_second,
       gw_GatewayConnRenewInterval = 30 * time_second\<rparr>,
     cfg_Account = \<lparr>ac_LoginTokenTTL = 2 * time_minute, ac_PlayerServiceAddr = ''127.0.0.1:9001''\<rparr>,
     cfg_Player = \<lparr>pl_RequestQueueWorkers = 4, pl_RequestQueueCapacity = 1024, pl_RequestRoleQueueCapacity = 32,
       pl_RequestTimeout = 3 * time_second, pl_CommandIdempotencyTTL = 10 * time_minute,
       pl_GlobalMailPollInterval = 30 * time_second, pl_GlobalMailRebuildLockTTL = 30 * time_second,
       pl_GlobalMailRebuildWait = 100 * time_millisecond\<rparr>,
     cfg_MailRelay = \<lparr>rl_FlushInterval = time_second, rl_FetchLimit = 100, rl_LockTTL = 5 * time_minute, rl_MaxRetries = 5\<rparr>\<rparr>"

text \<open>The checks in their order: a condition that must not hold and the text of the error.\<close>

definition config_checks :: "Config \<Rightarrow> (bool \<times> string) list" where
  "config_checks c =
     [(svc_Name (cfg_Service c) = [], ''service name is required''),
      (svc_InstanceID (cfg_Service c) = [], ''service instance id is required''),
      (my_MaxOpenConns (cfg_MySQL c) < 0 \<or> my_MaxIdleConns (cfg_MySQL c) < 0, ''mysql connection limits must be non-negative''),
      (rc_Addrs (cfg_Redis c) = [], ''redis addrs are required''),
      (kc_Brokers (cfg_Kafka c) = [], ''kafka brokers are required''),
      (ec_Endpoints (cfg_Etcd c) = [], ''etcd endpoints are required''),
      (ec_LeaseTTL (cfg_Etcd c) \<le> 0, ''etcd lease ttl must be positive''),
      (ec_KeepAliveInterval (cfg_Etcd c) \<le> 0, ''etcd keepalive interval must be positive''),
      (gw_RouteTTL (cfg_Gateway c) \<le> 0, ''gateway route ttl must be positive''),
      (gw_VirtualNodes (cfg_Gateway c) \<le> 0, ''gateway virtual nodes must be positive''),
      (gw_SessionTTL (cfg_Gateway c) \<le> 0, ''gateway session ttl must be positive''),
      (gw_GatewayConnRenewInterval (cfg_Gateway c) \<le> 0, ''gateway conn renew interval must be positive''),
      (ac_LoginTokenTTL (cfg_Account c) \<le> 0, ''account login token ttl must be positive''),
      (ac_PlayerServiceAddr (cfg_Account c) = [], ''account player service addr is required''),
      (pl_RequestQueueWorkers (cfg_Player c) \<le> 0, ''player request queue workers must be positive''),
      (pl_RequestQueueCapacity (cfg_Player c) \<le> 0, ''player request queue capacity must be positive''),
      (pl_RequestRoleQueueCapacity (cfg_Player c) \<le> 0, ''player request role queue capacity must be positive''),
      (pl_RequestTimeout (cfg_Player c) \<le> 0, ''player request timeout must be positive''),
      (pl_CommandIdempotencyTTL (cfg_Player c) \<le> 0, ''player command idempotency ttl must be positive''),
      (pl_GlobalMailPollInterval (cfg_Player c) \<le> 0, ''player global mail poll interval must be positive''),
      (pl_GlobalMailRebuildLockTTL (cfg_Player c) \<le> 0, ''player global mail rebuild lock ttl must be positive''),
      (pl_GlobalMailRebuildWait (cfg_Player c) \<le> 0, ''player global mail rebuild wait interval must be positive''),
      (rl_FlushInterval (cfg_MailRelay c) \<le> 0, ''mail relay flush interval must be positive''),
      (rl_FetchLimit (cfg_MailRelay c) \<le> 0, ''mail relay fetch limit must be positive''),
      (rl_LockTTL (cfg_MailRelay c) \<le> 0, ''mail relay lock ttl must be positive''),
      (rl_MaxRetries (cfg_MailRelay c) \<le> 0, ''mail relay max retries must be positive'')]"

fun first_failure :: "(bool \<times> string) list \<Rightarrow> error option" where
  "first_failure [] = None"
| "first_failure ((failed, text) # checks) = (if failed then Some (ErrorNew text) else first_failure checks)"

definition config_Validate :: "Config \<Rightarrow> error option" where
  "config_Validate c = first_failure (config_checks c)"

text \<open>
  \<open>yaml payload c\<close> decodes the payload over the values of \<open>c\<close>; the decoder calls \<^verbatim>\<open>UnmarshalYAML\<close> for the durations.
\<close>

definition LoadBytes :: "(string \<Rightarrow> Config \<Rightarrow> error + Config) \<Rightarrow> string \<Rightarrow> error + Config" where
  "LoadBytes yaml payload = (case yaml payload config_Default of
       Inl e \<Rightarrow> Inl e
     | Inr cfg \<Rightarrow> (case config_Validate cfg of Some e \<Rightarrow> Inl e | None \<Rightarrow> Inr cfg))"

definition LoadFile :: "(string \<Rightarrow> error + string) \<Rightarrow> (string \<Rightarrow> Config \<Rightarrow> error + Config) \<Rightarrow> string \<Rightarrow> error + Config" where
  "LoadFile read_file yaml path = (case read_file path of Inl e \<Rightarrow> Inl e | Inr payload \<Rightarrow> LoadBytes yaml payload)"

definition config_path :: "string \<Rightarrow> string" where
  "config_path defaultPath = (if defaultPath = [] then ''config/examples/globalmail.yaml'' else defaultPath)"

definition LoadConfig :: "(string \<Rightarrow> error + string) \<Rightarrow> (string \<Rightarrow> Config \<Rightarrow> error + Config) \<Rightarrow> string \<Rightarrow> error + Config" where
  "LoadConfig read_file yaml path = LoadFile read_file yaml path"

section \<open>Durations that are written with a unit\<close>

lemma leadingInt_digits:
  assumes "list_all is_digit ds" "foldl (\<lambda>n c. 10 * n + (of_char c - 48)) x ds \<le> 2 ^ 63" "r = [] \<or> \<not> is_digit (hd r)"
  shows "leadingInt x (ds @ r) = Some (foldl (\<lambda>n c. 10 * n + (of_char c - 48)) x ds, r)"
  using assms
proof (induction ds arbitrary: x)
  case Nil
  then show ?case by (cases r) auto
next
  case (Cons d ds)
  have grow: "y \<le> foldl (\<lambda>n c. 10 * n + (of_char c - 48)) y ds" for y :: nat and ds :: string
  proof (induction ds arbitrary: y)
    case (Cons e es)
    show ?case using Cons.IH [of "10 * y + (of_char e - 48)"] by simp
  qed simp
  from Cons.prems(2) have "10 * x + (of_char d - 48) \<le> 2 ^ 63"
    using grow [of "10 * x + (of_char d - 48)" ds] by simp
  with Cons show ?case by (simp add: digit_value_def)
qed

text \<open>
  A whole number with a unit is that many units, unless it exceeds the range of a duration.
\<close>

lemma ParseDuration_unit:
  assumes "unitMap u = Some unit" "list_all (\<lambda>c. \<not> in_number c) u" "n * unit < 2 ^ 63" "unit > 0"
  shows "ParseDuration frac (show_nat n @ u) = Some (int (n * unit))"
proof -
  have u: "u \<noteq> []" using assms(1) by (auto simp: unitMap_def)
  obtain d ds where sn: "show_nat n = d # ds" using show_nat_nonempty [of n] by (meson neq_Nil_conv)
  have digits: "list_all is_digit (show_nat n)" by (rule show_nat_digits)
  have val: "foldl (\<lambda>n c. 10 * n + (of_char c - 48)) 0 (show_nat n) = n" using digits_value_show_nat [of n] by (simp add: digits_value_def)
  have n: "n \<le> 2 ^ 63 div unit" using assms(3,4) by (simp add: less_eq_div_iff_mult_less_eq)
  then have "n \<le> 2 ^ 63" by (meson div_le_dividend le_trans)
  moreover have "\<not> is_digit (hd u)" "hd u \<noteq> CHR ''.''" using u assms(2) by (cases u; simp add: in_number_def)+
  ultimately have int: "leadingInt 0 (show_nat n @ u) = Some (n, u)" using leadingInt_digits [OF digits, of 0 u] val by simp
  have tw: "takeWhile (\<lambda>c. \<not> in_number c) u = u" "dropWhile (\<lambda>c. \<not> in_number c) u = []"
    using assms(2) by (simp_all add: list_all_iff)
  have hd: "is_digit d" using digits sn by simp
  have head: "in_number (hd (show_nat n @ u))" "show_nat n \<noteq> []" using hd sn by (simp_all add: in_number_def)
  have "duration_part frac (show_nat n @ u) = Some (n * unit, [])"
    using int u n head assms(1) \<open>hd u \<noteq> CHR ''.''\<close> by (simp add: duration_part_def Let_def tw)
  then have "duration_parts frac 0 (show_nat n @ u) = Some (n * unit)"
    using assms(3) sn by (simp add: duration_parts.simps)
  moreover have "d \<noteq> CHR ''-''" "d \<noteq> CHR ''+''" using hd by (auto simp: is_digit_def)
  moreover have "u \<noteq> []" by (rule u)
  ultimately show ?thesis using assms(3) by (simp add: ParseDuration_def sn Let_def)
qed

end
