(* ===== verification/Service_Registry.thy ===== *)
theory Service_Registry
  imports Route_Service "HOL-Library.Sublist"
begin

text \<open>
  What the service registry promises: what the operations of \<^verbatim>\<open>infra/etcd\<close> leave in etcd, under which keys, and what a gateway
  finds there. The contract of the etcd client is a locale; the property shows that a player server that has registered is
  listed, and that one that drains is not.
\<close>

section \<open>Keys\<close>

text \<open>A name that is one component of a path.\<close>

definition plain_name :: "string \<Rightarrow> bool" where
  "plain_name s \<longleftrightarrow> s \<noteq> [] \<and> s \<noteq> ''.'' \<and> s \<noteq> ''..'' \<and> CHR ''/'' \<notin> set s"

lemma split_path_nonempty [simp]: "split_path s \<noteq> []"
  by (induction s) (auto split: list.splits)

lemma split_path_name: "CHR ''/'' \<notin> set s \<Longrightarrow> split_path s = [s]"
  by (induction s) auto

lemma split_path_append: "split_path (s @ CHR ''/'' # t) = split_path s @ split_path t"
  by (induction s) (auto split: list.splits)

lemma clean_components_append:
  "list_all plain_name ys \<Longrightarrow> clean_components rooted acc (xs @ ys) = clean_components rooted acc xs @ ys"
proof (induction rooted acc xs rule: clean_components.induct)
  case (1 rooted acc)
  have "clean_components rooted a ys = rev a @ ys" if "list_all plain_name ys" for a
    using that by (induction ys arbitrary: a) (auto simp: plain_name_def)
  with 1 show ?case by simp
next
  case (2 rooted acc x xs)
  then show ?case by (auto split: list.splits)
qed

lemma join_path_append: "xs \<noteq> [] \<Longrightarrow> join_path (xs @ [y]) = join_path xs @ CHR ''/'' # y"
proof (induction xs)
  case (Cons x xs)
  then show ?case by (cases xs) auto
qed simp

text \<open>The key of an instance is the prefix of its service followed by the name of the instance.\<close>

lemma path_Join_child:
  assumes "plain_name service" "plain_name inst"
  shows "path_Join [p, service, inst] = path_Join [p, service] @ CHR ''/'' # inst"
proof -
  have names: "split_path service = [service]" "split_path inst = [inst]" "list_all plain_name [service, inst]"
    using assms by (auto simp: plain_name_def split_path_name)
  have ne: "service \<noteq> []" "inst \<noteq> []" using assms by (auto simp: plain_name_def)
  have clean: "path_Clean (s @ CHR ''/'' # inst) = path_Clean s @ CHR ''/'' # inst"
    if s: "split_path s = xs @ [service]" "s \<noteq> []" for s xs
  proof -
    let ?rooted = "hd s = CHR ''/''"
    have "hd (s @ CHR ''/'' # inst) = hd s" using s(2) by simp
    moreover have "clean_components r [] (xs @ [service]) = clean_components r [] xs @ [service]"
      "clean_components r [] (xs @ [service, inst]) = clean_components r [] xs @ [service, inst]" for r
      using clean_components_append [of "[service]"] clean_components_append [OF names(3)] names(3) by simp_all
    moreover have "split_path (s @ CHR ''/'' # inst) = xs @ [service, inst]" using s(1) names(2) by (simp add: split_path_append)
    moreover have "join_path (ys @ [service, inst]) = join_path (ys @ [service]) @ CHR ''/'' # inst" for ys
      using join_path_append [of "ys @ [service]" inst] by simp
    moreover have "join_path (ys @ [service]) \<noteq> []" for ys using join_path_append [of ys service] ne by (cases "ys = []") simp_all
    ultimately show ?thesis using s by (simp add: path_Clean_def Let_def)
  qed
  show ?thesis
  proof (cases "p = []")
    case True
    then show ?thesis using clean [of service "[]"] names ne by (simp add: path_Join_def)
  next
    case False
    have "split_path (p @ CHR ''/'' # service) = split_path p @ [service]" using names by (simp add: split_path_append)
    with clean [OF this] False ne show ?thesis by (simp add: path_Join_def)
  qed
qed

lemma instanceKey_prefix:
  assumes "plain_name service" "plain_name inst"
  shows "instanceKey r service inst = servicePrefix r service @ inst"
  using path_Join_child [OF assms] by (simp add: instanceKey_def servicePrefix_def)

section \<open>The contract of etcd\<close>

text \<open>
  \<open>kv\<close> is the content of the store. A call that reports success has done its work, a write that reports an error may have; reads and
  leases leave the content as it is. What other clients do, and the end of leases, happens between the calls.
\<close>

locale etcd =
  fixes E :: "'w etcd_client" and kv :: "'w \<Rightarrow> string \<rightharpoonup> raw_message"
  assumes get: "et_get E k w = (gres, w') \<Longrightarrow> kv w' = kv w \<and> (\<forall>vs. gres = Inr vs \<longrightarrow> vs = (case kv w k of None \<Rightarrow> [] | Some v \<Rightarrow> [v]))"
    and get_prefix: "et_get_prefix E p w = (gres, w') \<Longrightarrow> kv w' = kv w \<and>
      (\<forall>vs. gres = Inr vs \<longrightarrow> set vs = {v. \<exists>k. prefix p k \<and> kv w k = Some v})"
    and put: "et_put E k v lease w = (ures, w') \<Longrightarrow> commits (\<lambda>d. Some (d(k \<mapsto> v))) (kv w) ures (kv w')"
    and delete: "et_delete E k w = (ures, w') \<Longrightarrow> commits (\<lambda>d. Some (d(k := None))) (kv w) ures (kv w')"
    and leases: "et_grant E n w = (ires, w') \<Longrightarrow> kv w' = kv w" "et_keepalive E l w = (ures, w') \<Longrightarrow> kv w' = kv w"
      "et_clock E w = (t, w') \<Longrightarrow> kv w' = kv w"
begin

lemma registered:
  assumes "rg_client r = E" "registry_Register r i w = (Inr u, w')"
  shows "\<exists>now payload. marshal_instance (registered_instance now i) = Inr payload \<and>
    kv w' = (kv w)(instanceKey r (ei_ServiceName (registered_instance now i)) (ei_InstanceID i) \<mapsto> RawValid payload)"
proof -
  obtain now w1 where c: "et_clock E w = (now, w1)" by fastforce
  from assms c obtain lease w2 payload u1 w3 where
    g: "et_grant E (int_quot (rg_LeaseTTL r) time_second) w1 = (Inr lease, w2)"
    and m: "marshal_instance (registered_instance now i) = Inr payload"
    and p: "et_put E (instanceKey r (ei_ServiceName (registered_instance now i)) (ei_InstanceID (registered_instance now i)))
        (RawValid payload) (Some lease) w2 = (Inr u1, w3)"
    and k: "et_keepalive E lease w3 = (Inr u, w')"
    by (auto simp: registry_Register_def Let_def elim!: io_bind_InrE split: sum.splits)
  have same: "ei_InstanceID (registered_instance now i) = ei_InstanceID i" by (simp add: registered_instance_def)
  from leases(1) [OF g] leases(2) [OF k] leases(3) [OF c] put [OF p] m show ?thesis
    unfolding same by (intro exI [of _ now] exI [of _ payload]) simp
qed

lemma status_updated:
  assumes "rg_client r = E" "registry_UpdateStatus r service inst status w = (Inr u, w')"
  shows "\<exists>v j now payload. Unmarshal unmarshal_instance v = Inr j \<and>
    marshal_instance (j\<lparr>ei_Status := status, ei_UpdateTime := now\<rparr>) = Inr payload \<and>
    kv w' = (kv w)(instanceKey r service inst \<mapsto> RawValid payload)"
proof -
  let ?k = "instanceKey r service inst"
  from assms obtain gs w1 v j now w2 payload where g: "et_get E ?k w = (Inr gs, w1)" and d: "Unmarshal unmarshal_instance v = Inr j" and c: "et_clock E w1 = (now, w2)"
    and m: "marshal_instance (j\<lparr>ei_Status := status, ei_UpdateTime := now\<rparr>) = Inr payload"
    and p: "et_put E ?k (RawValid payload) None w2 = (Inr u, w')"
    by (auto simp: registry_UpdateStatus_def Let_def elim!: io_bind_InrE split: list.splits sum.splits prod.splits)
  from get [OF g] leases(3) [OF c] put [OF p] m d show ?thesis
    by (intro exI [of _ v] exI [of _ j] exI [of _ now] exI [of _ payload]) simp
qed

lemma ready_instances_spec:
  "ready_instances vs = Inr is \<Longrightarrow> set is = {i. \<exists>v \<in> set vs. Unmarshal unmarshal_instance v = Inr i \<and> ei_Status i = ''ready''}"
proof (induction vs arbitrary: "is")
  case (Cons v vs)
  from Cons.prems obtain i js where "Unmarshal unmarshal_instance v = Inr i" "ready_instances vs = Inr js"
    "is = (if ei_Status i = ''ready'' then i # js else js)" by (auto simp: res_bind_eq_Inr)
  with Cons.IH show ?case by auto
qed simp

lemma listed:
  assumes "rg_client r = E" "ListReadyPlayerServers r w = (Inr servers, w')"
  shows "set servers = {player_server i | i k v. prefix (servicePrefix r ''playersrv'') k \<and> kv w k = Some v \<and>
     Unmarshal unmarshal_instance v = Inr i \<and> ei_Status i = ''ready''}"
proof -
  from assms obtain vs w1 "is" where g: "et_get_prefix E (servicePrefix r ''playersrv'') w = (Inr vs, w1)"
    and i: "ready_instances vs = Inr is" and s: "servers = map player_server is"
    by (auto simp: ListReadyPlayerServers_def registry_ListReady_def elim!: io_bind_InrE)
  show ?thesis using ready_instances_spec [OF i] get_prefix [OF g] unfolding s by auto
qed

end

lemma instance_roundtrip:
  assumes "marshal_instance i = Inr j" "in_int64 (ei_Weight i)"
  shows "unmarshal_instance j = Inr i"
  using assms
  by (auto simp: marshal_instance_def enc_struct_def fld_def fld_omit_str_eq str_kvs_def res_bind_eq_Inr enc_time_def
      json_lookup split: if_splits)

lemma unmarshal_instance_weight:
  assumes "Unmarshal unmarshal_instance v = Inr i"
  shows "in_int64 (ei_Weight i)"
proof -
  have range: "decode_int j = Inr n \<Longrightarrow> in_int64 n" for j n by (auto split: if_splits option.splits elim!: decode_int.elims simp: in_int64_def)
  have "in_int64 (ei_Weight i)" if "unmarshal_instance j = Inr i" for j
    using that by (cases j rule: unmarshal_instance.cases) (auto simp: res_bind_eq_Inr in_int64_def dest: range)
  then show ?thesis using assms by (cases v) auto
qed

section \<open>Properties\<close>

text \<open>Every entry of a player server is under the key of its instance.\<close>

definition registry_keyed :: "'w Registry \<Rightarrow> (string \<rightharpoonup> raw_message) \<Rightarrow> bool" where
  "registry_keyed r d \<longleftrightarrow> (\<forall>k v i. prefix (servicePrefix r ''playersrv'') k \<longrightarrow> d k = Some v \<longrightarrow>
     Unmarshal unmarshal_instance v = Inr i \<longrightarrow> k = instanceKey r ''playersrv'' (ei_InstanceID i))"

context etcd begin

text \<open>A server that has registered is found while its entry is as it was written; one without an entry is not.\<close>

lemma registered_listed:
  assumes "rg_client r = E" "plain_name (ei_InstanceID i)" "ei_ServiceName i = ''playersrv''" "ei_Status i = ''ready''" "in_int64 (ei_Weight i)"
    and "registry_Register r i w = (Inr u, w1)"
    and "kv w2 (instanceKey r ''playersrv'' (ei_InstanceID i)) = kv w1 (instanceKey r ''playersrv'' (ei_InstanceID i))"
    and "ListReadyPlayerServers r w2 = (Inr servers, w3)"
  shows "(player_server i)\<lparr>psi_Weight := (if ei_Weight i = 0 then 100 else ei_Weight i)\<rparr> \<in> set servers"
proof -
  let ?k = "instanceKey r ''playersrv'' (ei_InstanceID i)"
  have key: "prefix (servicePrefix r ''playersrv'') ?k"
    using instanceKey_prefix [OF _ assms(2), of "''playersrv''" r] by (simp add: plain_name_def)
  from registered [OF assms(1,6)] assms(3) obtain now payload where
    m: "marshal_instance (registered_instance now i) = Inr payload" and k1: "kv w1 ?k = Some (RawValid payload)"
    by (auto simp: registered_instance_def)
  have "in_int64 (ei_Weight (registered_instance now i))" using assms(5) by (simp add: registered_instance_def in_int64_def)
  from instance_roundtrip [OF m this] have "Unmarshal unmarshal_instance (RawValid payload) = Inr (registered_instance now i)" by simp
  moreover have "ei_Status (registered_instance now i) = ''ready''" using assms(4) by (simp add: registered_instance_def)
  ultimately have "player_server (registered_instance now i) \<in> set servers"
    using listed [OF assms(1,8)] key k1 assms(7) by force
  then show ?thesis by (simp add: player_server_def registered_instance_def)
qed

lemma unlisted:
  assumes "rg_client r = E" "registry_keyed r (kv w)" "ListReadyPlayerServers r w = (Inr servers, w')"
    and "\<And>v i. kv w (instanceKey r ''playersrv'' inst) = Some v \<Longrightarrow> Unmarshal unmarshal_instance v = Inr i \<Longrightarrow> ei_Status i \<noteq> ''ready''"
    and "s \<in> set servers"
  shows "psi_InstanceID s \<noteq> inst"
proof
  assume same: "psi_InstanceID s = inst"
  from assms(5) listed [OF assms(1,3)] obtain i k v where x: "s = player_server i" "prefix (servicePrefix r ''playersrv'') k"
    "kv w k = Some v" "Unmarshal unmarshal_instance v = Inr i" "ei_Status i = ''ready''" by auto
  with assms(2) same have "k = instanceKey r ''playersrv'' inst" unfolding registry_keyed_def by (fastforce simp: player_server_def)
  with x(3-5) assms(4) show False by blast
qed

lemma unregistered:
  "rg_client r = E \<Longrightarrow> registry_Unregister r service inst w = (Inr u, w') \<Longrightarrow> kv w' = (kv w)(instanceKey r service inst := None)"
  using delete [of "instanceKey r service inst" w "Inr u" w'] by (simp add: registry_Unregister_def)

end

text \<open>
  The life of a player server in the registry: once it has registered as ready, every gateway that lists the player servers while
  the entry is there finds it, with its addresses and its weight, 100 if none was given; once its status was set to another value,
  no gateway finds a server with its name, as long as the entry stays as it was set.
\<close>

lemma registered_until_draining:
  assumes "etcd E kv" "rg_client r = E" "plain_name (ei_InstanceID i)" "ei_ServiceName i = ''playersrv''"
    and "ei_Status i = ''ready''" "in_int64 (ei_Weight i)" "status \<noteq> ''ready''"
    and "registry_Register r i w = (Inr u, w1)" "kv w2 (instanceKey r ''playersrv'' (ei_InstanceID i)) = kv w1 (instanceKey r ''playersrv'' (ei_InstanceID i))"
      "ListReadyPlayerServers r w2 = (Inr servers, w3)"
    and "registry_UpdateStatus r ''playersrv'' (ei_InstanceID i) status w4 = (Inr u', w5)"
      "kv w6 (instanceKey r ''playersrv'' (ei_InstanceID i)) = kv w5 (instanceKey r ''playersrv'' (ei_InstanceID i))"
      "registry_keyed r (kv w6)" "ListReadyPlayerServers r w6 = (Inr servers', w7)"
  shows "(player_server i)\<lparr>psi_Weight := (if ei_Weight i = 0 then 100 else ei_Weight i)\<rparr> \<in> set servers \<and>
    (\<forall>s \<in> set servers'. psi_InstanceID s \<noteq> ei_InstanceID i)"
proof -
  from etcd.status_updated [OF assms(1,2,11)] obtain v j now payload where
    d: "Unmarshal unmarshal_instance v = Inr j" "marshal_instance (j\<lparr>ei_Status := status, ei_UpdateTime := now\<rparr>) = Inr payload"
      "kv w5 (instanceKey r ''playersrv'' (ei_InstanceID i)) = Some (RawValid payload)" by auto
  have "in_int64 (ei_Weight (j\<lparr>ei_Status := status, ei_UpdateTime := now\<rparr>))" using unmarshal_instance_weight [OF d(1)] by simp
  from instance_roundtrip [OF d(2) this]
  have drained: "Unmarshal unmarshal_instance (RawValid payload) = Inr (j\<lparr>ei_Status := status, ei_UpdateTime := now\<rparr>)" by simp
  have "psi_InstanceID s \<noteq> ei_InstanceID i" if "s \<in> set servers'" for s
    by (rule etcd.unlisted [OF assms(1,2,13,14) _ that]) (use assms(7,12) d(3) drained in auto)
  then show ?thesis using etcd.registered_listed [OF assms(1-6,8-10)] by blast
qed

section \<open>A store in memory\<close>

type_synonym mem_store = "(string \<times> raw_message) list"

definition mem_etcd :: "mem_store etcd_client" where
  "mem_etcd = \<lparr>et_get = (\<lambda>k w. (Inr (case map_of w k of None \<Rightarrow> [] | Some v \<Rightarrow> [v]), w)),
     et_get_prefix = (\<lambda>p w. (Inr (map (\<lambda>k. the (map_of w k)) (filter (prefix p) (remdups (map fst w)))), w)),
     et_put = (\<lambda>k v lease w. (Inr (), AList.update k v w)), et_delete = (\<lambda>k w. (Inr (), AList.delete k w)),
     et_grant = (\<lambda>n w. (Inr 1, w)), et_keepalive = (\<lambda>l w. (Inr (), w)), et_clock = (\<lambda>w. (5, w))\<rparr>"

interpretation mem_etcd: etcd mem_etcd "map_of :: mem_store \<Rightarrow> string \<rightharpoonup> raw_message"
proof
  fix p gres and w w' :: mem_store
  assume run: "et_get_prefix mem_etcd p w = (gres, w')"
  have "v \<in> (\<lambda>k. the (map_of w k)) ` {k \<in> fst ` set w. prefix p k} \<longleftrightarrow> (\<exists>k. prefix p k \<and> map_of w k = Some v)" for v
  proof
    assume "\<exists>k. prefix p k \<and> map_of w k = Some v"
    then obtain k where "prefix p k" "map_of w k = Some v" by blast
    then show "v \<in> (\<lambda>k. the (map_of w k)) ` {k \<in> fst ` set w. prefix p k}"
      by (intro image_eqI [of _ _ k]) (auto dest!: map_of_SomeD intro: image_eqI [of _ fst "(k, v)"])
  next
    assume "v \<in> (\<lambda>k. the (map_of w k)) ` {k \<in> fst ` set w. prefix p k}"
    then obtain k where k: "k \<in> fst ` set w" "prefix p k" "v = the (map_of w k)" by blast
    then have "map_of w k \<noteq> None" by (simp add: map_of_eq_None_iff)
    with k show "\<exists>k. prefix p k \<and> map_of w k = Some v" by auto
  qed
  then show "map_of w' = map_of w \<and> (\<forall>vs. gres = Inr vs \<longrightarrow> set vs = {v. \<exists>k. prefix p k \<and> map_of w k = Some v})"
    using run by (auto simp: mem_etcd_def)
qed (auto simp: mem_etcd_def update_conv' delete_conv')

end
