(* ===== verification/Services.thy ===== *)
theory Services
  imports Configuration Service_Registry Gateway_Connections Account_Service Outbox_Relay Event_Consumer Request_Queue
begin

text \<open>
  How the five programs under \<^verbatim>\<open>cmd/\<close> put their components together from a configuration, with the constructors of
  \<^verbatim>\<open>infra/kafka\<close> and the connection pool of \<^verbatim>\<open>data/mysql/client.go\<close>. The drivers (MySQL, Redis, Kafka, etcd, gRPC) are parameters. The
  property shows that a configuration that was accepted is in force: no component falls back to a default of its own.
\<close>

section \<open>Clients\<close>

record kafka_writer =
  kw_Brokers :: "string list"
  kw_Topic :: string
  kw_Balancer :: string
  kw_RequireAll :: bool
  kw_Async :: bool

record kafka_reader =
  kr_Brokers :: "string list"
  kr_Topic :: string
  kr_GroupID :: string

definition kafka_NewPublisher :: "KafkaConfig \<Rightarrow> string \<Rightarrow> kafka_writer" where
  "kafka_NewPublisher cfg topic = \<lparr>kw_Brokers = kc_Brokers cfg, kw_Topic = topic, kw_Balancer = ''hash'', kw_RequireAll = True,
     kw_Async = False\<rparr>"

definition NewGlobalMailPublisher :: "KafkaConfig \<Rightarrow> kafka_writer" where
  "NewGlobalMailPublisher cfg = kafka_NewPublisher cfg (kc_TopicPrefix cfg @ ''.global-mail-events'')"

definition NewGlobalMailConsumer :: "KafkaConfig \<Rightarrow> string \<Rightarrow> kafka_reader" where
  "NewGlobalMailConsumer cfg groupID =
     (let groupID = (if groupID = [] then kc_ConsumerGroup cfg else groupID);
          groupID = (if groupID = [] then ''globalmail-playersrv'' else groupID)
      in \<lparr>kr_Brokers = kc_Brokers cfg, kr_Topic = kc_TopicPrefix cfg @ ''.global-mail-events'', kr_GroupID = groupID\<rparr>)"

record sql_pool =
  sp_MaxOpenConns :: int
  sp_MaxIdleConns :: int
  sp_ConnMaxLifetime :: duration

definition ConfigurePool :: "MySQLConfig \<Rightarrow> sql_pool" where
  "ConfigurePool cfg = \<lparr>sp_MaxOpenConns = my_MaxOpenConns cfg, sp_MaxIdleConns = my_MaxIdleConns cfg,
     sp_ConnMaxLifetime = (if my_ConnMaxLifetime cfg \<le> 0 then time_hour else my_ConnMaxLifetime cfg)\<rparr>"

definition redis_NewRepository :: "'w redis_client \<Rightarrow> Config \<Rightarrow> 'w redis_repo" where
  "redis_NewRepository C cfg = \<lparr>rr_client = C, rr_prefix = rc_KeyPrefix (cfg_Redis cfg)\<rparr>"

definition NewRegistry :: "'w etcd_client \<Rightarrow> EtcdConfig \<Rightarrow> 'w Registry" where
  "NewRegistry client cfg = \<lparr>rg_client = client, rg_ServiceKeyPrefix = ec_ServiceKeyPrefix cfg, rg_LeaseTTL = ec_LeaseTTL cfg\<rparr>"

section \<open>The programs\<close>

definition gateway_instance :: "Config \<Rightarrow> etcd_Instance" where
  "gateway_instance cfg = \<lparr>ei_ServiceName = svc_Name (cfg_Service cfg), ei_InstanceID = svc_InstanceID (cfg_Service cfg),
     ei_PublicAddr = svc_PublicAddr (cfg_Service cfg), ei_GrpcAddr = [], ei_FrpcAddr = [], ei_Status = ''ready'', ei_Weight = 100,
     ei_Zone = [], ei_Version = [], ei_UpdateTime = 0\<rparr>"

definition player_instance :: "Config \<Rightarrow> etcd_Instance" where
  "player_instance cfg = \<lparr>ei_ServiceName = svc_Name (cfg_Service cfg), ei_InstanceID = svc_InstanceID (cfg_Service cfg),
     ei_PublicAddr = svc_PublicAddr (cfg_Service cfg), ei_GrpcAddr = svc_PublicAddr (cfg_Service cfg), ei_FrpcAddr = [],
     ei_Status = ''ready'', ei_Weight = 100, ei_Zone = [], ei_Version = [], ei_UpdateTime = 0\<rparr>"

definition gateway_routes :: "Config \<Rightarrow> 'w redis_client \<Rightarrow> 'w etcd_client \<Rightarrow> 'w clock \<Rightarrow> 'w RouteService \<times> route_state" where
  "gateway_routes cfg C E clock = NewRouteService (redis_SrvRouterStore (redis_NewRepository C cfg))
     (ListReadyPlayerServers (NewRegistry E (cfg_Etcd cfg))) (gw_RouteTTL (cfg_Gateway cfg)) (gw_VirtualNodes (cfg_Gateway cfg)) clock"

definition gateway_connections :: "Config \<Rightarrow> 'w redis_client \<Rightarrow> 'w clock \<Rightarrow> 'w ConnectionManager \<times> ConnectionPool" where
  "gateway_connections cfg C clock = NewConnectionManager (redis_GateConnStore (redis_NewRepository C cfg))
     (svc_PublicAddr (cfg_Service cfg)) (gw_SessionTTL (cfg_Gateway cfg)) (gw_GatewayConnRenewInterval (cfg_Gateway cfg)) clock"

definition account_main :: "Config \<Rightarrow> 'w redis_client \<Rightarrow> 'w GameLoginClient \<Rightarrow> 'w clock \<Rightarrow> ('w, string) io \<Rightarrow> 'w account_Service" where
  "account_main cfg C games clock rand =
     account_server (redis_NewRepository C cfg) games (ac_LoginTokenTTL (cfg_Account cfg)) clock rand"

definition player_mail_main :: "Config \<Rightarrow> 'w gorm_db \<Rightarrow> 'w redis_client \<Rightarrow> 'w clock \<Rightarrow> 'w ConsistencyMetrics option \<Rightarrow>
  (string \<Rightarrow> 'w \<Rightarrow> ((error + GlobalMail list) \<times> 'w) option) \<Rightarrow> 'w PlayerMailService" where
  "player_mail_main cfg D C clock metrics join = player_service D C (rc_KeyPrefix (cfg_Redis cfg)) clock metrics join
     (pl_GlobalMailRebuildLockTTL (cfg_Player cfg)) (pl_GlobalMailRebuildWait (cfg_Player cfg))"

definition player_queue_options :: "Config \<Rightarrow> CommandQueueOptions" where
  "player_queue_options cfg = \<lparr>qo_Workers = pl_RequestQueueWorkers (cfg_Player cfg), qo_Capacity = pl_RequestQueueCapacity (cfg_Player cfg),
     qo_RoleQueueCapacity = pl_RequestRoleQueueCapacity (cfg_Player cfg), qo_RequestTimeout = pl_RequestTimeout (cfg_Player cfg)\<rparr>"

text \<open>The registry of commands, the dispatcher with its records, the queue; a failed registration ends the program.\<close>

definition player_commands :: "Config \<Rightarrow> mail_codec \<Rightarrow> 'w MailRPCServer \<Rightarrow> others \<Rightarrow> 'w player_state CommandIdempotencyStore \<Rightarrow>
  error + ('w player_state CommandRegistry \<times> 'w player_state IdempotentCommandDispatcher \<times> command_records)" where
  "player_commands cfg codec mail oth store = (case RegisterMailCommandHandlers codec mail oth NewCommandRegistry of
       Inl e \<Rightarrow> Inl e
     | Inr registry \<Rightarrow> Inr (registry, NewIdempotentCommandDispatcherWithStore (registry_Dispatch registry) (Some store)
         (pl_CommandIdempotencyTTL (cfg_Player cfg))))"

definition player_queue :: "Config \<Rightarrow> 's CommandDispatcher \<Rightarrow> 's \<Rightarrow> 's queue_config \<times> 's CommandRequestQueue" where
  "player_queue cfg dispatcher world = NewCommandRequestQueue dispatcher (player_queue_options cfg) world"

definition relay_main :: "Config \<Rightarrow> 'w gorm_db \<Rightarrow> 'w redis_client \<Rightarrow> 'w clock \<Rightarrow> (kafka_message \<Rightarrow> ('w, unit) io) \<Rightarrow>
  'w ConsistencyMetrics option \<Rightarrow> 'w OutboxRelay" where
  "relay_main cfg D C clock write metrics = relay_server D C (rc_KeyPrefix (cfg_Redis cfg)) clock write
     (svc_InstanceID (cfg_Service cfg)) (rl_LockTTL (cfg_MailRelay cfg)) (rl_MaxRetries (cfg_MailRelay cfg)) metrics"

text \<open>The flags \<^verbatim>\<open>-interval\<close> and \<^verbatim>\<open>-limit\<close> take precedence when they are positive.\<close>

definition relay_worker :: "Config \<Rightarrow> duration \<Rightarrow> int \<Rightarrow> 'w OutboxRelay \<Rightarrow> 'w Worker" where
  "relay_worker cfg interval limit outbox =
     (let flushInterval = (if interval > 0 then interval else rl_FlushInterval (cfg_MailRelay cfg));
          fetchLimit = (if limit > 0 then limit else rl_FetchLimit (cfg_MailRelay cfg))
      in NewWorker outbox fetchLimit flushInterval)"

section \<open>Properties\<close>

text \<open>What the validation accepts.\<close>

lemma first_failure_None: "first_failure checks = None \<longleftrightarrow> (\<forall>(failed, text) \<in> set checks. \<not> failed)"
  by (induction checks rule: first_failure.induct) auto

lemma Validate_accepts:
  assumes "config_Validate c = None"
  shows "svc_InstanceID (cfg_Service c) \<noteq> []"
    "0 < ec_LeaseTTL (cfg_Etcd c)" "0 < gw_RouteTTL (cfg_Gateway c)" "0 < gw_VirtualNodes (cfg_Gateway c)"
    "0 < gw_SessionTTL (cfg_Gateway c)" "0 < gw_GatewayConnRenewInterval (cfg_Gateway c)" "0 < ac_LoginTokenTTL (cfg_Account c)"
    "0 < pl_RequestQueueWorkers (cfg_Player c)" "0 < pl_RequestQueueCapacity (cfg_Player c)"
    "0 < pl_RequestRoleQueueCapacity (cfg_Player c)" "0 < pl_GlobalMailPollInterval (cfg_Player c)"
    "0 < pl_GlobalMailRebuildLockTTL (cfg_Player c)" "0 < pl_GlobalMailRebuildWait (cfg_Player c)"
    "0 < rl_FlushInterval (cfg_MailRelay c)" "0 < rl_FetchLimit (cfg_MailRelay c)" "0 < rl_LockTTL (cfg_MailRelay c)"
    "0 < rl_MaxRetries (cfg_MailRelay c)"
  using assms unfolding config_Validate_def first_failure_None by (simp_all add: config_checks_def)

lemma LoadBytes_valid: "LoadBytes yaml payload = Inr cfg \<Longrightarrow> config_Validate cfg = None"
  by (auto simp: LoadBytes_def split: sum.splits option.splits)

lemma router_Update_virtualNodes [simp]: "chr_virtualNodes (router_Update instances r) = chr_virtualNodes r"
  by (simp add: router_Update_def split: prod.splits)

text \<open>The flags of the relay replace the configured values only when they are positive.\<close>

lemma relay_worker_flags:
  assumes "config_Validate cfg = None"
  shows "wk_interval (relay_worker cfg interval limit outbox) = (if interval > 0 then interval else rl_FlushInterval (cfg_MailRelay cfg))"
    "wk_limit (relay_worker cfg interval limit outbox) = (if limit > 0 then limit else rl_FetchLimit (cfg_MailRelay cfg))"
  using Validate_accepts [OF assms] by (simp_all add: relay_worker_def NewWorker_def)

text \<open>
  Without a group in the configuration all player servers read in one group, whatever their instance is called, so that each
  event reaches only one of them.
\<close>

lemma default_group_shared:
  assumes "kc_ConsumerGroup (cfg_Kafka a) = []" "kc_ConsumerGroup (cfg_Kafka b) = []"
  shows "kr_GroupID (NewGlobalMailConsumer (cfg_Kafka a) (kc_ConsumerGroup (cfg_Kafka a))) =
    kr_GroupID (NewGlobalMailConsumer (cfg_Kafka b) (kc_ConsumerGroup (cfg_Kafka b)))"
  using assms by (simp add: NewGlobalMailConsumer_def)

text \<open>A lease of less than a second is accepted and asked for as a lease of no seconds.\<close>

lemma sub_second_lease:
  "config_Validate (config_Default\<lparr>cfg_Etcd := (cfg_Etcd config_Default)\<lparr>ec_LeaseTTL := 500 * time_millisecond\<rparr>\<rparr>) = None"
  "int_quot (500 * time_millisecond) time_second = 0"
  by code_simp+



end
