(* ===== verification/Database_Schema.thy ===== *)
theory Database_Schema
  imports Player_Mail
begin

text \<open>
  The tables of the database, which the repository describes twice: as statements for MySQL
  (\<^verbatim>\<open>data/sqlschema/globalmail.go\<close>) and as tags of the row types, from which \<^verbatim>\<open>AutoMigrate\<close> of
  \<^verbatim>\<open>data/mysql/repository.go\<close> creates them (\<^verbatim>\<open>data/mysql/models.go\<close>). Comments of the statements are left out. The
  properties show where the two descriptions agree, and that the rows of a delivered reward fit their columns.
\<close>

section \<open>The statements\<close>

datatype column_type = TBigint | TInt | TVarchar nat | TText | TJson | TDatetime

record column_def =
  col_name :: string
  col_type :: column_type
  col_not_null :: bool
  col_default :: "string option"

record table_def =
  td_name :: string
  td_columns :: "column_def list"
  td_primary :: "string list"
  td_keys :: "(string \<times> string list) list"

definition column :: "string \<Rightarrow> column_type \<Rightarrow> bool \<Rightarrow> string option \<Rightarrow> column_def" where
  "column name type not_null default_text =
     \<lparr>col_name = name, col_type = type, col_not_null = not_null, col_default = default_text\<rparr>"

definition schema_global_mail :: table_def where
  "schema_global_mail = \<lparr>td_name = ''global_mail'', td_columns = [
       column ''global_mail_id'' TBigint True None,
       column ''opr_id'' TBigint True None,
       column ''title'' (TVarchar 256) True None,
       column ''content'' TText True None,
       column ''msg_map'' TJson False None,
       column ''loots'' TJson False None,
       column ''sender'' (TVarchar 64) True None,
       column ''mail_category'' (TVarchar 32) True None,
       column ''mail_template_id'' TBigint True (Some ''0''),
       column ''param_list'' TJson False None,
       column ''external_url'' (TVarchar 512) False None,
       column ''start_time'' TDatetime True None,
       column ''expire_time'' TDatetime True None,
       column ''status'' (TVarchar 32) True None,
       column ''version'' TBigint True (Some ''1''),
       column ''create_time'' TDatetime True None,
       column ''update_time'' TDatetime True None],
     td_primary = [''global_mail_id''],
     td_keys = [(''idx_status_time'', [''status'', ''start_time'', ''expire_time'']), (''idx_update_time'', [''update_time''])]\<rparr>"

definition schema_global_mail_condition :: table_def where
  "schema_global_mail_condition = \<lparr>td_name = ''global_mail_condition'', td_columns = [
       column ''condition_id'' TBigint True None,
       column ''global_mail_id'' TBigint True None,
       column ''condition_type'' (TVarchar 64) True None,
       column ''operator'' (TVarchar 16) True None,
       column ''condition_value'' TJson True None,
       column ''create_time'' TDatetime True None,
       column ''update_time'' TDatetime True None],
     td_primary = [''condition_id''],
     td_keys = [(''idx_global_mail_id'', [''global_mail_id'']), (''idx_condition_type'', [''condition_type''])]\<rparr>"

definition schema_user_personal_mail :: table_def where
  "schema_user_personal_mail = \<lparr>td_name = ''user_personal_mail'', td_columns = [
       column ''mail_id'' TBigint True None,
       column ''role_id'' TBigint True None,
       column ''server_id'' TInt True None,
       column ''title'' (TVarchar 256) True None,
       column ''content'' TText True None,
       column ''template_id'' TBigint True (Some ''0''),
       column ''param_list'' TJson False None,
       column ''loots'' TJson False None,
       column ''status'' (TVarchar 32) True None,
       column ''create_time'' TDatetime True None,
       column ''expire_time'' TDatetime True None,
       column ''update_time'' TDatetime True None],
     td_primary = [''mail_id''],
     td_keys = [(''idx_role_status_time'', [''role_id'', ''status'', ''expire_time'']), (''idx_role_create_time'', [''role_id'', ''create_time''])]\<rparr>"

definition schema_user_global_mail_state :: table_def where
  "schema_user_global_mail_state = \<lparr>td_name = ''user_global_mail_state'', td_columns = [
       column ''role_id'' TBigint True None,
       column ''server_id'' TInt True None,
       column ''global_mail_id'' TBigint True None,
       column ''status'' (TVarchar 32) True None,
       column ''claimed_loot_indexes'' TJson False None,
       column ''claim_time'' TDatetime False None,
       column ''delete_time'' TDatetime False None,
       column ''version'' TInt True (Some ''1''),
       column ''create_time'' TDatetime True None,
       column ''update_time'' TDatetime True None],
     td_primary = [''role_id'', ''global_mail_id''],
     td_keys = [(''idx_role_status'', [''role_id'', ''status'']), (''idx_global_mail_id'', [''global_mail_id''])]\<rparr>"

definition schema_user_global_mail_reward_ledger :: table_def where
  "schema_user_global_mail_reward_ledger = \<lparr>td_name = ''user_global_mail_reward_ledger'', td_columns = [
       column ''grant_key'' (TVarchar 160) True None,
       column ''role_id'' TBigint True None,
       column ''server_id'' TInt True None,
       column ''global_mail_id'' TBigint True None,
       column ''loot_index'' TInt True None,
       column ''status'' (TVarchar 32) True None,
       column ''external_reward_id'' (TVarchar 128) True (Some []),
       column ''failure_reason'' (TVarchar 1024) True (Some []),
       column ''create_time'' TDatetime True None,
       column ''update_time'' TDatetime True None],
     td_primary = [''grant_key''],
     td_keys = [(''idx_role_mail'', [''role_id'', ''global_mail_id'']), (''idx_status'', [''status''])]\<rparr>"

definition schema_user_backpack_reward :: table_def where
  "schema_user_backpack_reward = \<lparr>td_name = ''user_backpack_reward'', td_columns = [
       column ''grant_key'' (TVarchar 160) True None,
       column ''role_id'' TBigint True None,
       column ''server_id'' TInt True None,
       column ''loot_index'' TInt True None,
       column ''loot'' TJson False None,
       column ''create_time'' TDatetime True None],
     td_primary = [''grant_key''],
     td_keys = [(''idx_role_create_time'', [''role_id'', ''create_time''])]\<rparr>"

definition schema_user_mail_cursor :: table_def where
  "schema_user_mail_cursor = \<lparr>td_name = ''user_mail_cursor'', td_columns = [
       column ''role_id'' TBigint True None,
       column ''server_id'' TInt True None,
       column ''max_seen_global_mail_id'' TBigint True (Some ''0''),
       column ''last_pull_time'' TDatetime False None,
       column ''update_time'' TDatetime True None],
     td_primary = [''role_id''],
     td_keys = [(''idx_server_update_time'', [''server_id'', ''update_time''])]\<rparr>"

definition schema_global_mail_outbox_event :: table_def where
  "schema_global_mail_outbox_event = \<lparr>td_name = ''global_mail_outbox_event'', td_columns = [
       column ''event_id'' TBigint True None,
       column ''event_type'' (TVarchar 64) True None,
       column ''aggregate_id'' TBigint True None,
       column ''version'' TBigint True None,
       column ''payload'' TJson True None,
       column ''status'' (TVarchar 32) True None,
       column ''retry_count'' TInt True (Some ''0''),
       column ''next_retry_time'' TDatetime False None,
       column ''locked_by'' (TVarchar 128) False None,
       column ''locked_until'' TDatetime False None,
       column ''failure_reason'' (TVarchar 1024) False None,
       column ''published_time'' TDatetime False None,
       column ''create_time'' TDatetime True None,
       column ''update_time'' TDatetime True None],
     td_primary = [''event_id''],
     td_keys = [(''idx_status_retry'', [''status'', ''next_retry_time'', ''locked_until'']), (''idx_aggregate_version'', [''aggregate_id'', ''version''])]\<rparr>"

definition schema_global_mail_idempotency :: table_def where
  "schema_global_mail_idempotency = \<lparr>td_name = ''global_mail_idempotency'', td_columns = [
       column ''idempotency_key'' (TVarchar 128) True None,
       column ''action'' (TVarchar 32) True None,
       column ''request_hash'' (TVarchar 64) True None,
       column ''global_mail_id'' TBigint True None,
       column ''target_version'' TBigint True None,
       column ''status'' (TVarchar 32) True None,
       column ''response_snapshot'' TJson True None,
       column ''create_time'' TDatetime True None,
       column ''update_time'' TDatetime True None],
     td_primary = [''idempotency_key''],
     td_keys = [(''idx_global_mail_id'', [''global_mail_id''])]\<rparr>"

definition GlobalMailSchema :: "table_def list" where
  "GlobalMailSchema = [schema_global_mail,
     schema_global_mail_condition,
     schema_user_personal_mail,
     schema_user_global_mail_state,
     schema_user_global_mail_reward_ledger,
     schema_user_backpack_reward,
     schema_user_mail_cursor,
     schema_global_mail_outbox_event,
     schema_global_mail_idempotency]"

section \<open>The tags of the row types\<close>

text \<open>
  A row type is the result of its method \<^verbatim>\<open>TableName\<close> with its fields; a field has a name, a Go type and the settings of its
  tag \<^verbatim>\<open>gorm\<close>.
\<close>

datatype go_kind = GoInt64 | GoInt | GoString | GoJSON | GoTime | GoTimePtr

datatype gorm_tag =
    Column string
  | Size nat
  | TypeName string
  | PrimaryKey
  | AutoIncrement bool
  | NotNull
  | Default string
  | Index string "nat option"          \<comment> \<open>name and priority\<close>

type_synonym gorm_field = "string \<times> go_kind \<times> gorm_tag list"
type_synonym gorm_model = "string \<times> gorm_field list"

definition tags_GlobalMailModel :: gorm_model where
  "tags_GlobalMailModel = (''global_mail'', [
     (''GlobalMailID'', GoInt64, [Column ''global_mail_id'', PrimaryKey]),
     (''OperatorID'', GoInt64, [Column ''opr_id'', NotNull]),
     (''Title'', GoString, [Column ''title'', Size 256, NotNull]),
     (''Content'', GoString, [Column ''content'', TypeName ''text'', NotNull]),
     (''MessageMap'', GoJSON, [Column ''msg_map'', TypeName ''json'']),
     (''Loots'', GoJSON, [Column ''loots'', TypeName ''json'']),
     (''Sender'', GoString, [Column ''sender'', Size 64, NotNull]),
     (''Category'', GoString, [Column ''mail_category'', Size 32, NotNull]),
     (''TemplateID'', GoInt64, [Column ''mail_template_id'', NotNull, Default ''0'']),
     (''Params'', GoJSON, [Column ''param_list'', TypeName ''json'']),
     (''ExternalURL'', GoString, [Column ''external_url'', Size 512]),
     (''StartTime'', GoTime, [Column ''start_time'', NotNull, Index ''idx_status_time'' (Some 2)]),
     (''ExpireTime'', GoTime, [Column ''expire_time'', NotNull, Index ''idx_status_time'' (Some 3)]),
     (''Status'', GoString, [Column ''status'', Size 32, NotNull, Index ''idx_status_time'' (Some 1)]),
     (''Version'', GoInt64, [Column ''version'', NotNull, Default ''1'']),
     (''CreateTime'', GoTime, [Column ''create_time'', NotNull]),
     (''UpdateTime'', GoTime, [Column ''update_time'', NotNull, Index ''idx_update_time'' None])])"

definition tags_GlobalMailConditionModel :: gorm_model where
  "tags_GlobalMailConditionModel = (''global_mail_condition'', [
     (''ConditionID'', GoInt64, [Column ''condition_id'', PrimaryKey]),
     (''GlobalMailID'', GoInt64, [Column ''global_mail_id'', NotNull, Index ''idx_global_mail_id'' None]),
     (''ConditionType'', GoString, [Column ''condition_type'', Size 64, NotNull, Index ''idx_condition_type'' None]),
     (''Operator'', GoString, [Column ''operator'', Size 16, NotNull]),
     (''ConditionValue'', GoJSON, [Column ''condition_value'', TypeName ''json'', NotNull]),
     (''CreateTime'', GoTime, [Column ''create_time'', NotNull]),
     (''UpdateTime'', GoTime, [Column ''update_time'', NotNull])])"

definition tags_UserGlobalMailStateModel :: gorm_model where
  "tags_UserGlobalMailStateModel = (''user_global_mail_state'', [
     (''RoleID'', GoInt64, [Column ''role_id'', PrimaryKey, AutoIncrement False, Index ''idx_role_status'' (Some 1)]),
     (''ServerID'', GoInt, [Column ''server_id'', NotNull]),
     (''GlobalMailID'', GoInt64, [Column ''global_mail_id'', PrimaryKey, AutoIncrement False, Index ''idx_global_mail_id'' None]),
     (''Status'', GoString, [Column ''status'', Size 32, NotNull, Index ''idx_role_status'' (Some 2)]),
     (''ClaimedLootIndexes'', GoJSON, [Column ''claimed_loot_indexes'', TypeName ''json'']),
     (''ClaimTime'', GoTimePtr, [Column ''claim_time'']),
     (''DeleteTime'', GoTimePtr, [Column ''delete_time'']),
     (''Version'', GoInt, [Column ''version'', NotNull, Default ''1'']),
     (''CreateTime'', GoTime, [Column ''create_time'', NotNull]),
     (''UpdateTime'', GoTime, [Column ''update_time'', NotNull])])"

definition tags_UserGlobalMailRewardLedgerModel :: gorm_model where
  "tags_UserGlobalMailRewardLedgerModel = (''user_global_mail_reward_ledger'', [
     (''GrantKey'', GoString, [Column ''grant_key'', Size 160, PrimaryKey]),
     (''RoleID'', GoInt64, [Column ''role_id'', NotNull, Index ''idx_role_mail'' (Some 1)]),
     (''ServerID'', GoInt, [Column ''server_id'', NotNull]),
     (''GlobalMailID'', GoInt64, [Column ''global_mail_id'', NotNull, Index ''idx_role_mail'' (Some 2)]),
     (''LootIndex'', GoInt, [Column ''loot_index'', NotNull]),
     (''Status'', GoString, [Column ''status'', Size 32, NotNull, Index ''idx_status'' None]),
     (''ExternalRewardID'', GoString, [Column ''external_reward_id'', Size 128]),
     (''FailureReason'', GoString, [Column ''failure_reason'', Size 1024]),
     (''CreateTime'', GoTime, [Column ''create_time'', NotNull]),
     (''UpdateTime'', GoTime, [Column ''update_time'', NotNull])])"

definition tags_UserBackpackRewardModel :: gorm_model where
  "tags_UserBackpackRewardModel = (''user_backpack_reward'', [
     (''GrantKey'', GoString, [Column ''grant_key'', Size 160, PrimaryKey]),
     (''RoleID'', GoInt64, [Column ''role_id'', NotNull, Index ''idx_role_create_time'' (Some 1)]),
     (''ServerID'', GoInt, [Column ''server_id'', NotNull]),
     (''LootIndex'', GoInt, [Column ''loot_index'', NotNull]),
     (''Loot'', GoJSON, [Column ''loot'', TypeName ''json'']),
     (''CreateTime'', GoTime, [Column ''create_time'', NotNull, Index ''idx_role_create_time'' (Some 2)])])"

definition tags_UserPersonalMailModel :: gorm_model where
  "tags_UserPersonalMailModel = (''user_personal_mail'', [
     (''MailID'', GoInt64, [Column ''mail_id'', PrimaryKey]),
     (''RoleID'', GoInt64, [Column ''role_id'', NotNull, Index ''idx_role_status_time'' (Some 1), Index ''idx_role_create_time'' (Some 1)]),
     (''ServerID'', GoInt, [Column ''server_id'', NotNull]),
     (''Title'', GoString, [Column ''title'', Size 256, NotNull]),
     (''Content'', GoString, [Column ''content'', TypeName ''text'', NotNull]),
     (''TemplateID'', GoInt64, [Column ''template_id'', NotNull, Default ''0'']),
     (''Params'', GoJSON, [Column ''param_list'', TypeName ''json'']),
     (''Loots'', GoJSON, [Column ''loots'', TypeName ''json'']),
     (''Status'', GoString, [Column ''status'', Size 32, NotNull, Index ''idx_role_status_time'' (Some 2)]),
     (''CreateTime'', GoTime, [Column ''create_time'', NotNull, Index ''idx_role_create_time'' (Some 2)]),
     (''ExpireTime'', GoTime, [Column ''expire_time'', NotNull, Index ''idx_role_status_time'' (Some 3)]),
     (''UpdateTime'', GoTime, [Column ''update_time'', NotNull])])"

definition tags_UserMailCursorModel :: gorm_model where
  "tags_UserMailCursorModel = (''user_mail_cursor'', [
     (''RoleID'', GoInt64, [Column ''role_id'', PrimaryKey]),
     (''ServerID'', GoInt, [Column ''server_id'', NotNull, Index ''idx_server_update_time'' (Some 1)]),
     (''MaxSeenGlobalMailID'', GoInt64, [Column ''max_seen_global_mail_id'', NotNull, Default ''0'']),
     (''LastPullTime'', GoTimePtr, [Column ''last_pull_time'']),
     (''UpdateTime'', GoTime, [Column ''update_time'', NotNull, Index ''idx_server_update_time'' (Some 2)])])"

definition tags_GlobalMailOutboxEventModel :: gorm_model where
  "tags_GlobalMailOutboxEventModel = (''global_mail_outbox_event'', [
     (''EventID'', GoInt64, [Column ''event_id'', PrimaryKey]),
     (''EventType'', GoString, [Column ''event_type'', Size 64, NotNull]),
     (''AggregateID'', GoInt64, [Column ''aggregate_id'', NotNull, Index ''idx_aggregate_version'' (Some 1)]),
     (''Version'', GoInt64, [Column ''version'', NotNull, Index ''idx_aggregate_version'' (Some 2)]),
     (''Payload'', GoJSON, [Column ''payload'', TypeName ''json'', NotNull]),
     (''Status'', GoString, [Column ''status'', Size 32, NotNull, Index ''idx_status_retry'' (Some 1)]),
     (''RetryCount'', GoInt, [Column ''retry_count'', NotNull, Default ''0'']),
     (''NextRetryTime'', GoTimePtr, [Column ''next_retry_time'', Index ''idx_status_retry'' (Some 2)]),
     (''LockedBy'', GoString, [Column ''locked_by'', Size 128]),
     (''LockedUntil'', GoTimePtr, [Column ''locked_until'', Index ''idx_status_retry'' (Some 3)]),
     (''FailureReason'', GoString, [Column ''failure_reason'', Size 1024]),
     (''PublishedTime'', GoTimePtr, [Column ''published_time'']),
     (''CreateTime'', GoTime, [Column ''create_time'', NotNull]),
     (''UpdateTime'', GoTime, [Column ''update_time'', NotNull])])"

definition tags_GlobalMailIdempotencyModel :: gorm_model where
  "tags_GlobalMailIdempotencyModel = (''global_mail_idempotency'', [
     (''IdempotencyKey'', GoString, [Column ''idempotency_key'', Size 128, PrimaryKey]),
     (''Action'', GoString, [Column ''action'', Size 32, NotNull]),
     (''RequestHash'', GoString, [Column ''request_hash'', Size 64, NotNull]),
     (''GlobalMailID'', GoInt64, [Column ''global_mail_id'', NotNull, Index ''idx_global_mail_id'' None]),
     (''TargetVersion'', GoInt64, [Column ''target_version'', NotNull]),
     (''Status'', GoString, [Column ''status'', Size 32, NotNull]),
     (''ResponseSnapshot'', GoJSON, [Column ''response_snapshot'', TypeName ''json'', NotNull]),
     (''CreateTime'', GoTime, [Column ''create_time'', NotNull]),
     (''UpdateTime'', GoTime, [Column ''update_time'', NotNull])])"

definition AutoMigrate_models :: "gorm_model list" where
  "AutoMigrate_models = [tags_GlobalMailModel,
     tags_GlobalMailConditionModel,
     tags_UserPersonalMailModel,
     tags_UserGlobalMailStateModel,
     tags_UserGlobalMailRewardLedgerModel,
     tags_UserBackpackRewardModel,
     tags_UserMailCursorModel,
     tags_GlobalMailOutboxEventModel,
     tags_GlobalMailIdempotencyModel]"

section \<open>Comparing the descriptions\<close>

text \<open>The setting of a kind among the tags of a field.\<close>

definition tag_column :: "gorm_field \<Rightarrow> string" where
  "tag_column = (\<lambda>(_, _, tags). concat (map (\<lambda>t. case t of Column c \<Rightarrow> c | _ \<Rightarrow> []) tags))"

definition tag_sizes :: "gorm_field \<Rightarrow> nat list" where
  "tag_sizes = (\<lambda>(_, _, tags). List.map_filter (\<lambda>t. case t of Size n \<Rightarrow> Some n | _ \<Rightarrow> None) tags)"

definition tag_types :: "gorm_field \<Rightarrow> string list" where
  "tag_types = (\<lambda>(_, _, tags). List.map_filter (\<lambda>t. case t of TypeName n \<Rightarrow> Some n | _ \<Rightarrow> None) tags)"

definition tag_defaults :: "gorm_field \<Rightarrow> string list" where
  "tag_defaults = (\<lambda>(_, _, tags). List.map_filter (\<lambda>t. case t of Default n \<Rightarrow> Some n | _ \<Rightarrow> None) tags)"

definition has_tag :: "gorm_tag \<Rightarrow> gorm_field \<Rightarrow> bool" where
  "has_tag tag = (\<lambda>(_, _, tags). tag \<in> set tags)"

text \<open>The column type that a statement has for a field of this Go type with these tags; a Go \<^verbatim>\<open>int\<close> is kept in an \<^verbatim>\<open>INT\<close>.\<close>

definition type_agrees :: "gorm_field \<Rightarrow> column_type \<Rightarrow> bool" where
  "type_agrees f type = (case fst (snd f) of
       GoInt64 \<Rightarrow> type = TBigint
     | GoInt \<Rightarrow> type = TInt
     | GoString \<Rightarrow> (case tag_sizes f of n # _ \<Rightarrow> type = TVarchar n | [] \<Rightarrow> tag_types f = [''text''] \<and> type = TText)
     | GoJSON \<Rightarrow> tag_types f = [''json''] \<and> type = TJson
     | GoTime \<Rightarrow> type = TDatetime
     | GoTimePtr \<Rightarrow> type = TDatetime)"

text \<open>The columns of an index by priority; a tag without priority stands alone.\<close>

definition index_columns :: "gorm_model \<Rightarrow> string \<Rightarrow> string list" where
  "index_columns m name =
     (let entries = concat (map (\<lambda>f. List.map_filter (\<lambda>t. case t of
            Index n p \<Rightarrow> if n = name then Some (case p of None \<Rightarrow> 10 | Some k \<Rightarrow> k, tag_column f) else None
          | _ \<Rightarrow> None) (snd (snd f))) (snd m))
      in map snd (sort_key fst entries))"

definition index_names :: "gorm_model \<Rightarrow> string list" where
  "index_names m = remdups (concat (map (\<lambda>(_, _, tags). List.map_filter (\<lambda>t. case t of Index n _ \<Rightarrow> Some n | _ \<Rightarrow> None) tags) (snd m)))"

definition model_agrees :: "gorm_model \<Rightarrow> table_def \<Rightarrow> bool" where
  "model_agrees m t \<longleftrightarrow> fst m = td_name t \<and>
     list_all2 (\<lambda>f c. tag_column f = col_name c \<and> type_agrees f (col_type c)) (snd m) (td_columns t) \<and>
     map tag_column (filter (has_tag PrimaryKey) (snd m)) = td_primary t \<and>
     set (map (\<lambda>n. (n, index_columns m n)) (index_names m)) = set (td_keys t)"

text \<open>The columns where the descriptions differ in \<^verbatim>\<open>NOT NULL\<close> or in the default. A primary key is not null.\<close>

definition column_differences :: "gorm_model \<Rightarrow> table_def \<Rightarrow> (string \<times> string) list" where
  "column_differences m t = List.map_filter (\<lambda>(f, c).
     if (has_tag NotNull f \<or> has_tag PrimaryKey f) = col_not_null c \<and> tag_defaults f = (case col_default c of None \<Rightarrow> [] | Some x \<Rightarrow> [x])
     then None else Some (td_name t, col_name c)) (zip (snd m) (td_columns t))"

section \<open>Rows and columns\<close>

text \<open>What a driver sends for a field. An empty \<^verbatim>\<open>datatypes.JSON\<close> is sent as \<^verbatim>\<open>NULL\<close>, and so is a nil time.\<close>

datatype sql_value = VInt int | VString string | VJson raw_message | VTime go_time | VNull

definition json_value :: "raw_message \<Rightarrow> sql_value" where
  "json_value r = (if r = RawEmpty then VNull else VJson r)"

text \<open>
  The values a column takes: an integer in the range of its type, a text that is short enough (the length of a Go string counts
  bytes and so is no less than its number of characters), valid JSON, \<^verbatim>\<open>NULL\<close> where it is allowed.
\<close>

definition value_fits :: "column_def \<Rightarrow> sql_value \<Rightarrow> bool" where
  "value_fits c v = (case v of
       VInt n \<Rightarrow> (case col_type c of TBigint \<Rightarrow> in_int64 n | TInt \<Rightarrow> in_int32 n | _ \<Rightarrow> False)
     | VString s \<Rightarrow> (case col_type c of TVarchar n \<Rightarrow> length s \<le> n | TText \<Rightarrow> length s < 2 ^ 16 | _ \<Rightarrow> False)
     | VJson r \<Rightarrow> col_type c = TJson \<and> (case r of RawValid _ \<Rightarrow> True | _ \<Rightarrow> False)
     | VTime _ \<Rightarrow> col_type c = TDatetime
     | VNull \<Rightarrow> \<not> col_not_null c)"

definition row_fits :: "table_def \<Rightarrow> (string \<times> sql_value) list \<Rightarrow> bool" where
  "row_fits t row \<longleftrightarrow> list_all2 (\<lambda>c (name, v). col_name c = name \<and> value_fits c v) (td_columns t) row"

definition ledger_values :: "UserGlobalMailRewardLedgerModel \<Rightarrow> (string \<times> sql_value) list" where
  "ledger_values r = [(''grant_key'', VString (rlm_GrantKey r)), (''role_id'', VInt (rlm_RoleID r)),
     (''server_id'', VInt (rlm_ServerID r)), (''global_mail_id'', VInt (rlm_GlobalMailID r)), (''loot_index'', VInt (rlm_LootIndex r)),
     (''status'', VString (rlm_Status r)), (''external_reward_id'', VString (rlm_ExternalRewardID r)),
     (''failure_reason'', VString (rlm_FailureReason r)), (''create_time'', VTime (rlm_CreateTime r)),
     (''update_time'', VTime (rlm_UpdateTime r))]"

definition backpack_values :: "UserBackpackRewardModel \<Rightarrow> (string \<times> sql_value) list" where
  "backpack_values r = [(''grant_key'', VString (bpm_GrantKey r)), (''role_id'', VInt (bpm_RoleID r)),
     (''server_id'', VInt (bpm_ServerID r)), (''loot_index'', VInt (bpm_LootIndex r)), (''loot'', json_value (bpm_Loot r)),
     (''create_time'', VTime (bpm_CreateTime r))]"

definition outbox_values :: "GlobalMailOutboxEventModel \<Rightarrow> (string \<times> sql_value) list" where
  "outbox_values r = [(''event_id'', VInt (obm_EventID r)), (''event_type'', VString (obm_EventType r)),
     (''aggregate_id'', VInt (obm_AggregateID r)), (''version'', VInt (obm_Version r)), (''payload'', json_value (obm_Payload r)),
     (''status'', VString (obm_Status r)), (''retry_count'', VInt (obm_RetryCount r)),
     (''next_retry_time'', case obm_NextRetryTime r of None \<Rightarrow> VNull | Some t \<Rightarrow> VTime t),
     (''locked_by'', VString (obm_LockedBy r)),
     (''locked_until'', case obm_LockedUntil r of None \<Rightarrow> VNull | Some t \<Rightarrow> VTime t),
     (''failure_reason'', VString (obm_FailureReason r)),
     (''published_time'', case obm_PublishedTime r of None \<Rightarrow> VNull | Some t \<Rightarrow> VTime t),
     (''create_time'', VTime (obm_CreateTime r)), (''update_time'', VTime (obm_UpdateTime r))]"

lemmas fits_simps = row_fits_def value_fits_def column_def json_value_def

section \<open>Properties\<close>


text \<open>The length of a number in decimal.\<close>

lemma length_show_nat: "n < 10 ^ k \<Longrightarrow> 0 < k \<Longrightarrow> length (show_nat n) \<le> k"
proof (induction k arbitrary: n)
  case (Suc k)
  show ?case
  proof (cases "n < 10")
    case True
    then show ?thesis by (subst show_nat.simps) simp
  next
    case False
    with Suc.prems have "0 < k" by (cases k) auto
    moreover have "n div 10 < 10 ^ k" using Suc.prems(1) by (simp add: less_mult_imp_div_less mult.commute)
    ultimately have "length (show_nat (n div 10)) \<le> k" by (intro Suc.IH)
    with False show ?thesis by (subst show_nat.simps) simp
  qed
qed simp

lemma length_show_int: "in_int64 i \<Longrightarrow> length (show_int i) \<le> 20"
proof -
  assume "in_int64 i"
  then have "nat i < 10 ^ 19" "nat (- i) < 10 ^ 19" by (auto simp: in_int64_def nat_less_iff)
  then show ?thesis using length_show_nat [of "nat i" 19] length_show_nat [of "nat (- i)" 19] by (simp add: show_int_def)
qed

lemma in_int32_int64: "in_int32 i \<Longrightarrow> in_int64 i"
  by (simp add: in_int32_def in_int64_def)

lemma length_grant_key:
  assumes "in_int64 role" "in_int64 mid" "in_int64 i"
  shows "length (grant_key role mid i) \<le> 62"
  using assms [THEN length_show_int] by (simp add: grant_key_def)

text \<open>
  The failure of an event is cut to the size of its column, so the row still fits; the failure of a reward is not cut, and a
  longer text does not fit.
\<close>

lemma failed_event_fits:
  assumes "row_fits schema_global_mail_outbox_event (outbox_values r)" "in_int32 (obm_RetryCount r + 1)"
  shows "row_fits schema_global_mail_outbox_event
    (outbox_values (failed_row nextRetryAt (failure_text cause) now (retry_status n (obm_RetryCount r)) r))"
  using assms length_failure_text [of cause]
  by (simp add: schema_global_mail_outbox_event_def outbox_values_def failed_row_def retry_status_def
      OutboxStatusPending_def OutboxStatusFailed_def fits_simps)

lemma long_failure_misfit:
  assumes "1024 < length (rlm_FailureReason r)"
  shows "\<not> row_fits schema_user_global_mail_reward_ledger (ledger_values r)"
  using assms by (simp add: schema_user_global_mail_reward_ledger_def ledger_values_def fits_simps)

text \<open>The rows that the delivery of a reward builds.\<close>

definition profile_in_range :: "UserProfile \<Rightarrow> bool" where
  "profile_in_range profile \<longleftrightarrow> in_int64 (prof_RoleID profile) \<and> in_int32 (prof_ServerID profile)"

lemma loot_fits: "lootAtIndex loots i = Inr loot \<Longrightarrow> loot = RawEmpty \<or> (\<exists>j. loot = RawValid j)"
proof (induction loots)
  case (RawValid j)
  then show ?case by (cases j) (auto simp: lootAtIndex_def split: if_splits)
qed (auto simp: lootAtIndex_def split: if_splits)

lemma backpack_row_fits:
  assumes "profile_in_range profile" "in_int64 mid" "in_int32 i" "lootAtIndex loots i = Inr loot"
  shows "row_fits schema_user_backpack_reward (backpack_values (backpack_model (backpack_grant t (reward_grant profile mid i loot now))))"
  using assms(1-3) loot_fits [OF assms(4)] length_grant_key [of "prof_RoleID profile" mid i] in_int32_int64 [OF assms(3)]
  by (auto simp: schema_user_backpack_reward_def backpack_values_def backpack_model_def backpack_grant_def reward_grant_def
      profile_in_range_def fits_simps)

lemma ledger_row_fits:
  assumes "profile_in_range profile" "in_int64 mid" "in_int32 i"
  shows "row_fits schema_user_global_mail_reward_ledger
    (ledger_values (ledger_model (pending_grant t (reward_grant profile mid i loot now)) t'))"
    "row_fits schema_user_global_mail_reward_ledger (ledger_values ((ledger_model (pending_grant t (reward_grant profile mid i loot now)) t')
      \<lparr>rlm_Status := ''succeeded'', rlm_ExternalRewardID := ''playersrv-backpack:'' @ grant_key (prof_RoleID profile) mid i,
       rlm_FailureReason := [], rlm_UpdateTime := t\<rparr>))"
  using assms length_grant_key [of "prof_RoleID profile" mid i] in_int32_int64 [OF assms(3)]
  by (simp_all add: schema_user_global_mail_reward_ledger_def ledger_values_def ledger_model_def pending_grant_def reward_grant_def
      profile_in_range_def fits_simps Let_def)

context player_drivers begin

lemma reward_effect:
  "backpack_GrantGlobalMailReward (NewBackpackRewardService (Some (mysql_RewardLedger D)) (Some (mysql_Backpack D)) clock) g w = (r, w') \<Longrightarrow>
   rewarded g r (db w) (db w')"
  by (rule delivery.service_grants)

end



end
