(* ===== verification/Http_Servers.thy ===== *)
theory Http_Servers
  imports Publisher Account_Service
begin

text \<open>
  The HTTP servers of the admin and the account program (\<^verbatim>\<open>app/adminsrv/server.go\<close>, \<^verbatim>\<open>app/accountsrv/server.go\<close>): which handler a request reaches
  through \<^verbatim>\<open>http.ServeMux\<close>. The patterns of the source are complete paths without a host.
\<close>

section \<open>The request multiplexer\<close>

text \<open>\<^verbatim>\<open>cleanPath\<close> of \<^verbatim>\<open>net/http\<close>.\<close>

definition cleanPath :: "string \<Rightarrow> string" where
  "cleanPath p = (if p = [] then ''/''
     else let p = (if hd p = CHR ''/'' then p else CHR ''/'' # p); np = path_Clean p
          in if last p = CHR ''/'' \<and> np \<noteq> ''/'' then np @ ''/'' else np)"

datatype 'a mux_reply = Served 'a | MovedPermanently string | NotFound

definition mux_handler :: "(string \<times> 'h) list \<Rightarrow> string \<Rightarrow> string \<Rightarrow> 'h mux_reply" where
  "mux_handler routes method path =
     (if method \<noteq> ''CONNECT'' \<and> cleanPath path \<noteq> path then MovedPermanently (cleanPath path)
      else case map_of routes path of None \<Rightarrow> NotFound | Some h \<Rightarrow> Served h)"

definition mux_serve :: "('r \<Rightarrow> 'w \<Rightarrow> 'a \<times> 'w) mux_reply \<Rightarrow> 'r \<Rightarrow> 'w \<Rightarrow> 'a mux_reply \<times> 'w" where
  "mux_serve found r w = (case found of
       Served h \<Rightarrow> (let (reply, w1) = h r w in (Served reply, w1))
     | MovedPermanently p \<Rightarrow> (MovedPermanently p, w)
     | NotFound \<Rightarrow> (NotFound, w))"

section \<open>The admin server\<close>

record 'w admin_Server =
  ads_publisher :: "'w PublisherService"
  ads_mux :: "(string \<times> (http_request \<Rightarrow> 'w \<Rightarrow> http_response \<times> 'w)) list"

definition admin_routes :: "(json \<Rightarrow> string) \<Rightarrow> 'w admin_Server \<Rightarrow> 'w admin_Server" where
  "admin_routes digest s = s\<lparr>ads_mux := ads_mux s @ [(''/admin/global-mails'', handlePublishGlobalMail digest (ads_publisher s))]\<rparr>"

definition admin_NewServer :: "(json \<Rightarrow> string) \<Rightarrow> 'w PublisherService \<Rightarrow> 'w admin_Server" where
  "admin_NewServer digest service = admin_routes digest \<lparr>ads_publisher = service, ads_mux = []\<rparr>"

definition admin_Handler :: "'w admin_Server \<Rightarrow> string \<Rightarrow> http_request \<Rightarrow> 'w \<Rightarrow> http_response mux_reply \<times> 'w" where
  "admin_Handler s path r w = mux_serve (mux_handler (ads_mux s) (http_Method r) path) r w"

section \<open>The account server\<close>

definition handleHealthz :: "(string \<Rightarrow> ('w, unit) io) \<Rightarrow> login_http_request \<Rightarrow> 'w \<Rightarrow> http_action list \<times> 'w" where
  "handleHealthz write r w = (let (_, w1) = write ''ok'' w in ([WriteHeader 200, WriteBody ''ok''], w1))"

definition account_Handler :: "'w account_Service \<Rightarrow> login_codec \<Rightarrow> (string \<Rightarrow> ('w, unit) io) \<Rightarrow> string \<Rightarrow> login_http_request \<Rightarrow> 'w \<Rightarrow>
  http_action list mux_reply \<times> 'w" where
  "account_Handler s codec write path r w =
     mux_serve (mux_handler [(''/healthz'', handleHealthz write), (''/login'', handleLogin s codec write)] (lh_Method r) path) r w"

section \<open>Properties\<close>

lemma admin_Handler_cases:
  assumes "admin_Handler (admin_NewServer digest service) path r w = (reply, w')"
  obtains (handled) response where "path = ''/admin/global-mails''" "reply = Served response"
      "handlePublishGlobalMail digest service r w = (response, w')"
  | (other) "w' = w" "\<And>response. reply \<noteq> Served response"
  using assms
  by (auto simp: admin_Handler_def admin_NewServer_def admin_routes_def mux_serve_def mux_handler_def split: if_splits prod.splits)

text \<open>Only a posted request is worked on.\<close>

lemma handler_post: "handlePublishGlobalMail digest s r w = (response, w') \<Longrightarrow> w' \<noteq> w \<Longrightarrow> http_Method r = ''POST''"
  by (auto simp: handlePublishGlobalMail_def split: if_splits)

text \<open>
  C32. The admin server publishes only what was posted to its one path: the database changes only in a request with the method \<^verbatim>\<open>POST\<close> to
  \<^verbatim>\<open>/admin/global-mails\<close>, and an answer with a body says 201, to a request that could be decoded and has a title, a content and a time
  window; the mail in the answer was just stored with all its rows, or it is the answer that was stored for the idempotency key of
  the request before.
\<close>

theorem admin_created:
  assumes "gorm D db" "clock_ok clock db" "tables_wf (db w)"
    and "admin_Handler (admin_NewServer digest (admin_publisher D clock)) path r w = (reply, w')"
  shows "(db w' \<noteq> db w \<longrightarrow> path = ''/admin/global-mails'' \<and> http_Method r = ''POST'') \<and>
    (\<forall>status body. reply = Served (HttpJSON status body) \<longrightarrow>
      (\<exists>req key mail. path = ''/admin/global-mails'' \<and> status = 201 \<and> http_Method r = ''POST'' \<and>
        Unmarshal unmarshal_publish_request (http_Body r) = Inr req \<and> body = marshal_mail mail \<and>
        pgr_Title req \<noteq> [] \<and> pgr_Content req \<noteq> [] \<and> pgr_StartTime req \<noteq> 0 \<and> pgr_StartTime req < pgr_ExpireTime req \<and>
        key = (if pgr_IdempotencyKey req = [] then http_IdempotencyKey r else pgr_IdempotencyKey req) \<and>
        ((\<exists>h. publication (publish_command req key) h mail (db w) (db w') \<and>
             mail_Title mail = pgr_Title req \<and> mail_ExpireTime mail = pgr_ExpireTime req \<and> mail_Status mail = MailStatusPublished) \<or>
         db w' = db w \<and> key \<noteq> [] \<and>
           (\<exists>rec. db_idempotency key (db w) = Some rec \<and> Unmarshal unmarshal_mail (idem_ResponseSnapshot rec) = Inr mail))))"
  using assms(4)
proof (cases rule: admin_Handler_cases)
  case (handled response)
  from handler_post [OF handled(3)] have post: "db w' \<noteq> db w \<Longrightarrow> http_Method r = ''POST''" by auto
  show ?thesis
  proof (intro conjI allI impI)
    fix status body
    assume "reply = Served (HttpJSON status body)"
    then have "handlePublishGlobalMail digest (admin_publisher D clock) r w = (HttpJSON status body, w')" using handled(2,3) by simp
    from publish_handler_created [OF assms(1-3) this] show "\<exists>req key mail. path = ''/admin/global-mails'' \<and> status = 201 \<and> http_Method r = ''POST'' \<and>
        Unmarshal unmarshal_publish_request (http_Body r) = Inr req \<and> body = marshal_mail mail \<and>
        pgr_Title req \<noteq> [] \<and> pgr_Content req \<noteq> [] \<and> pgr_StartTime req \<noteq> 0 \<and> pgr_StartTime req < pgr_ExpireTime req \<and>
        key = (if pgr_IdempotencyKey req = [] then http_IdempotencyKey r else pgr_IdempotencyKey req) \<and>
        ((\<exists>h. publication (publish_command req key) h mail (db w) (db w') \<and>
             mail_Title mail = pgr_Title req \<and> mail_ExpireTime mail = pgr_ExpireTime req \<and> mail_Status mail = MailStatusPublished) \<or>
         db w' = db w \<and> key \<noteq> [] \<and>
           (\<exists>rec. db_idempotency key (db w) = Some rec \<and> Unmarshal unmarshal_mail (idem_ResponseSnapshot rec) = Inr mail))"
      by (simp only: handled(1) simp_thms)
  qed (use handled(1) post in simp_all)
next
  case other
  then show ?thesis by simp
qed

theorem admin_created_witness:
  "\<exists>req mail w'. admin_Handler (admin_NewServer sample_digest (admin_publisher mem_gorm mem_clock)) ''/admin/global-mails'' sample_request mem_start
       = (Served (HttpJSON 201 (marshal_mail mail)), w') \<and>
     (\<exists>h. publication (publish_command req []) h mail (mw_db mem_start) (mw_db w'))"
proof -
  let ?run = "admin_Handler (admin_NewServer sample_digest (admin_publisher mem_gorm mem_clock)) ''/admin/global-mails'' sample_request mem_start"
  have "case fst ?run of Served (HttpJSON st _) \<Rightarrow> True | _ \<Rightarrow> False" by code_simp
  then obtain st body w' where run: "?run = (Served (HttpJSON st body), w')"
    by (cases ?run) (auto split: mux_reply.splits http_response.splits)
  have "\<And>k. db_idempotency k (mw_db mem_start) = None"
    by (simp add: db_idempotency_def mem_start_def no_tables_def)
  moreover have "case Unmarshal unmarshal_publish_request (http_Body sample_request) of
      Inl _ \<Rightarrow> False | Inr req \<Rightarrow> pgr_IdempotencyKey req = []" by code_simp
  moreover have "http_IdempotencyKey sample_request = []" by (simp add: sample_request_def)
  ultimately show ?thesis
    using admin_created [OF mem.gorm_axioms mem_clock_ok tables_wf_start run] run by auto blast
qed

text \<open>A login is worked on only at \<^verbatim>\<open>/login\<close>; a health check is answered whatever the state of the service is.\<close>

lemma account_Handler_login:
  "account_Handler s codec write ''/login'' r w = (let (actions, w1) = handleLogin s codec write r w in (Served actions, w1))"
  "account_Handler s codec write ''/healthz'' r w = (Served [WriteHeader 200, WriteBody ''ok''], snd (write ''ok'' w))"
proof -
  have "cleanPath ''/login'' = ''/login''" "cleanPath ''/healthz'' = ''/healthz''" by code_simp+
  then show "account_Handler s codec write ''/login'' r w = (let (actions, w1) = handleLogin s codec write r w in (Served actions, w1))"
    "account_Handler s codec write ''/healthz'' r w = (Served [WriteHeader 200, WriteBody ''ok''], snd (write ''ok'' w))"
    by (simp_all add: account_Handler_def mux_serve_def mux_handler_def handleHealthz_def split: prod.splits)
qed

lemma account_Handler_other:
  assumes "path \<noteq> ''/login''" "path \<noteq> ''/healthz''"
  shows "\<exists>reply. account_Handler s codec write path r w = (reply, w) \<and> (\<forall>actions. reply \<noteq> Served actions)"
  using assms by (simp add: account_Handler_def mux_serve_def mux_handler_def)

end
