(* ===== verification/Programs.thy ===== *)
theory Programs
  imports Services
begin

text \<open>
  The five main functions under \<^verbatim>\<open>cmd/\<close> as sequences of calls, with the clients that they open (\<^verbatim>\<open>data/mysql/client.go\<close>,
  \<^verbatim>\<open>data/redis/client.go\<close>, \<^verbatim>\<open>infra/etcd/client.go\<close>). What a call does to the outside world is a parameter. A main function ends by
  returning, which runs its deferred calls, or by \<^verbatim>\<open>log.Fatalf\<close>, which does not. The properties show which clients are closed, and when a
  server is listed in the registry.
\<close>

section \<open>Options of the clients\<close>

record redis_UniversalOptions =
  ro_Addrs :: "string list"
  ro_Username :: string
  ro_Password :: string
  ro_DB :: int
  ro_DialTimeout :: duration
  ro_ReadTimeout :: duration
  ro_WriteTimeout :: duration

definition redis_NewClient :: "RedisConfig \<Rightarrow> redis_UniversalOptions" where
  "redis_NewClient cfg = \<lparr>ro_Addrs = rc_Addrs cfg, ro_Username = rc_Username cfg, ro_Password = rc_Password cfg, ro_DB = rc_DB cfg,
     ro_DialTimeout = rc_DialTimeout cfg, ro_ReadTimeout = rc_ReadTimeout cfg, ro_WriteTimeout = rc_WriteTimeout cfg\<rparr>"

record clientv3_Config =
  eo_Endpoints :: "string list"
  eo_Username :: string
  eo_Password :: string
  eo_DialTimeout :: duration

definition etcd_NewClient :: "EtcdConfig \<Rightarrow> clientv3_Config" where
  "etcd_NewClient cfg = \<lparr>eo_Endpoints = ec_Endpoints cfg, eo_Username = ec_Username cfg, eo_Password = ec_Password cfg,
     eo_DialTimeout = ec_DialTimeout cfg\<rparr>"

section \<open>Main functions\<close>

text \<open>
  The calls of a main function that reach outside its memory. \<open>Goroutines\<close> starts the goroutines of the player server and waits for
  the first error that one of them sends.
\<close>

datatype program_call =
    GormOpen string | PoolDB | SetPool sql_pool | AutoMigrate | MainDB | CloseSqlDB
  | OpenRedis redis_UniversalOptions | CloseRedis
  | OpenEtcd clientv3_Config | CloseEtcd | RegisterInstance etcd_Instance | UnregisterInstance string string
  | DialPlayer string | ClosePlayer
  | OpenWriter kafka_writer | CloseWriter | OpenReader kafka_reader | CloseReader
  | NotifySignals | StopSignals | RefreshAtStart | RegisterCommands | CloseQueue | CloseConnections
  | Listen string | ServeGRPC | ListenAndServe string | RunWorker | Goroutines

datatype program_end = Finished | Fatal string

text \<open>
  A program runs with the effects of the calls and the stack of deferred calls; it gives its end, the calls in the order in which they were
  made, and the world.
\<close>

type_synonym 'w calls = "program_call \<Rightarrow> ('w, unit) io"
type_synonym 'w program = "'w calls \<Rightarrow> program_call list \<Rightarrow> 'w \<Rightarrow> program_end \<times> program_call list \<times> 'w"

text \<open>A call without an error, or with one that is dropped or logged.\<close>

definition perform :: "program_call \<Rightarrow> 'w program \<Rightarrow> 'w program" where
  "perform call rest env deferred w =
     (let (_, w1) = env call w; (e, calls, w2) = rest env deferred w1 in (e, call # calls, w2))"

text \<open>\<^verbatim>\<open>if err := call(); err != nil { log.Fatalf("text: %v", err) }\<close>\<close>

definition must :: "program_call \<Rightarrow> string \<Rightarrow> 'w program \<Rightarrow> 'w program" where
  "must call text rest env deferred w = (case env call w of
       (Inl e, w1) \<Rightarrow> (Fatal (text @ '': '' @ error_text e), [call], w1)
     | (Inr _, w1) \<Rightarrow> (let (e, calls, w2) = rest env deferred w1 in (e, call # calls, w2)))"

definition deferring :: "program_call \<Rightarrow> 'w program \<Rightarrow> 'w program" where
  "deferring call rest env deferred = rest env (call # deferred)"

text \<open>The deferred calls run at the end, the last first; their errors are dropped.\<close>

fun main_return :: "'w program" where
  "main_return env [] w = (Finished, [], w)"
| "main_return env (call # deferred) w = perform call (\<lambda>env _. main_return env deferred) env [] w"

text \<open>The last call of a main function, with the errors that are not fatal.\<close>

definition await :: "program_call \<Rightarrow> string \<Rightarrow> (error \<Rightarrow> bool) \<Rightarrow> 'w program" where
  "await call text tolerated env deferred w = (case env call w of
       (Inl e, w1) \<Rightarrow> if tolerated e then (let (e, calls, w2) = main_return env deferred w1 in (e, call # calls, w2))
         else (Fatal (text @ '': '' @ error_text e), [call], w1)
     | (Inr _, w1) \<Rightarrow> (let (e, calls, w2) = main_return env deferred w1 in (e, call # calls, w2)))"

definition with_config ::
  "(string \<Rightarrow> error + string) \<Rightarrow> (string \<Rightarrow> Config \<Rightarrow> error + Config) \<Rightarrow> string \<Rightarrow> (Config \<Rightarrow> 'w program) \<Rightarrow> 'w program" where
  "with_config read_file yaml path rest env deferred w = (case LoadConfig read_file yaml path of
       Inl e \<Rightarrow> (Fatal (''load config: '' @ error_text e), [], w)
     | Inr cfg \<Rightarrow> rest cfg env deferred w)"

section \<open>The five programs\<close>

definition mysql_Open :: "MySQLConfig \<Rightarrow> 'w program \<Rightarrow> 'w program" where
  "mysql_Open cfg rest = must (GormOpen (my_DSN cfg)) ''open mysql'' (must PoolDB ''open mysql'' (perform (SetPool (ConfigurePool cfg)) rest))"

definition migrate :: "MySQLConfig \<Rightarrow> 'w program \<Rightarrow> 'w program" where
  "migrate cfg rest = (if my_AutoMigrate cfg then must AutoMigrate ''auto migrate'' rest else rest)"

definition open_redis :: "Config \<Rightarrow> 'w program \<Rightarrow> 'w program" where
  "open_redis cfg rest = perform (OpenRedis (redis_NewClient (cfg_Redis cfg))) (deferring CloseRedis rest)"

definition open_etcd :: "Config \<Rightarrow> 'w program \<Rightarrow> 'w program" where
  "open_etcd cfg rest = must (OpenEtcd (etcd_NewClient (cfg_Etcd cfg))) ''open etcd'' (deferring CloseEtcd rest)"

definition register :: "Config \<Rightarrow> string \<Rightarrow> etcd_Instance \<Rightarrow> 'w program \<Rightarrow> 'w program" where
  "register cfg text i rest = must (RegisterInstance i) text
     (deferring (UnregisterInstance (svc_Name (cfg_Service cfg)) (svc_InstanceID (cfg_Service cfg))) rest)"

definition player_serve :: "Config \<Rightarrow> 'w program" where
  "player_serve cfg = perform (OpenReader (NewGlobalMailConsumer (cfg_Kafka cfg) (kc_ConsumerGroup (cfg_Kafka cfg))))
     (deferring CloseReader (await Goroutines ''run playersrv'' (\<lambda>e. e = ContextCanceled)))"

definition playersrv_run :: "Config \<Rightarrow> 'w program" where
  "playersrv_run cfg = perform NotifySignals (deferring StopSignals (
     mysql_Open (cfg_MySQL cfg) (migrate (cfg_MySQL cfg) (must MainDB ''get sql db'' (deferring CloseSqlDB (
     open_redis cfg (perform RefreshAtStart (
     must (Listen (svc_ListenAddr (cfg_Service cfg))) ''listen playersrv'' (
     must RegisterCommands ''register mail commands'' (deferring CloseQueue (
     open_etcd cfg (register cfg ''register playersrv'' (player_instance cfg) (player_serve cfg)))))))))))))"

definition gatewaysrv_run :: "Config \<Rightarrow> 'w program" where
  "gatewaysrv_run cfg = perform NotifySignals (deferring StopSignals (
     open_redis cfg (open_etcd cfg (register cfg ''register gatewaysrv'' (gateway_instance cfg) (
     deferring CloseConnections (
     must (Listen (svc_ListenAddr (cfg_Service cfg))) ''listen gatewaysrv'' (
     await ServeGRPC ''serve gatewaysrv'' (\<lambda>e. False))))))))"

definition ErrServerClosed :: error where
  "ErrServerClosed = ErrorNew ''http: Server closed''"

definition accountsrv_run :: "Config \<Rightarrow> 'w program" where
  "accountsrv_run cfg = perform NotifySignals (deferring StopSignals (
     open_redis cfg (
     must (DialPlayer (ac_PlayerServiceAddr (cfg_Account cfg))) ''dial playersrv'' (deferring ClosePlayer (
     await (ListenAndServe (svc_ListenAddr (cfg_Service cfg))) ''serve accountsrv'' (\<lambda>e. e = ErrServerClosed))))))"

definition adminsrv_run :: "Config \<Rightarrow> 'w program" where
  "adminsrv_run cfg = mysql_Open (cfg_MySQL cfg) (migrate (cfg_MySQL cfg) (open_redis cfg (
     await (ListenAndServe (svc_ListenAddr (cfg_Service cfg))) ''listen'' (\<lambda>e. False))))"

text \<open>The interval and the limit of the worker are those of \<open>relay_worker\<close>.\<close>

definition mailrelaysrv_run :: "Config \<Rightarrow> 'w program" where
  "mailrelaysrv_run cfg = mysql_Open (cfg_MySQL cfg) (migrate (cfg_MySQL cfg) (open_redis cfg (
     perform (OpenWriter (NewGlobalMailPublisher (cfg_Kafka cfg))) (deferring CloseWriter (
     perform NotifySignals (deferring StopSignals (
     await RunWorker ''run outbox relay'' (\<lambda>e. e = ContextCanceled))))))))"

text \<open>The main functions load the configuration from the path of the flag \<^verbatim>\<open>-config\<close> first.\<close>

definition playersrv_main :: "(string \<Rightarrow> error + string) \<Rightarrow> (string \<Rightarrow> Config \<Rightarrow> error + Config) \<Rightarrow> string \<Rightarrow> 'w program" where
  "playersrv_main read_file yaml path = with_config read_file yaml path playersrv_run"

definition gatewaysrv_main :: "(string \<Rightarrow> error + string) \<Rightarrow> (string \<Rightarrow> Config \<Rightarrow> error + Config) \<Rightarrow> string \<Rightarrow> 'w program" where
  "gatewaysrv_main read_file yaml path = with_config read_file yaml path gatewaysrv_run"

definition accountsrv_main :: "(string \<Rightarrow> error + string) \<Rightarrow> (string \<Rightarrow> Config \<Rightarrow> error + Config) \<Rightarrow> string \<Rightarrow> 'w program" where
  "accountsrv_main read_file yaml path = with_config read_file yaml path accountsrv_run"

definition adminsrv_main :: "(string \<Rightarrow> error + string) \<Rightarrow> (string \<Rightarrow> Config \<Rightarrow> error + Config) \<Rightarrow> string \<Rightarrow> 'w program" where
  "adminsrv_main read_file yaml path = with_config read_file yaml path adminsrv_run"

definition mailrelaysrv_main :: "(string \<Rightarrow> error + string) \<Rightarrow> (string \<Rightarrow> Config \<Rightarrow> error + Config) \<Rightarrow> string \<Rightarrow> 'w program" where
  "mailrelaysrv_main read_file yaml path = with_config read_file yaml path mailrelaysrv_run"

lemmas program_parts = mysql_Open_def migrate_def open_redis_def open_etcd_def register_def player_serve_def

section \<open>What is released\<close>

text \<open>The call that releases what a call has opened.\<close>

fun release_of :: "program_call \<Rightarrow> program_call option" where
  "release_of (GormOpen _) = Some CloseSqlDB"
| "release_of (OpenRedis _) = Some CloseRedis"
| "release_of (OpenEtcd _) = Some CloseEtcd"
| "release_of (RegisterInstance i) = Some (UnregisterInstance (ei_ServiceName i) (ei_InstanceID i))"
| "release_of (DialPlayer _) = Some ClosePlayer"
| "release_of (OpenWriter _) = Some CloseWriter"
| "release_of (OpenReader _) = Some CloseReader"
| "release_of NotifySignals = Some StopSignals"
| "release_of _ = None"

fun is_release :: "program_call \<Rightarrow> bool" where
  "is_release (UnregisterInstance _ _) \<longleftrightarrow> True"
| "is_release c \<longleftrightarrow> c \<in> {CloseSqlDB, CloseRedis, CloseEtcd, ClosePlayer, CloseWriter, CloseReader, StopSignals}"

lemma perform_run:
  "perform call rest env ds w = (e, calls, w') \<longleftrightarrow>
     (\<exists>calls1. calls = call # calls1 \<and> rest env ds (snd (env call w)) = (e, calls1, w'))"
  by (auto simp: perform_def split: prod.splits)

lemma must_run:
  "must call text rest env ds w = (e, calls, w') \<longleftrightarrow>
     (\<exists>err. env call w = (Inl err, w') \<and> e = Fatal (text @ '': '' @ error_text err) \<and> calls = [call]) \<or>
     (\<exists>w1 calls1. env call w = (Inr (), w1) \<and> calls = call # calls1 \<and> rest env ds w1 = (e, calls1, w'))"
  by (auto simp: must_def split: prod.splits sum.splits)

lemma main_return_run:
  "main_return env ds w = (e, calls, w') \<longleftrightarrow> e = Finished \<and> calls = ds \<and> w' = fold (\<lambda>c w. snd (env c w)) ds w"
  by (induction ds arbitrary: w calls) (auto simp: perform_run)

lemma await_run:
  "await call text tolerated env ds w = (e, calls, w') \<longleftrightarrow> (\<exists>r w1. env call w = (r, w1) \<and>
     (if \<exists>err. r = Inl err \<and> \<not> tolerated err
      then calls = [call] \<and> w' = w1 \<and> (\<exists>err. r = Inl err \<and> e = Fatal (text @ '': '' @ error_text err))
      else e = Finished \<and> calls = call # ds \<and> w' = fold (\<lambda>c w. snd (env c w)) ds w1))"
  by (auto simp: await_def main_return_run split: prod.splits sum.splits if_splits)

lemmas program_runs = perform_run must_run await_run deferring_def

text \<open>
  The deferred calls of a main function that returns are on top of the calls it has made; the stack grows with what is opened.
\<close>

lemma player_releases:
  assumes "playersrv_run cfg env [] w = (e, calls, w')"
  shows "filter is_release calls = (if e = Finished then rev (List.map_filter release_of calls) else [])"
  using assms
  by (auto simp: playersrv_run_def program_parts program_runs map_filter_simps player_instance_def split: if_splits)

lemma gateway_releases:
  assumes "gatewaysrv_run cfg env [] w = (e, calls, w')"
  shows "filter is_release calls = (if e = Finished then rev (List.map_filter release_of calls) else [])"
  using assms
  by (auto simp: gatewaysrv_run_def program_parts program_runs map_filter_simps gateway_instance_def split: if_splits)

lemma account_releases:
  assumes "accountsrv_run cfg env [] w = (e, calls, w')"
  shows "filter is_release calls = (if e = Finished then rev (List.map_filter release_of calls) else [])"
  using assms
  by (auto simp: accountsrv_run_def program_parts program_runs map_filter_simps split: if_splits)

lemma relay_releases:
  assumes "mailrelaysrv_run cfg env [] w = (e, calls, w')"
  shows "filter is_release calls = (if e = Finished then rev (filter (\<lambda>c. c \<noteq> CloseSqlDB) (List.map_filter release_of calls)) else [])"
  using assms
  by (auto simp: mailrelaysrv_run_def program_parts program_runs map_filter_simps split: if_splits)

text \<open>\<^verbatim>\<open>http.ListenAndServe\<close> returns only with an error, so the admin server never returns and closes nothing.\<close>

lemma admin_never_returns:
  assumes "adminsrv_run cfg env [] w = (e, calls, w')" "\<forall>addr w r w1. env (ListenAndServe addr) w = (r, w1) \<longrightarrow> (\<exists>err. r = Inl err)"
  shows "\<exists>text. e = Fatal text" "filter is_release calls = []"
  using assms
  by (auto simp: adminsrv_run_def program_parts program_runs split: if_splits) blast+

text \<open>
  The gateway registers before it listens: when it cannot listen, it ends with its entry in the registry, since no deferred call runs.
\<close>

lemma gateway_listen_failure:
  assumes "gatewaysrv_run cfg env [] w = (Fatal (''listen gatewaysrv: '' @ text), calls, w')"
  shows "RegisterInstance (gateway_instance cfg) \<in> set calls" "filter is_release calls = []"
  using assms gateway_releases [OF assms]
  by (auto simp: gatewaysrv_run_def program_parts program_runs)

section \<open>The entry of a player server in the registry\<close>

text \<open>
  The calls of a player server on the registry \<open>r\<close>: the two that are meant for it act on the entry under the key \<open>k\<close>, and no other call
  does, which holds while the lease is kept alive and nobody else writes the entry.
\<close>

definition registry_calls :: "'w Registry \<Rightarrow> ('w \<Rightarrow> string \<rightharpoonup> raw_message) \<Rightarrow> string \<Rightarrow> 'w calls \<Rightarrow> bool" where
  "registry_calls r kv k env \<longleftrightarrow>
     (\<forall>i. env (RegisterInstance i) = registry_Register r i) \<and>
     (\<forall>service inst. env (UnregisterInstance service inst) = registry_Unregister r service inst) \<and>
     (\<forall>c w. (\<forall>i. c \<noteq> RegisterInstance i) \<longrightarrow> (\<forall>service inst. c \<noteq> UnregisterInstance service inst) \<longrightarrow> kv (snd (env c w)) k = kv w k)"

lemma registry_calls_frame:
  assumes "registry_calls r kv k env" "env c w = (res, w')" "\<forall>i. c \<noteq> RegisterInstance i" "\<forall>service inst. c \<noteq> UnregisterInstance service inst"
  shows "kv w' k = kv w k"
  using assms by (auto simp: registry_calls_def) (metis snd_conv)

text \<open>
  A program \<open>start\<close> that makes calls which have nothing to do with the entry, and then either ends or goes on as \<open>rest\<close> with the deferred
  calls \<open>ds'\<close>.
\<close>

fun neutral :: "program_call \<Rightarrow> bool" where
  "neutral (RegisterInstance _) \<longleftrightarrow> False"
| "neutral (UnregisterInstance _ _) \<longleftrightarrow> False"
| "neutral c \<longleftrightarrow> c \<notin> {Goroutines, ServeGRPC}"

definition leads :: "'w calls \<Rightarrow> ('w \<Rightarrow> string \<rightharpoonup> raw_message) \<Rightarrow> string \<Rightarrow> 'w program \<Rightarrow> program_call list \<Rightarrow> 'w program \<Rightarrow> program_call list \<Rightarrow> bool" where
  "leads env kv k start ds rest ds' \<longleftrightarrow> (\<forall>w e calls w'. start env ds w = (e, calls, w') \<longrightarrow>
     (e \<noteq> Finished \<and> list_all neutral calls \<and> kv w' k = kv w k) \<or>
     (\<exists>w0 calls0 calls1. kv w0 k = kv w k \<and> calls = calls0 @ calls1 \<and> list_all neutral calls0 \<and> rest env ds' w0 = (e, calls1, w')))"

lemma leads_here: "leads env kv k rest ds rest ds"
  unfolding leads_def by (metis append_Nil list.pred_inject(1))

lemma leads_deferring: "leads env kv k start (c # ds) rest ds' \<Longrightarrow> leads env kv k (deferring c start) ds rest ds'"
  by (simp add: leads_def deferring_def)

lemma neutral_frame: "registry_calls r kv k env \<Longrightarrow> neutral c \<Longrightarrow> env c w = (res, w') \<Longrightarrow> kv w' k = kv w k"
  by (erule registry_calls_frame) auto

lemma leads_step:
  assumes "neutral c" "kv w1 k = kv w k" "leads env kv k start ds rest ds'" "start env ds w1 = (e, calls, w')"
  shows "(e \<noteq> Finished \<and> list_all neutral (c # calls) \<and> kv w' k = kv w k) \<or>
     (\<exists>w0 calls0 calls1. kv w0 k = kv w k \<and> c # calls = calls0 @ calls1 \<and> list_all neutral calls0 \<and> rest env ds' w0 = (e, calls1, w'))"
  using assms unfolding leads_def by (metis append_Cons list.pred_inject(2))

lemma leads_perform:
  assumes "registry_calls r kv k env" "neutral c" "leads env kv k start ds rest ds'"
  shows "leads env kv k (perform c start) ds rest ds'"
  unfolding leads_def perform_run
  using leads_step [OF assms(2) _ assms(3)] neutral_frame [OF assms(1,2)] by (metis surjective_pairing)

lemma leads_must:
  assumes "registry_calls r kv k env" "neutral c" "leads env kv k start ds rest ds'"
  shows "leads env kv k (must c text start) ds rest ds'"
  unfolding leads_def must_run
proof (intro allI impI, elim disjE exE conjE)
  fix w e calls w' err
  assume "env c w = (Inl err, w')" "e = Fatal (text @ '': '' @ error_text err)" "calls = [c]"
  with neutral_frame [OF assms(1,2)] assms(2)
  show "(e \<noteq> Finished \<and> list_all neutral calls \<and> kv w' k = kv w k) \<or>
     (\<exists>w0 calls0 calls1. kv w0 k = kv w k \<and> calls = calls0 @ calls1 \<and> list_all neutral calls0 \<and> rest env ds' w0 = (e, calls1, w'))"
    by simp
next
  fix w e calls w' w1 calls1
  assume "env c w = (Inr (), w1)" "calls = c # calls1" "start env ds w1 = (e, calls1, w')"
  with leads_step [OF assms(2) _ assms(3)] neutral_frame [OF assms(1,2)]
  show "(e \<noteq> Finished \<and> list_all neutral calls \<and> kv w' k = kv w k) \<or>
     (\<exists>w0 calls0 calls1. kv w0 k = kv w k \<and> calls = calls0 @ calls1 \<and> list_all neutral calls0 \<and> rest env ds' w0 = (e, calls1, w'))"
    by blast
qed

lemma player_leads:
  assumes "registry_calls r kv k env"
  shows "leads env kv k (playersrv_run cfg) [] (register cfg ''register playersrv'' (player_instance cfg) (player_serve cfg))
       [CloseEtcd, CloseQueue, CloseRedis, CloseSqlDB, StopSignals]"
  unfolding playersrv_run_def mysql_Open_def migrate_def open_redis_def open_etcd_def
  by (cases "my_AutoMigrate (cfg_MySQL cfg)")
    (simp, intro leads_deferring leads_perform [OF assms] leads_must [OF assms] leads_here; simp)+

lemma fold_frame:
  assumes "\<forall>c \<in> set ds. \<forall>w. kv (snd (env c w)) k = kv w k"
  shows "kv (fold (\<lambda>c w. snd (env c w)) ds w) k = kv w k"
  using assms by (induction ds arbitrary: w) auto


text \<open>A player server with the default configuration under its own name; the goroutines end with the given error.\<close>

definition sample_player_config :: Config where
  "sample_player_config = config_Default\<lparr>cfg_Service := (cfg_Service config_Default)\<lparr>svc_Name := ''playersrv''\<rparr>\<rparr>"

definition sample_player_registry :: "mem_store Registry" where
  "sample_player_registry = NewRegistry mem_etcd (cfg_Etcd sample_player_config)"

definition sample_calls :: "error \<Rightarrow> mem_store calls" where
  "sample_calls err c = (case c of
       RegisterInstance i \<Rightarrow> registry_Register sample_player_registry i
     | UnregisterInstance service inst \<Rightarrow> registry_Unregister sample_player_registry service inst
     | Goroutines \<Rightarrow> (\<lambda>w. (Inl err, w))
     | _ \<Rightarrow> (\<lambda>w. (Inr (), w)))"

definition sample_player_main :: "mem_store program" where
  "sample_player_main = playersrv_main (\<lambda>path. Inr path) (\<lambda>payload cfg. Inr sample_player_config) ''globalmail.yaml''"

lemma sample_registry_calls: "registry_calls sample_player_registry map_of k (sample_calls err)"
  by (auto simp: registry_calls_def sample_calls_def split: program_call.splits)


end
